(* ===== verification/Prelude.thy ===== *)
theory Prelude
  imports Main "HOL-Library.Word" "HOL-Library.Multiset" "HOL-Library.Sublist"
begin

text \<open>
  Shared vocabulary of the development: the collections of facts the component
  theories extend, the search loop every routine of \<open>utils.c\<close> runs over a database
  file, the write of one record at an offset, and the list lemmas both need.
  Offsets are counted in records: every file is a sequence of whole records, so the byte
  offset of the code is the record index times the record size.
\<close>

named_theorems op_defs \<open>definitions of operations, to be unfolded in case analyses\<close>
named_theorems frame_simps \<open>what an operation leaves unchanged\<close>

section \<open>Lists of records\<close>

text \<open>
  The loop \<open>while (read(fd, &tmp, size) == size) { if (match) break; pos += size; }\<close>
  that \<open>utils.c\<close> repeats in every search: the index of the first matching record.
\<close>

fun scan_from :: "('r \<Rightarrow> bool) \<Rightarrow> 'r list \<Rightarrow> nat \<Rightarrow> nat option" where
  "scan_from p [] pos = None"
| "scan_from p (r # rs) pos = (if p r then Some pos else scan_from p rs (Suc pos))"

lemma scan_from_None: "scan_from p rs k = None \<longleftrightarrow> (\<forall>r\<in>set rs. \<not> p r)"
  by (induction rs arbitrary: k) auto

lemma scan_from_Some:
  "scan_from p rs k = Some i \<Longrightarrow>
     k \<le> i \<and> i - k < length rs \<and> p (rs ! (i - k)) \<and> (\<forall>j<i - k. \<not> p (rs ! j))"
proof (induction rs arbitrary: k)
  case Nil
  then show ?case by simp
next
  case (Cons r rs)
  show ?case
  proof (cases "p r")
    case True
    with Cons.prems show ?thesis by simp
  next
    case False
    with Cons.prems have "scan_from p rs (Suc k) = Some i" by simp
    from Cons.IH [OF this] have
      *: "Suc k \<le> i" "i - Suc k < length rs" "p (rs ! (i - Suc k))"
         "\<forall>j<i - Suc k. \<not> p (rs ! j)" by auto
    then have "i - k = Suc (i - Suc k)" by simp
    with * False show ?thesis by (auto simp: nth_Cons split: nat.splits)
  qed
qed

definition scan_offset :: "('r \<Rightarrow> bool) \<Rightarrow> 'r list \<Rightarrow> nat option" where
  "scan_offset p rs = scan_from p rs 0"

lemma scan_offset_None: "scan_offset p rs = None \<longleftrightarrow> (\<forall>r\<in>set rs. \<not> p r)"
  by (simp add: scan_offset_def scan_from_None)

lemma scan_offset_SomeD:
  assumes "scan_offset p rs = Some i"
  shows "i < length rs" and "p (rs ! i)" and "\<And>j. j < i \<Longrightarrow> \<not> p (rs ! j)"
  using scan_from_Some [of p rs 0 i] assms by (auto simp: scan_offset_def)

lemma scan_offset_ex: "r \<in> set rs \<Longrightarrow> p r \<Longrightarrow> \<exists>i. scan_offset p rs = Some i"
  using scan_offset_None [of p rs] by (cases "scan_offset p rs") auto

lemma scan_offset_eqI:
  assumes "i < length rs" "p (rs ! i)" "\<And>j. j < i \<Longrightarrow> \<not> p (rs ! j)"
  shows "scan_offset p rs = Some i"
proof -
  from assms(1,2) obtain k where k: "scan_offset p rs = Some k"
    using scan_offset_ex nth_mem by metis
  then have "\<not> i < k" "\<not> k < i"
    using scan_offset_SomeD [OF k] assms by auto
  with k show ?thesis by simp
qed

text \<open>Under a key that no two records share, the scan finds the record itself.\<close>

lemma scan_offset_distinct:
  assumes "distinct (map key rs)" "i < length rs" "key (rs ! i) = k"
  shows "scan_offset (\<lambda>r. key r = k) rs = Some i"
proof (rule scan_offset_eqI)
  fix j assume "j < i"
  with assms(2) have "j < length rs" by simp
  with \<open>j < i\<close> assms show "key (rs ! j) \<noteq> k"
    using nth_eq_iff_index_eq [OF assms(1), of j i] by simp
qed (use assms in auto)

section \<open>Writing one record\<close>

text \<open>
  \<open>lseek(fd, off, SEEK_SET); write(fd, &r, size)\<close>: the record at the offset is
  replaced, and a write at the end of the file extends it.
\<close>

definition put_rec :: "nat \<Rightarrow> 'r \<Rightarrow> 'r list \<Rightarrow> 'r list" where
  "put_rec i r rs = (if i < length rs then rs[i := r] else rs @ [r])"

lemma put_rec_in [simp]: "i < length rs \<Longrightarrow> put_rec i r rs = rs[i := r]"
  by (simp add: put_rec_def)

lemma put_rec_end [simp]: "put_rec (length rs) r rs = rs @ [r]"
  by (simp add: put_rec_def)

lemma map_update_same [simp]:
  "i < length rs \<Longrightarrow> f r = f (rs ! i) \<Longrightarrow> map f (rs[i := r]) = map f rs"
  by (simp add: map_update list_update_same_conv)

lemma set_update_cases:
  "x \<in> set (rs[i := r]) \<Longrightarrow> x = r \<or> x \<in> set rs"
  by (meson set_update_subset_insert insertE subsetD)

lemma mset_filter_map_update:
  assumes "i < length rs"
  shows "mset (map f (filter P (rs[i := r]))) + (if P (rs ! i) then {#f (rs ! i)#} else {#})
       = mset (map f (filter P rs)) + (if P r then {#f r#} else {#})"
proof -
  have "mset (map f (filter P rs))
      = mset (map f (filter P (take i rs @ rs ! i # drop (Suc i) rs)))"
    by (subst id_take_nth_drop [OF assms]) (rule refl)
  then show ?thesis
    using assms by (simp add: upd_conv_take_nth_drop)
qed

text \<open>Replacing one term of a sum over a list of integers.\<close>

lemma sum_list_map_update:
  fixes f :: "'r \<Rightarrow> int"
  assumes "i < length rs"
  shows "sum_list (map f (rs[i := r])) = sum_list (map f rs) - f (rs ! i) + f r"
proof -
  have "sum_list (map f rs) = sum_list (map f (take i rs @ rs ! i # drop (Suc i) rs))"
    by (subst id_take_nth_drop [OF assms]) (rule refl)
  then show ?thesis
    using assms by (simp add: upd_conv_take_nth_drop)
qed

lemma word_of_nat_less_inj:
  assumes "(of_nat m :: 'a::len word) = of_nat n" "m < 2 ^ LENGTH('a)" "n < 2 ^ LENGTH('a)"
  shows "m = n"
  using assms by (metis mod_less unat_of_nat)

end
