(* ===== verification/CDouble.thy ===== *)
theory CDouble
  imports Prelude "HOL-Library.Log_Nat"
begin

text \<open>
  The C type \<^verbatim>\<open>double\<close> as IEEE 754 binary64 with round to nearest, ties to even:
  every finite double is an integer multiple of \<open>2 ^ -1074\<close>, so \<open>Fin n\<close> stands for
  the number \<open>n * 2 ^ -1074\<close> and sums are exact integers that are then rounded to 53
  significant bits. The payload and the sign of a NaN and the sign of zero are not
  represented: no comparison of the program can see them.
\<close>

datatype double = NaN | PInf | NInf | Fin int

section \<open>Rounding\<close>

text \<open>The unit 1.0 and the magnitude \<open>2 ^ 1024\<close> at which binary64 overflows, both in
  multiples of \<open>2 ^ -1074\<close>.\<close>

definition dunit :: int where
  "dunit = 2 ^ 1074"

definition doverflow :: int where
  "doverflow = 2 ^ 2098"

lemma dunit_pos [simp]: "0 < dunit"
  unfolding dunit_def by (rule zero_less_power) simp

lemma doverflow_pos [simp]: "0 < doverflow"
  unfolding doverflow_def by (rule zero_less_power) simp

definition round_half_even :: "int \<Rightarrow> int \<Rightarrow> int" where
  \<comment> \<open>the integer nearest to \<open>a / b\<close>, for \<open>0 \<le> a\<close> and \<open>0 < b\<close>\<close>
  "round_half_even a b =
     (let q = a div b; r = a mod b
      in if 2 * r < b \<or> (2 * r = b \<and> even q) then q else q + 1)"

definition round_mag :: "int \<Rightarrow> int \<Rightarrow> int" where
  \<comment> \<open>\<open>a / b\<close> rounded to 53 significant bits, or to an integer below \<open>2 ^ 53\<close>\<close>
  "round_mag a b =
     (let e = nat (bitlen (a div b) - 53)
      in round_half_even a (b * 2 ^ e) * 2 ^ e)"

definition dbl_of_ratio :: "int \<Rightarrow> int \<Rightarrow> double" where
  \<comment> \<open>the double nearest to \<open>(a / b) * 2 ^ -1074\<close>\<close>
  "dbl_of_ratio a b =
     (let m = round_mag \<bar>a\<bar> b
      in if doverflow \<le> m then (if a < 0 then NInf else PInf) else Fin (sgn a * m))"

section \<open>Arithmetic and comparison\<close>

fun dadd :: "double \<Rightarrow> double \<Rightarrow> double" where
  "dadd (Fin m) (Fin n) = dbl_of_ratio (m + n) 1"
| "dadd NaN y = NaN"
| "dadd x NaN = NaN"
| "dadd PInf NInf = NaN"
| "dadd NInf PInf = NaN"
| "dadd PInf y = PInf"
| "dadd NInf y = NInf"
| "dadd x PInf = PInf"
| "dadd x NInf = NInf"

fun dneg :: "double \<Rightarrow> double" where
  "dneg NaN = NaN"
| "dneg PInf = NInf"
| "dneg NInf = PInf"
| "dneg (Fin n) = Fin (- n)"

definition dsub :: "double \<Rightarrow> double \<Rightarrow> double" where
  "dsub x y = dadd x (dneg y)"

fun dlt :: "double \<Rightarrow> double \<Rightarrow> bool" where
  "dlt NaN y = False"
| "dlt x NaN = False"
| "dlt (Fin m) (Fin n) = (m < n)"
| "dlt NInf y = (y \<noteq> NInf)"
| "dlt x PInf = (x \<noteq> PInf)"
| "dlt x y = False"

definition dle :: "double \<Rightarrow> double \<Rightarrow> bool" where
  "dle x y = (dlt x y \<or> (x = y \<and> x \<noteq> NaN))"

abbreviation dzero :: double where
  "dzero \<equiv> Fin 0"

text \<open>Whole amounts of money: the double that is the integer \<open>k\<close>.\<close>

definition dbl :: "int \<Rightarrow> double" where
  "dbl k = Fin (k * dunit)"

section \<open>When rounding is exact\<close>

lemma round_half_even_exact:
  "0 < b \<Longrightarrow> round_half_even (k * b) b = k"
  by (simp add: round_half_even_def Let_def)

lemma round_mag_exact:
  assumes "0 \<le> k" "k \<le> 2 ^ 53"
  shows "round_mag (k * 2 ^ j) 1 = k * 2 ^ j"
proof (cases "k = 0")
  case True
  then show ?thesis by (simp add: round_mag_def round_half_even_def Let_def)
next
  case False
  let ?a = "k * 2 ^ j"
  define e where "e = nat (bitlen ?a - 53)"
  have pos: "0 < k" using False assms by simp
  have "\<exists>k'. ?a = k' * 2 ^ e"
  proof (cases "k = 2 ^ 53")
    case True
    then have a: "?a = 2 ^ (53 + j)" by (simp add: power_add)
    have "bitlen ((1::int) * 2 ^ (53 + j)) = bitlen 1 + int (53 + j)"
      by (rule bitlen_pow2) simp
    moreover have "bitlen (1::int) = 1"
      by (simp add: bitlen_def floorlog_def)
    ultimately have "e = Suc j" by (simp add: e_def a)
    then have "?a = 2 ^ 52 * 2 ^ e" using True by simp
    then show ?thesis by blast
  next
    case False
    with assms have "k < 2 ^ 53" by simp
    then have "bitlen k \<le> 53" using pos by (subst bitlen_le_iff_power) auto
    moreover have "bitlen ?a = bitlen k + int j"
      using pos by (rule bitlen_pow2)
    ultimately have "e \<le> j" by (simp add: e_def)
    then have "?a = (k * 2 ^ (j - e)) * 2 ^ e"
      by (simp add: power_add [symmetric])
    then show ?thesis by blast
  qed
  then obtain k' where k': "?a = k' * 2 ^ e" by blast
  have "round_mag ?a 1 = round_half_even ?a (2 ^ e) * 2 ^ e"
    by (simp add: round_mag_def e_def Let_def)
  also have "\<dots> = k' * 2 ^ e"
    unfolding k' by (subst round_half_even_exact) auto
  finally show ?thesis using k' by simp
qed

lemma dbl_of_ratio_exact:
  assumes "\<bar>k\<bar> \<le> 2 ^ 53"
  shows "dbl_of_ratio (k * dunit) 1 = dbl k"
proof -
  have m: "round_mag \<bar>k * dunit\<bar> 1 = \<bar>k\<bar> * dunit"
    using round_mag_exact [of "\<bar>k\<bar>" 1074] assms by (simp add: abs_mult dunit_def)
  have "\<bar>k\<bar> * dunit \<le> 2 ^ 53 * dunit"
    using assms by (rule mult_right_mono) (simp add: less_imp_le)
  also have "\<dots> = 2 ^ 1127" by (simp add: power_add [symmetric] dunit_def)
  also have "\<dots> < doverflow"
    unfolding doverflow_def by (rule power_strict_increasing) auto
  finally have "\<not> doverflow \<le> \<bar>k\<bar> * dunit" by simp
  moreover have "sgn (k * dunit) * (\<bar>k\<bar> * dunit) = k * dunit"
    by (simp add: sgn_mult sgn_mult_abs mult.assoc [symmetric])
  ultimately show ?thesis
    by (simp only: dbl_of_ratio_def dbl_def Let_def m if_False)
qed

lemma dadd_dbl: "\<bar>a + b\<bar> \<le> 2 ^ 53 \<Longrightarrow> dadd (dbl a) (dbl b) = dbl (a + b)"
  using dbl_of_ratio_exact [of "a + b"] by (simp add: dbl_def distrib_right)

lemma dneg_dbl: "dneg (dbl a) = dbl (- a)"
  by (simp add: dbl_def)

lemma dsub_dbl: "\<bar>a - b\<bar> \<le> 2 ^ 53 \<Longrightarrow> dsub (dbl a) (dbl b) = dbl (a - b)"
  using dadd_dbl [of a "- b"] by (simp add: dsub_def dneg_dbl)

lemma dlt_dbl: "dlt (dbl a) (dbl b) \<longleftrightarrow> a < b"
  by (simp add: dbl_def)

lemma dbl_inject: "dbl a = dbl b \<longleftrightarrow> a = b"
  using dunit_pos by (auto simp: dbl_def simp del: dunit_pos)

lemma dzero_dbl: "dzero = dbl 0"
  by (simp add: dbl_def)

lemma dle_dbl: "dle (dbl a) (dbl b) \<longleftrightarrow> a \<le> b"
  by (auto simp: dle_def dlt_dbl dbl_inject) (simp_all add: dbl_def)

lemmas dbl_arith = dadd_dbl dsub_dbl dlt_dbl dle_dbl dbl_inject

section \<open>Signs\<close>

text \<open>A balance the bank can owe: not negative, not a NaN.\<close>

fun dnonneg :: "double \<Rightarrow> bool" where
  "dnonneg (Fin n) = (0 \<le> n)"
| "dnonneg PInf = True"
| "dnonneg _ = False"

fun dfinite :: "double \<Rightarrow> bool" where
  "dfinite (Fin n) = True"
| "dfinite _ = False"

lemma round_half_even_nonneg: "0 \<le> a \<Longrightarrow> 0 < b \<Longrightarrow> 0 \<le> round_half_even a b"
  by (simp add: round_half_even_def Let_def pos_imp_zdiv_nonneg_iff)

lemma round_mag_nonneg: "0 \<le> a \<Longrightarrow> 0 < b \<Longrightarrow> 0 \<le> round_mag a b"
  by (simp add: round_mag_def Let_def round_half_even_nonneg)

lemma dnonneg_of_ratio:
  assumes "0 \<le> a" shows "dnonneg (dbl_of_ratio a 1)"
  using assms round_mag_nonneg [of a 1]
  by (auto simp add: dbl_of_ratio_def Let_def sgn_if)

lemma dnonneg_dadd: "dnonneg x \<Longrightarrow> dnonneg y \<Longrightarrow> dnonneg (dadd x y)"
  by (cases "(x, y)" rule: dadd.cases) (auto intro: dnonneg_of_ratio)

lemma dnonneg_dsub:
  assumes "dnonneg x" "dfinite y" "\<not> dlt x y"
  shows "dnonneg (dsub x y)"
  using assms by (cases x; cases y) (auto simp: dsub_def intro: dnonneg_of_ratio)

lemma dlt_zeroD: "dlt dzero x \<Longrightarrow> dnonneg x"
  by (cases x) auto

lemma not_dle_zero: "\<not> dle x dzero \<Longrightarrow> x = NaN \<or> x = PInf \<or> (\<exists>n>0. x = Fin n)"
  by (cases x) (auto simp: dle_def)

text \<open>A NaN is never below anything: every guard of the form \<open>x < y\<close> lets it pass.\<close>

lemma dlt_NaN [simp]: "\<not> dlt NaN y" "\<not> dlt x NaN"
  by (cases x; simp)+

lemma dle_NaN [simp]: "\<not> dle NaN y" "\<not> dle x NaN"
  by (auto simp: dle_def)

lemma dadd_NaN [simp]: "dadd NaN y = NaN" "dadd x NaN = NaN"
  by (cases x; simp)+

lemma dsub_NaN [simp]: "dsub NaN y = NaN" "dsub x NaN = NaN"
  by (simp_all add: dsub_def)

end
