(* ===== verification/CString.thy ===== *)
theory CString
  imports CDouble
begin

text \<open>
  C strings: a character array is the list of its bytes, a C string the bytes before the
  first NUL. The routines of \<^verbatim>\<open>string.h\<close> and the conversions of \<^verbatim>\<open>printf\<close> the
  program uses.
\<close>

type_synonym carray = "char list"

abbreviation NUL :: char where
  "NUL \<equiv> CHR 0x00"

definition cstr :: "carray \<Rightarrow> string" where
  "cstr a = takeWhile (\<lambda>c. c \<noteq> NUL) a"

definition init_array :: "nat \<Rightarrow> string \<Rightarrow> carray" where
  \<comment> \<open>\<open>char a[n] = "s"\<close>, and a zeroed array for the empty string\<close>
  "init_array n s = take n (s @ replicate n NUL)"

definition strncpy :: "carray \<Rightarrow> string \<Rightarrow> nat \<Rightarrow> carray" where
  \<comment> \<open>\<open>strncpy(dst, src, n)\<close>: \<open>n\<close> bytes are written, padded with NUL; the rest stays\<close>
  "strncpy dst src n = take n (src @ replicate n NUL) @ drop n dst"

definition snprintf :: "nat \<Rightarrow> string \<Rightarrow> string" where
  \<comment> \<open>the string left in a buffer of \<open>sz\<close> bytes\<close>
  "snprintf sz s = take (sz - 1) s"

definition strncat :: "string \<Rightarrow> string \<Rightarrow> nat \<Rightarrow> string" where
  "strncat dst src n = dst @ take n src"

definition terminated :: "nat \<Rightarrow> carray \<Rightarrow> bool" where
  \<comment> \<open>an array of \<open>n\<close> bytes that ends in NUL, so that every string in it fits\<close>
  "terminated n a \<longleftrightarrow> length a = n \<and> drop (n - 1) a = [NUL]"

definition clean :: "string \<Rightarrow> bool" where
  \<comment> \<open>a C string: no NUL inside\<close>
  "clean s \<longleftrightarrow> NUL \<notin> set s"

lemma clean_cstr [simp]: "clean (cstr a)"
  by (auto simp: clean_def cstr_def dest: set_takeWhileD)

lemma clean_append [simp]: "clean (s @ t) \<longleftrightarrow> clean s \<and> clean t"
  by (auto simp: clean_def)

lemma clean_Nil [simp]: "clean []"
  by (simp add: clean_def)

lemma clean_Cons [simp]: "clean (c # s) \<longleftrightarrow> c \<noteq> NUL \<and> clean s"
  by (auto simp: clean_def)

lemma clean_take [simp]: "clean s \<Longrightarrow> clean (take n s)"
  by (auto simp: clean_def dest: in_set_takeD)

lemma cstr_replicate [simp]: "cstr (replicate n NUL) = []"
  by (cases n) (simp_all add: cstr_def)

lemma cstr_append_NUL: "clean s \<Longrightarrow> cstr (s @ NUL # t) = s"
  unfolding cstr_def clean_def by (subst takeWhile_append2) auto

lemma cstr_clean: "clean s \<Longrightarrow> cstr s = s"
  by (auto simp: cstr_def clean_def takeWhile_eq_all_conv)

lemma cstr_init_array: "clean s \<Longrightarrow> length s \<le> n \<Longrightarrow> cstr (init_array n s) = s"
  by (cases "n - length s") (simp_all add: init_array_def cstr_clean cstr_append_NUL)

lemma length_init_array [simp]: "length (init_array n s) = n"
  by (simp add: init_array_def)

lemma init_array_eq: "length s \<le> n \<Longrightarrow> init_array n s = s @ replicate (n - length s) NUL"
  by (simp add: init_array_def)

lemma terminated_init_array:
  assumes "length s < n" shows "terminated n (init_array n s)"
proof -
  have "n - length s - (n - 1 - length s) = 1" using assms by simp
  with assms show ?thesis
    by (simp add: terminated_def init_array_eq)
qed

lemma terminated_length: "terminated n a \<Longrightarrow> length a = n"
  by (simp add: terminated_def)

lemma terminated_pos: "terminated n a \<Longrightarrow> 0 < n"
  by (cases n) (auto simp: terminated_def)

lemma terminated_strncpy:
  assumes "terminated n dst"
  shows "terminated n (strncpy dst src (n - 1))"
proof -
  let ?pre = "take (n - 1) (src @ replicate (n - 1) NUL)"
  have len: "length ?pre = n - 1" by simp
  have "strncpy dst src (n - 1) = ?pre @ [NUL]"
    using assms by (simp add: strncpy_def terminated_def)
  then show ?thesis
    using len terminated_pos [OF assms] by (simp add: terminated_def del: take_append)
qed

lemma terminated_strncpy_clear:
  \<comment> \<open>copying at most \<open>n - 2\<close> bytes leaves a NUL before the last byte of any array\<close>
  "length dst = n \<Longrightarrow> drop (n - 1) dst = [NUL] \<Longrightarrow> terminated n (strncpy dst src (n - 1))"
  by (rule terminated_strncpy) (simp add: terminated_def)

lemma cstr_strncpy:
  assumes "terminated n dst" "clean s"
  shows "cstr (strncpy dst s (n - 1)) = take (n - 1) s"
proof -
  have "strncpy dst s (n - 1) = take (n - 1) s @ replicate (n - 1 - length s) NUL @ [NUL]"
    using assms by (simp add: strncpy_def terminated_def)
  also have "\<dots> = take (n - 1) s @ NUL # replicate (n - 1 - length s) NUL"
    by (simp add: replicate_append_same)
  finally show ?thesis
    using assms by (simp add: cstr_append_NUL)
qed

lemma cstr_strncpy_short:
  \<comment> \<open>whatever the destination held: a string shorter than \<open>n\<close> is copied with its NUL\<close>
  assumes "length s < n" "clean s"
  shows "cstr (strncpy dst s n) = s"
proof -
  obtain k where "n - length s = Suc k"
    using assms(1) by (metis Suc_diff_Suc)
  with assms show ?thesis by (simp add: strncpy_def cstr_append_NUL)
qed

lemma cstr_length_less: "terminated n a \<Longrightarrow> length (cstr a) < n"
proof -
  assume t: "terminated n a"
  have "a = take (n - 1) a @ [NUL]"
    using t append_take_drop_id [of "n - 1" a] by (simp add: terminated_def)
  then have "cstr a = cstr (take (n - 1) a @ [NUL])" by simp
  also have "length \<dots> \<le> length (take (n - 1) a)"
    by (cases "clean (take (n - 1) a)")
       (auto simp: cstr_def takeWhile_append clean_def intro: le_trans [OF length_takeWhile_le])
  also have "\<dots> < n" using terminated_pos [OF t] by simp
  finally show ?thesis .
qed

lemma length_snprintf [simp]: "length (snprintf sz s) \<le> sz - 1"
  by (simp add: snprintf_def)

lemma snprintf_fits: "length s < sz \<Longrightarrow> snprintf sz s = s"
  by (simp add: snprintf_def)

lemma length_strncat:
  "length dst < sz \<Longrightarrow> length (strncat dst src (sz - length dst - 1)) < sz"
  by (simp add: strncat_def)

section \<open>Formatted output\<close>

fun digits_of :: "nat \<Rightarrow> string" where
  "digits_of n = (if n < 10 then [char_of (48 + n)]
                  else digits_of (n div 10) @ [char_of (48 + n mod 10)])"

declare digits_of.simps [simp del]

definition fmt_u :: "'a::len word \<Rightarrow> string" where
  \<comment> \<open>\<open>%u\<close> and \<open>%llu\<close>\<close>
  "fmt_u w = digits_of (unat w)"

definition fmt_d :: "int \<Rightarrow> string" where
  \<comment> \<open>\<open>%d\<close>\<close>
  "fmt_d i = (if i < 0 then ''-'' @ digits_of (nat (- i)) else digits_of (nat i))"

definition left_justify :: "nat \<Rightarrow> string \<Rightarrow> string" where
  \<comment> \<open>\<open>%-w\<close>: left-justified in a field of width \<open>w\<close>\<close>
  "left_justify w s = s @ replicate (w - length s) CHR '' ''"

definition zero_pad :: "nat \<Rightarrow> string \<Rightarrow> string" where
  "zero_pad w s = replicate (w - length s) CHR ''0'' @ s"

fun fmt_f :: "nat \<Rightarrow> double \<Rightarrow> string" where
  \<comment> \<open>\<open>%.pf\<close>: the exact value rounded half to even to \<open>p\<close> decimals\<close>
  "fmt_f p NaN = ''nan''"
| "fmt_f p PInf = ''inf''"
| "fmt_f p NInf = ''-inf''"
| "fmt_f p (Fin n) =
     (let m = nat (round_half_even (\<bar>n\<bar> * 10 ^ p) dunit)
      in (if n < 0 then ''-'' else []) @ digits_of (m div 10 ^ p) @ ''.'' @
         zero_pad p (digits_of (m mod 10 ^ p)))"

lemma digits_of_nonempty [simp]: "digits_of n \<noteq> []"
  by (subst digits_of.simps) simp

lemma of_char_digit: "n < 10 \<Longrightarrow> of_char (char_of (48 + n) :: char) = 48 + n" for n :: nat
  by simp

lemma char_of_digit_clean: "n < 10 \<Longrightarrow> (char_of (48 + n) :: char) \<noteq> NUL" for n :: nat
proof
  assume n: "n < 10" and eq: "(char_of (48 + n) :: char) = NUL"
  from n have "48 + n = of_char (char_of (48 + n) :: char)" by (simp only: of_char_digit)
  also have "\<dots> = 0" by (simp only: eq of_char_Char) simp
  finally show False by simp
qed

lemma clean_digits_of [simp]: "clean (digits_of n)"
proof (induction n rule: digits_of.induct)
  case (1 n)
  show ?case
  proof (cases "n < 10")
    case True
    then show ?thesis
      by (subst digits_of.simps) (simp add: char_of_digit_clean)
  next
    case False
    with 1 show ?thesis
      by (subst digits_of.simps) (simp add: char_of_digit_clean)
  qed
qed

lemma length_digits_of: "n < 10 ^ Suc k \<Longrightarrow> length (digits_of n) \<le> Suc k"
proof (induction k arbitrary: n)
  case 0
  then show ?case by (subst digits_of.simps) simp
next
  case (Suc k)
  show ?case
  proof (cases "n < 10")
    case True
    then show ?thesis by (subst digits_of.simps) simp
  next
    case False
    have "n div 10 < 10 ^ Suc k" using Suc.prems by (simp add: less_mult_imp_div_less)
    from Suc.IH [OF this] False show ?thesis by (subst digits_of.simps) simp
  qed
qed

lemma length_fmt_u: "length (fmt_u w) \<le> 10" for w :: "32 word"
proof -
  have "unat w < 2 ^ 32" using unsigned_less [of w] by simp
  then have "unat w < 10 ^ Suc 9" by simp
  from length_digits_of [OF this] show ?thesis by (simp add: fmt_u_def)
qed

end
