(* ===== verification/ServerTypes.thy ===== *)
theory ServerTypes
  imports CString
begin

text \<open>
  \<^verbatim>\<open>include/server.h\<close>: the sizes, the enumerations and the records of the five
  database files, the database itself, and the environment the program runs in.
  Character arrays keep their bytes, \<^verbatim>\<open>uint32_t\<close>, \<^verbatim>\<open>uint64_t\<close> and \<^verbatim>\<open>uint8_t\<close>
  their width, \<^verbatim>\<open>double\<close> its rounding; \<^verbatim>\<open>time_t\<close> is an integer.
\<close>

section \<open>Sizes\<close>

definition MAX_CLIENTS :: nat where "MAX_CLIENTS = 100"
definition MAX_MSG_LEN :: nat where "MAX_MSG_LEN = 1024"
definition MAX_USERNAME_LEN :: nat where "MAX_USERNAME_LEN = 64"
definition MAX_PASSWORD_LEN :: nat where "MAX_PASSWORD_LEN = 128"
definition MAX_ADDR_LEN :: nat where "MAX_ADDR_LEN = 256"
definition MAX_ROLE_STR :: nat where "MAX_ROLE_STR = 32"
definition MAX_FNAME_LEN :: nat where "MAX_FNAME_LEN = 64"
definition MAX_LNAME_LEN :: nat where "MAX_LNAME_LEN = 64"
definition MAX_EMAIL_LEN :: nat where "MAX_EMAIL_LEN = 64"
definition MAX_PHONE_LEN :: nat where "MAX_PHONE_LEN = 16"

lemmas size_defs =
  MAX_CLIENTS_def MAX_MSG_LEN_def MAX_USERNAME_LEN_def MAX_PASSWORD_LEN_def
  MAX_ADDR_LEN_def MAX_ROLE_STR_def MAX_FNAME_LEN_def MAX_LNAME_LEN_def
  MAX_EMAIL_LEN_def MAX_PHONE_LEN_def

section \<open>Enumerations\<close>

datatype role_t = ROLE_CUSTOMER | ROLE_EMPLOYEE | ROLE_MANAGER | ROLE_ADMIN
datatype status_t = STATUS_INACTIVE | STATUS_ACTIVE
datatype loan_status_t = LOAN_PENDING | LOAN_ASSIGNED | LOAN_APPROVED | LOAN_REJECTED

section \<open>Records of the database files\<close>

type_synonym uid = "32 word"

record user_rec =
  u_user_id :: uid
  username :: carray
  password_hash :: carray
  u_role :: role_t
  first_name :: carray
  last_name :: carray
  age :: "8 word"
  address :: carray
  email :: carray
  phone :: carray
  u_active :: status_t
  created_at :: int

record account_rec =
  account_id :: uid
  a_user_id :: uid
  balance :: double
  a_active :: status_t

record txn_rec =
  txn_id :: "64 word"
  from_account :: uid
  to_account :: uid
  t_amount :: double
  timestamp :: int
  narration :: carray

record loan_rec =
  loan_id :: "64 word"
  l_user_id :: uid
  l_amount :: double
  l_status :: loan_status_t
  assigned_to :: uid
  applied_at :: int
  processed_at :: int
  remarks :: carray

record feedback_rec =
  fb_id :: "64 word"
  f_user_id :: uid
  message :: carray
  reviewed :: int
  action_taken :: carray
  submitted_at :: int

text \<open>\<open>memset(&user, 0, sizeof(user_rec_t))\<close> and \<open>user_rec_t user = {0}\<close>.\<close>

definition zero_user :: user_rec where
  "zero_user = \<lparr>
     u_user_id = 0,
     username = init_array MAX_USERNAME_LEN [],
     password_hash = init_array MAX_PASSWORD_LEN [],
     u_role = ROLE_CUSTOMER,
     first_name = init_array MAX_FNAME_LEN [],
     last_name = init_array MAX_LNAME_LEN [],
     age = 0,
     address = init_array MAX_ADDR_LEN [],
     email = init_array MAX_EMAIL_LEN [],
     phone = init_array MAX_PHONE_LEN [],
     u_active = STATUS_INACTIVE,
     created_at = 0\<rparr>"

definition zero_account :: account_rec where
  "zero_account = \<lparr>account_id = 0, a_user_id = 0, balance = dzero, a_active = STATUS_INACTIVE\<rparr>"

section \<open>The database and the machine state\<close>

text \<open>A file that does not exist is \<open>None\<close>: \<open>open\<close> without \<open>O_CREAT\<close> fails on it.\<close>

record store =
  users_db :: "user_rec list option"
  accounts_db :: "account_rec list option"
  txns_db :: "txn_rec list option"
  loans_db :: "loan_rec list option"
  feedback_db :: "feedback_rec list option"

definition empty_store :: store where
  "empty_store = \<lparr>users_db = None, accounts_db = None, txns_db = None, loans_db = None,
     feedback_db = None\<rparr>"

definition recs :: "'r list option \<Rightarrow> 'r list" where
  "recs f = (case f of None \<Rightarrow> [] | Some rs \<Rightarrow> rs)"

lemma recs_simps [simp]: "recs None = []" "recs (Some rs) = rs"
  by (simp_all add: recs_def)

abbreviation "users d \<equiv> recs (users_db d)"
abbreviation "accounts d \<equiv> recs (accounts_db d)"
abbreviation "txns d \<equiv> recs (txns_db d)"
abbreviation "loans d \<equiv> recs (loans_db d)"
abbreviation "feedbacks d \<equiv> recs (feedback_db d)"

text \<open>
  The state a request runs on: the files, the number of \<open>write\<close> calls made so far
  (the clock the environment is indexed by) and the response buffer \<open>resp_msg\<close>.
\<close>

record st =
  disk :: store
  tick :: nat
  resp_msg :: string

text \<open>
  The environment: what the operating system, the C library and the uninitialised stack
  decide. \<open>wr_ok n\<close> says whether write number \<open>n\<close> stores its record or fails leaving the
  file as it was, \<open>lock_ok n\<close> whether an \<open>fcntl\<close> record lock taken before write \<open>n\<close> is
  granted, \<open>creat_ok\<close> whether a missing file can be created. A file that exists is always opened
  and read, and no write stores a part of a record: the branches of the code for an \<^verbatim>\<open>open\<close>
  refused on an existing file are not followed. \<open>crypt_fn\<close> is
  \<^verbatim>\<open>crypt(3)\<close>, \<open>time_str\<close> is \<^verbatim>\<open>strftime\<close> of \<^verbatim>\<open>localtime\<close>. The \<open>stk_\<close> fields give the
  bytes a local variable of that name holds before it is assigned; a string read from an array
  without a NUL ends with the array.
\<close>

record env =
  now :: "nat \<Rightarrow> int"
  wr_ok :: "nat \<Rightarrow> bool"
  lock_ok :: "nat \<Rightarrow> bool"
  creat_ok :: bool
  crypt_fn :: "string \<Rightarrow> string \<Rightarrow> string option"
  time_str :: "int \<Rightarrow> string"
  stk_u32 :: "string \<Rightarrow> uid"
  stk_u64 :: "string \<Rightarrow> 64 word"
  stk_f64 :: "string \<Rightarrow> double"
  stk_arr :: "string \<Rightarrow> carray"
  stk_user :: user_rec
  stk_account :: account_rec

definition io_ok :: "env \<Rightarrow> bool" where
  \<comment> \<open>no creation, lock or write fails\<close>
  "io_ok e \<longleftrightarrow> (\<forall>t. wr_ok e t) \<and> (\<forall>t. lock_ok e t) \<and> creat_ok e"

lemma io_okD [simp]: "io_ok e \<Longrightarrow> wr_ok e t" "io_ok e \<Longrightarrow> lock_ok e t" "io_ok e \<Longrightarrow> creat_ok e"
  by (simp_all add: io_ok_def)

text \<open>\<open>snprintf(resp_msg, resp_sz, ...)\<close> with \<open>resp_sz = sizeof(resp.message)\<close>.\<close>

definition say :: "string \<Rightarrow> st \<Rightarrow> st" where
  "say m s = s\<lparr>resp_msg := snprintf MAX_MSG_LEN m\<rparr>"

lemma say_simps [simp]:
  "disk (say m s) = disk s" "tick (say m s) = tick s"
  "resp_msg (say m s) = snprintf MAX_MSG_LEN m"
  by (simp_all add: say_def)

text \<open>Integers the code converts: \<open>int\<close> arguments of 32 bits, \<open>user.age = age\<close>.\<close>

definition to_u8 :: "int \<Rightarrow> 8 word" where
  "to_u8 i = word_of_int i"

text \<open>The loan states are ordered as the enumeration numbers them: a loan moves up only.\<close>

instantiation loan_status_t :: linorder
begin

fun status_num :: "loan_status_t \<Rightarrow> nat" where
  "status_num LOAN_PENDING = 0"
| "status_num LOAN_ASSIGNED = 1"
| "status_num LOAN_APPROVED = 2"
| "status_num LOAN_REJECTED = 3"

definition less_eq_loan_status_t :: "loan_status_t \<Rightarrow> loan_status_t \<Rightarrow> bool" where
  "less_eq_loan_status_t a b = (status_num a \<le> status_num b)"

definition less_loan_status_t :: "loan_status_t \<Rightarrow> loan_status_t \<Rightarrow> bool" where
  "less_loan_status_t a b = (status_num a < status_num b)"

instance
proof
  fix x y z :: loan_status_t
  show "x < y \<longleftrightarrow> x \<le> y \<and> \<not> y \<le> x"
    by (auto simp: less_eq_loan_status_t_def less_loan_status_t_def)
  show "x \<le> x" by (simp add: less_eq_loan_status_t_def)
  show "x \<le> y \<Longrightarrow> y \<le> z \<Longrightarrow> x \<le> z" by (simp add: less_eq_loan_status_t_def)
  show "x \<le> y \<Longrightarrow> y \<le> x \<Longrightarrow> x = y"
    by (cases x; cases y) (simp_all add: less_eq_loan_status_t_def)
  show "x \<le> y \<or> y \<le> x" by (auto simp: less_eq_loan_status_t_def)
qed

end

end
