(* ===== verification/Utils.thy ===== *)
theory Utils
  imports ServerTypes
begin

text \<open>
  \<^verbatim>\<open>src/utils.c\<close>: persistence, the atomic read-modify-write handlers, passwords, login and
  the uniqueness check. The routines of the code come in one copy per file; here each
  copy is an instance of one parametrised definition that takes the accessor \<open>get\<close> and
  the updater \<open>upd\<close> of the file. Full-file locks do not show in the sequential
  semantics; a record lock that is refused is a branch (\<open>lock_ok\<close>).
\<close>

section \<open>Opening and writing a file\<close>

definition open_creat ::
  "env \<Rightarrow> (store \<Rightarrow> 'r list option) \<Rightarrow> (('r list option \<Rightarrow> 'r list option) \<Rightarrow> store \<Rightarrow> store)
   \<Rightarrow> st \<Rightarrow> bool \<times> st" where
  "open_creat e get upd s =
     (case get (disk s) of
        Some rs \<Rightarrow> (True, s)
      | None \<Rightarrow> if creat_ok e then (True, s\<lparr>disk := upd (\<lambda>_. Some []) (disk s)\<rparr>)
                else (False, s))"

definition pwrite ::
  "env \<Rightarrow> (('r list option \<Rightarrow> 'r list option) \<Rightarrow> store \<Rightarrow> store) \<Rightarrow> nat \<Rightarrow> 'r \<Rightarrow> st \<Rightarrow> bool \<times> st" where
  "pwrite e upd i r s =
     (if wr_ok e (tick s)
      then (True, s\<lparr>disk := upd (map_option (put_rec i r)) (disk s), tick := Suc (tick s)\<rparr>)
      else (False, s\<lparr>tick := Suc (tick s)\<rparr>))"

section \<open>Reading, updating, appending\<close>

definition read_rec :: "('r \<Rightarrow> bool) \<Rightarrow> 'r list option \<Rightarrow> 'r option" where
  "read_rec p f = (case f of None \<Rightarrow> None | Some rs \<Rightarrow> List.find p rs)"

definition find_offset :: "('r \<Rightarrow> bool) \<Rightarrow> 'r list option \<Rightarrow> nat option" where
  "find_offset p f = (case f of None \<Rightarrow> None | Some rs \<Rightarrow> scan_offset p rs)"

text \<open>A modifier reads and changes the record in memory, and may use the database.\<close>

type_synonym 'r modifier = "'r \<Rightarrow> st \<Rightarrow> bool \<times> 'r \<times> st"

definition atomic_update ::
  "env \<Rightarrow> (store \<Rightarrow> 'r list option) \<Rightarrow> (('r list option \<Rightarrow> 'r list option) \<Rightarrow> store \<Rightarrow> store)
   \<Rightarrow> nat option \<Rightarrow> 'r modifier \<Rightarrow> st \<Rightarrow> bool \<times> st" where
  "atomic_update e get upd off m s =
     (case off of
        None \<Rightarrow> (False, s)
      | Some i \<Rightarrow>
          (case get (disk s) of
             None \<Rightarrow> (False, s)
           | Some rs \<Rightarrow>
               if \<not> lock_ok e (tick s) then (False, s)
               else if \<not> i < length rs then (False, s)
               else (case m (rs ! i) s of
                       (ok, r, s1) \<Rightarrow> if ok then pwrite e upd i r s1 else (False, s1))))"

definition write_rec ::
  "env \<Rightarrow> (store \<Rightarrow> 'r list option) \<Rightarrow> (('r list option \<Rightarrow> 'r list option) \<Rightarrow> store \<Rightarrow> store)
   \<Rightarrow> ('r \<Rightarrow> bool) \<Rightarrow> 'r \<Rightarrow> st \<Rightarrow> bool \<times> st" where
  \<comment> \<open>the result of \<open>write\<close> is stored in \<open>success\<close>, which nothing reads: it returns 1\<close>
  "write_rec e get upd same r s =
     (case open_creat e get upd s of
        (opened, s1) \<Rightarrow>
          if \<not> opened then (False, s1)
          else (let rs = recs (get (disk s1));
                    pos = (case scan_offset same rs of Some i \<Rightarrow> i | None \<Rightarrow> length rs)
                in (True, snd (pwrite e upd pos r s1))))"

definition append_rec ::
  "env \<Rightarrow> (store \<Rightarrow> 'r list option) \<Rightarrow> (('r list option \<Rightarrow> 'r list option) \<Rightarrow> store \<Rightarrow> store)
   \<Rightarrow> (64 word \<Rightarrow> 'r \<Rightarrow> 'r) \<Rightarrow> 'r \<Rightarrow> st \<Rightarrow> bool \<times> 'r \<times> st" where
  \<comment> \<open>the record gets the number of records in the file plus one as its identifier\<close>
  "append_rec e get upd set_id r s =
     (case open_creat e get upd s of
        (opened, s1) \<Rightarrow>
          if \<not> opened then (False, r, s1)
          else (let n = length (recs (get (disk s1)));
                    r1 = set_id (of_nat (n + 1)) r
                in (True, r1, snd (pwrite e upd n r1 s1))))"

section \<open>The routines of each file\<close>

definition find_user_offset :: "uid \<Rightarrow> store \<Rightarrow> nat option" where
  "find_user_offset userId d = find_offset (\<lambda>u. u_user_id u = userId) (users_db d)"

definition atomic_update_user ::
  "env \<Rightarrow> uid \<Rightarrow> user_rec modifier \<Rightarrow> st \<Rightarrow> bool \<times> st" where
  "atomic_update_user e userId m s =
     atomic_update e users_db users_db_update (find_user_offset userId (disk s)) m s"

definition read_user :: "uid \<Rightarrow> st \<Rightarrow> user_rec option" where
  "read_user userId s = read_rec (\<lambda>u. u_user_id u = userId) (users_db (disk s))"

definition write_user :: "env \<Rightarrow> user_rec \<Rightarrow> st \<Rightarrow> bool \<times> st" where
  "write_user e user s =
     write_rec e users_db users_db_update (\<lambda>u. u_user_id u = u_user_id user) user s"

definition generate_new_userId :: "env \<Rightarrow> st \<Rightarrow> uid \<times> st" where
  "generate_new_userId e s =
     (case open_creat e users_db users_db_update s of
        (opened, s1) \<Rightarrow>
          if \<not> opened then (1001, s1)
          else (of_nat (1001 + length (users (disk s1))), s1))"

definition find_account_offset :: "uid \<Rightarrow> store \<Rightarrow> nat option" where
  "find_account_offset userId d = find_offset (\<lambda>a. a_user_id a = userId) (accounts_db d)"

definition atomic_update_account ::
  "env \<Rightarrow> uid \<Rightarrow> account_rec modifier \<Rightarrow> st \<Rightarrow> bool \<times> st" where
  "atomic_update_account e userId m s =
     atomic_update e accounts_db accounts_db_update (find_account_offset userId (disk s)) m s"

definition read_account :: "uid \<Rightarrow> st \<Rightarrow> account_rec option" where
  "read_account userId s = read_rec (\<lambda>a. a_user_id a = userId) (accounts_db (disk s))"

definition write_account :: "env \<Rightarrow> account_rec \<Rightarrow> st \<Rightarrow> bool \<times> st" where
  "write_account e acc s =
     write_rec e accounts_db accounts_db_update (\<lambda>a. a_user_id a = a_user_id acc) acc s"

definition append_transaction :: "env \<Rightarrow> txn_rec \<Rightarrow> st \<Rightarrow> bool \<times> txn_rec \<times> st" where
  "append_transaction e tx s =
     append_rec e txns_db txns_db_update (\<lambda>n t. t\<lparr>txn_id := n\<rparr>) tx s"

definition find_loan_offset :: "64 word \<Rightarrow> store \<Rightarrow> nat option" where
  "find_loan_offset loanId d = find_offset (\<lambda>l. loan_id l = loanId) (loans_db d)"

definition atomic_update_loan ::
  "env \<Rightarrow> 64 word \<Rightarrow> loan_rec modifier \<Rightarrow> st \<Rightarrow> bool \<times> st" where
  "atomic_update_loan e loanId m s =
     atomic_update e loans_db loans_db_update (find_loan_offset loanId (disk s)) m s"

definition read_loan :: "64 word \<Rightarrow> st \<Rightarrow> loan_rec option" where
  "read_loan loanId s = read_rec (\<lambda>l. loan_id l = loanId) (loans_db (disk s))"

definition write_loan :: "env \<Rightarrow> loan_rec \<Rightarrow> st \<Rightarrow> bool \<times> st" where
  "write_loan e loan s =
     write_rec e loans_db loans_db_update (\<lambda>l. loan_id l = loan_id loan) loan s"

definition append_loan :: "env \<Rightarrow> loan_rec \<Rightarrow> st \<Rightarrow> bool \<times> loan_rec \<times> st" where
  "append_loan e loan s =
     append_rec e loans_db loans_db_update (\<lambda>n l. l\<lparr>loan_id := n\<rparr>) loan s"

definition append_feedback :: "env \<Rightarrow> feedback_rec \<Rightarrow> st \<Rightarrow> bool \<times> feedback_rec \<times> st" where
  "append_feedback e fb s =
     append_rec e feedback_db feedback_db_update (\<lambda>n f. f\<lparr>fb_id := n\<rparr>) fb s"

definition write_feedback :: "env \<Rightarrow> feedback_rec \<Rightarrow> st \<Rightarrow> bool \<times> st" where
  "write_feedback e fb s =
     write_rec e feedback_db feedback_db_update (\<lambda>f. fb_id f = fb_id fb) fb s"

definition read_feedback :: "64 word \<Rightarrow> st \<Rightarrow> feedback_rec option" where
  "read_feedback fbId s = read_rec (\<lambda>f. fb_id f = fbId) (feedback_db (disk s))"

lemmas table_op_defs =
  find_user_offset_def atomic_update_user_def read_user_def write_user_def
  find_account_offset_def atomic_update_account_def read_account_def write_account_def
  append_transaction_def find_loan_offset_def atomic_update_loan_def read_loan_def
  write_loan_def append_loan_def append_feedback_def write_feedback_def read_feedback_def

section \<open>Uniqueness of user name, e-mail and phone\<close>

fun uniqueness_scan :: "string \<Rightarrow> string \<Rightarrow> string \<Rightarrow> uid \<Rightarrow> user_rec list \<Rightarrow> string option" where
  \<comment> \<open>the message of the first conflict\<close>
  "uniqueness_scan un em ph current_user_id [] = None"
| "uniqueness_scan un em ph current_user_id (u # us) =
     (if u_user_id u = current_user_id then uniqueness_scan un em ph current_user_id us
      else if cstr (username u) = un then
        Some (''Error: Username '' @ [CHR 0x27] @ un @ [CHR 0x27] @ '' already exists.'')
      else if cstr (email u) = em then
        Some (''Error: Email '' @ [CHR 0x27] @ em @ [CHR 0x27] @ '' already exists.'')
      else if cstr (phone u) = ph then
        Some (''Error: Phone '' @ [CHR 0x27] @ ph @ [CHR 0x27] @ '' already exists.'')
      else uniqueness_scan un em ph current_user_id us)"

definition check_uniqueness :: "string \<Rightarrow> string \<Rightarrow> string \<Rightarrow> uid \<Rightarrow> st \<Rightarrow> bool \<times> st" where
  "check_uniqueness un em ph current_user_id s =
     (case users_db (disk s) of
        None \<Rightarrow> (True, s)
      | Some us \<Rightarrow>
          (case uniqueness_scan un em ph current_user_id us of
             None \<Rightarrow> (True, s)
           | Some m \<Rightarrow> (False, say m s)))"

section \<open>Passwords and login\<close>

definition generate_password_hash :: "env \<Rightarrow> string \<Rightarrow> carray \<Rightarrow> carray" where
  "generate_password_hash e password hash_output =
     (case crypt_fn e password ''$6$IIITB$'' of
        Some hashed \<Rightarrow>
          (strncpy hash_output hashed (MAX_PASSWORD_LEN - 1))[MAX_PASSWORD_LEN - 1 := NUL]
      | None \<Rightarrow> strncpy hash_output ''HASH_FAILED'' (MAX_PASSWORD_LEN - 1))"

definition verify_password :: "env \<Rightarrow> string \<Rightarrow> string \<Rightarrow> bool" where
  "verify_password e password hash =
     (case crypt_fn e password hash of None \<Rightarrow> False | Some v \<Rightarrow> v = hash)"

text \<open>The outcome of \<open>login_user\<close>: return value 0, 2, or 1 with the three outputs.\<close>

datatype login_result =
    Login_failed
  | Login_inactive
  | Login_ok (login_id: uid) (login_role: string) (login_fname: string)

fun role_str :: "role_t \<Rightarrow> string" where
  "role_str ROLE_CUSTOMER = ''customer''"
| "role_str ROLE_EMPLOYEE = ''employee''"
| "role_str ROLE_MANAGER = ''manager''"
| "role_str ROLE_ADMIN = ''admin''"

definition login_user :: "env \<Rightarrow> string \<Rightarrow> string \<Rightarrow> st \<Rightarrow> login_result" where
  "login_user e un password s =
     (case users_db (disk s) of
        None \<Rightarrow> Login_failed
      | Some us \<Rightarrow>
          (case List.find (\<lambda>u. cstr (username u) = un) us of
             None \<Rightarrow> Login_failed
           | Some u \<Rightarrow>
               if \<not> verify_password e password (cstr (password_hash u)) then Login_failed
               else if u_active u = STATUS_INACTIVE \<or>
                       (case read_account (u_user_id u) s of
                          None \<Rightarrow> False | Some acc \<Rightarrow> a_active acc = STATUS_INACTIVE)
               then Login_inactive
               else Login_ok (u_user_id u) (role_str (u_role u))
                      (cstr (strncpy ((stk_arr e ''name'')[0 := NUL])
                               (cstr (first_name u)) (MAX_FNAME_LEN - 1)))))"

end
