(* ===== verification/Tables.thy ===== *)
theory Tables
  imports Utils
begin

text \<open>
  The contract of \<^verbatim>\<open>utils.c\<close>. \<open>db_file\<close> is what one file of the database offers (an
  accessor and an updater), \<open>keyed_service\<close> what the modules rely on: a lookup by
  identifier and an atomic update. \<open>keyed_file\<close> derives the second from the first, and
  the interpretations at the end discharge both for the files of the model.
\<close>

section \<open>Search and update of a list of records\<close>

lemma find_scan_offset: "List.find p rs = map_option (\<lambda>i. rs ! i) (scan_offset p rs)"
proof (cases "scan_offset p rs")
  case None
  then have "List.find p rs = None" by (simp add: scan_offset_None find_None_iff)
  with None show ?thesis by simp
next
  case (Some i)
  note i = scan_offset_SomeD [OF Some]
  then have "List.find p rs = Some (rs ! i)"
    unfolding find_Some_iff by blast
  with Some show ?thesis by simp
qed

lemma scan_offset_update:
  assumes "scan_offset p rs = Some i" "p r"
  shows "scan_offset p (rs[i := r]) = Some i"
proof (rule scan_offset_eqI)
  note i = scan_offset_SomeD [OF assms(1)]
  show "i < length (rs[i := r])" "p (rs[i := r] ! i)" using i assms by auto
  fix j assume "j < i"
  then show "\<not> p (rs[i := r] ! j)" using i(3) by simp
qed

lemma find_update_same:
  "scan_offset p rs = Some i \<Longrightarrow> p r \<Longrightarrow> List.find p (rs[i := r]) = Some r"
  using scan_offset_SomeD(1) [of p rs i]
  by (simp add: find_scan_offset scan_offset_update)

lemma find_update_other:
  "i < length rs \<Longrightarrow> \<not> p (rs ! i) \<Longrightarrow> \<not> p r \<Longrightarrow> List.find p (rs[i := r]) = List.find p rs"
proof (induction rs arbitrary: i)
  case (Cons a rs)
  then show ?case by (cases i) auto
qed simp

section \<open>One file\<close>

definition quiet :: "'r modifier \<Rightarrow> bool" where
  \<comment> \<open>a modifier that changes nothing but its record and the response\<close>
  "quiet m \<longleftrightarrow> (\<forall>r s. disk (snd (snd (m r s))) = disk s)"

definition keeps :: "('r \<Rightarrow> 'k) \<Rightarrow> 'r modifier \<Rightarrow> bool" where
  \<comment> \<open>a modifier that keeps a field of its record\<close>
  "keeps f m \<longleftrightarrow> (\<forall>r s. f (fst (snd (m r s))) = f r)"

lemma quietD: "quiet m \<Longrightarrow> m r s = (b, r', s') \<Longrightarrow> disk s' = disk s"
  unfolding quiet_def by (metis snd_conv)

lemma keepsD: "keeps f m \<Longrightarrow> m r s = (b, r', s') \<Longrightarrow> f r' = f r"
  unfolding keeps_def by (metis fst_conv snd_conv)

locale db_file =
  fixes get :: "store \<Rightarrow> 'r list option"
    and upd :: "('r list option \<Rightarrow> 'r list option) \<Rightarrow> store \<Rightarrow> store"
  assumes get_upd: "get (upd f d) = f (get d)"
    and upd_get: "get d = x \<Longrightarrow> upd f d = upd (\<lambda>_. f x) d"
    and upd_upd: "upd f (upd g d) = upd (\<lambda>x. f (g x)) d"
begin

lemma pwriteD:
  "pwrite e upd i r s = (ok, s') \<Longrightarrow>
     resp_msg s' = resp_msg s \<and> tick s' = Suc (tick s) \<and> ok = wr_ok e (tick s) \<and>
     disk s' = (if ok then upd (map_option (put_rec i r)) (disk s) else disk s)"
  by (auto simp: pwrite_def split: if_splits)

lemma open_creatD:
  assumes "open_creat e get upd s = (ok, s')"
  shows "resp_msg s' = resp_msg s \<and> tick s' = tick s \<and> recs (get (disk s')) = recs (get (disk s))
    \<and> (\<not> ok \<longrightarrow> s' = s \<and> \<not> creat_ok e)
    \<and> (ok \<longrightarrow> get (disk s') = Some (recs (get (disk s)))
              \<and> disk s' = upd (\<lambda>_. Some (recs (get (disk s)))) (disk s) \<or> s' = s \<and> get (disk s) \<noteq> None)"
  using assms by (auto simp: open_creat_def get_upd split: option.splits if_splits)

lemma atomic_update_cases:
  assumes "atomic_update e get upd off m s = (ok, s')"
  obtains (refused) "\<not> ok" "s' = s"
      "off = None \<or> get (disk s) = None \<or> \<not> lock_ok e (tick s) \<or>
       (\<exists>i rs. off = Some i \<and> get (disk s) = Some rs \<and> length rs \<le> i)"
  | (declined) i rs r s1 where "off = Some i" "get (disk s) = Some rs" "i < length rs"
      "m (rs ! i) s = (False, r, s1)" "\<not> ok" "s' = s1"
  | (failed) i rs r s1 where "off = Some i" "get (disk s) = Some rs" "i < length rs"
      "m (rs ! i) s = (True, r, s1)" "\<not> ok" "\<not> wr_ok e (tick s1)"
      "disk s' = disk s1" "resp_msg s' = resp_msg s1"
  | (written) i rs r s1 where "off = Some i" "get (disk s) = Some rs" "i < length rs"
      "m (rs ! i) s = (True, r, s1)" "ok" "wr_ok e (tick s1)"
      "disk s' = upd (map_option (put_rec i r)) (disk s1)" "resp_msg s' = resp_msg s1"
proof -
  consider "off = None" | i where "off = Some i" "get (disk s) = None"
    | i rs where "off = Some i" "get (disk s) = Some rs" by (cases off; cases "get (disk s)") auto
  then show thesis
  proof cases
    case 3
    obtain b r s1 where m: "m (rs ! i) s = (b, r, s1)" by (cases "m (rs ! i) s") auto
    show ?thesis
    proof (cases "lock_ok e (tick s) \<and> i < length rs")
      case True
      then have res: "(if b then pwrite e upd i r s1 else (False, s1)) = (ok, s')"
        using assms 3 m by (simp add: atomic_update_def)
      show ?thesis
      proof (cases b)
        case False
        with res 3 m True show ?thesis by (auto intro: declined)
      next
        case b: True
        with res have "pwrite e upd i r s1 = (ok, s')" by simp
        from pwriteD [OF this] b 3 m True show ?thesis
          by (cases ok) (auto intro: failed written)
      qed
    next
      case False
      then have "\<not> ok \<and> s' = s" using assms 3 by (auto simp: atomic_update_def split: if_splits)
      with False 3 show ?thesis by (intro refused) (auto simp: not_less)
    qed
  qed (use assms in \<open>auto simp: atomic_update_def intro: refused\<close>)
qed

text \<open>An update by a quiet modifier replaces one record or changes nothing.\<close>

lemma atomic_update_quiet:
  assumes "atomic_update e get upd off m s = (ok, s')" "quiet m"
  shows "(\<not> ok \<longrightarrow> disk s' = disk s) \<and>
    (ok \<longrightarrow> (\<exists>i rs r s1. off = Some i \<and> get (disk s) = Some rs \<and> i < length rs \<and>
       m (rs ! i) s = (True, r, s1) \<and> disk s' = upd (\<lambda>_. Some (rs[i := r])) (disk s)))"
  using assms(1)
proof (cases rule: atomic_update_cases)
  case (written i rs r s1)
  then have d: "disk s1 = disk s" using assms(2) by (auto dest: quietD)
  have "disk s' = upd (\<lambda>_. map_option (put_rec i r) (Some rs)) (disk s)"
    using written d upd_get [of "disk s" "Some rs" "map_option (put_rec i r)"] by simp
  with written show ?thesis by auto
qed (use assms(2) in \<open>auto dest: quietD\<close>)

text \<open>Without failures the update runs the modifier, and writes if it accepts.\<close>

lemma atomic_update_io_ok:
  assumes "io_ok e" "off = Some i" "get (disk s) = Some rs" "i < length rs"
    "m (rs ! i) s = (b, r, s1)"
  shows "\<exists>s'. atomic_update e get upd off m s = (b, s') \<and> resp_msg s' = resp_msg s1 \<and>
     disk s' = (if b then upd (map_option (put_rec i r)) (disk s1) else disk s1)"
  using assms by (cases b) (simp_all add: atomic_update_def pwrite_def)

lemma write_recD:
  assumes "write_rec e get upd same r s = (ok, s')"
  shows "resp_msg s' = resp_msg s \<and> (\<not> ok \<longrightarrow> s' = s \<and> \<not> creat_ok e) \<and>
    (ok \<longrightarrow>
      (wr_ok e (tick s) \<and>
        disk s' = upd (\<lambda>_. Some (put_rec (case scan_offset same (recs (get (disk s))) of
             Some i \<Rightarrow> i | None \<Rightarrow> length (recs (get (disk s)))) r (recs (get (disk s))))) (disk s))
      \<or> (\<not> wr_ok e (tick s) \<and> recs (get (disk s')) = recs (get (disk s)) \<and>
        (disk s' = disk s \<or> disk s' = upd (\<lambda>_. Some (recs (get (disk s)))) (disk s))))"
proof (cases "get (disk s)")
  case None
  then show ?thesis
    using assms
    by (auto simp: write_rec_def open_creat_def pwrite_def get_upd upd_upd Let_def
             split: if_splits option.splits)
next
  case (Some rs)
  let ?pos = "case scan_offset same rs of Some i \<Rightarrow> i | None \<Rightarrow> length rs"
  have "upd (map_option (put_rec ?pos r)) (disk s) = upd (\<lambda>_. Some (put_rec ?pos r rs)) (disk s)"
    using upd_get [OF Some, of "map_option (put_rec ?pos r)"] by simp
  with Some show ?thesis
    using assms
    by (cases "scan_offset same rs")
      (auto simp: write_rec_def open_creat_def pwrite_def get_upd Let_def split: if_splits)
qed

lemma append_recD:
  assumes "append_rec e get upd set_id r s = (ok, r', s')"
  defines "n \<equiv> length (recs (get (disk s)))"
  shows "resp_msg s' = resp_msg s \<and> (\<not> ok \<longrightarrow> s' = s \<and> r' = r \<and> \<not> creat_ok e) \<and>
    (ok \<longrightarrow> r' = set_id (of_nat (n + 1)) r \<and> tick s' = Suc (tick s) \<and>
      ((wr_ok e (tick s) \<and> disk s' = upd (\<lambda>_. Some (recs (get (disk s)) @ [r'])) (disk s))
      \<or> (\<not> wr_ok e (tick s) \<and> recs (get (disk s')) = recs (get (disk s)) \<and>
        (disk s' = disk s \<or> disk s' = upd (\<lambda>_. Some (recs (get (disk s)))) (disk s)))))"
proof (cases "get (disk s)")
  case None
  then show ?thesis
    using assms
    by (auto simp: append_rec_def open_creat_def pwrite_def get_upd upd_upd put_rec_def Let_def
             split: if_splits)
next
  case (Some rs)
  have "upd (map_option (put_rec n x)) (disk s) = upd (\<lambda>_. Some (rs @ [x])) (disk s)" for x
    using upd_get [OF Some, of "map_option (put_rec n x)"] Some by (simp add: n_def)
  with Some show ?thesis
    using assms
    by (auto simp: append_rec_def open_creat_def pwrite_def get_upd Let_def split: if_splits)
qed

end

section \<open>Lookup and update by identifier\<close>

locale keyed_service =
  fixes lookup :: "'k \<Rightarrow> st \<Rightarrow> 'r option"
    and update :: "'k \<Rightarrow> 'r modifier \<Rightarrow> st \<Rightarrow> bool \<times> st"
    and key :: "'r \<Rightarrow> 'k"
  assumes lookup_key: "lookup k s = Some r \<Longrightarrow> key r = k"
    and update_done: "\<lbrakk>update k m s = (True, s'); quiet m; keeps key m\<rbrakk> \<Longrightarrow>
      \<exists>r r' s1. lookup k s = Some r \<and> m r s = (True, r', s1) \<and> lookup k s' = Some r'"
    and update_fail: "\<lbrakk>update k m s = (False, s'); quiet m\<rbrakk> \<Longrightarrow> lookup k' s' = lookup k' s"
    and update_frame: "\<lbrakk>update k m s = (ok, s'); quiet m; keeps key m; k' \<noteq> k\<rbrakk> \<Longrightarrow>
      lookup k' s' = lookup k' s"
begin

text \<open>A declined modifier means a failed update; a missing record as well.\<close>

lemma update_missing: "\<lbrakk>update k m s = (ok, s'); quiet m; keeps key m; lookup k s = None\<rbrakk> \<Longrightarrow> \<not> ok"
  using update_done [of k m s s'] by (cases ok) auto

lemma update_declined:
  "\<lbrakk>update k m s = (ok, s'); quiet m; keeps key m; lookup k s = Some r; \<not> fst (m r s)\<rbrakk> \<Longrightarrow> \<not> ok"
  using update_done [of k m s s'] by (cases ok) auto

text \<open>Two updates of different records act independently: the second reads what was there
  before the first.\<close>

lemma two_updates:
  assumes "update k m s = (True, s1)" "update k' m' s1 = (True, s2)" "k \<noteq> k'"
    "quiet m" "keeps key m" "quiet m'" "keeps key m'"
  shows "\<exists>r r' t1 q q' t2. lookup k s = Some r \<and> m r s = (True, r', t1) \<and> lookup k s2 = Some r' \<and>
     lookup k' s = Some q \<and> m' q s1 = (True, q', t2) \<and> lookup k' s2 = Some q'"
  using update_done [OF assms(1,4,5)] update_done [OF assms(2,6,7)]
    update_frame [OF assms(2,6,7), of k] update_frame [OF assms(1,4,5), of k'] assms(3)
  by fastforce

lemma two_updates_frame:
  assumes "update k m s = (a, s1)" "update k' m' s1 = (b, s2)" "j \<noteq> k" "j \<noteq> k'"
    "quiet m" "keeps key m" "quiet m'" "keeps key m'"
  shows "lookup j s2 = lookup j s"
  using update_frame [OF assms(1,5,6), of j] update_frame [OF assms(2,7,8), of j] assms(3,4)
  by simp

end

locale keyed_file = db_file get upd
  for get :: "store \<Rightarrow> 'r list option"
    and upd :: "('r list option \<Rightarrow> 'r list option) \<Rightarrow> store \<Rightarrow> store" +
  fixes key :: "'r \<Rightarrow> 'k" and e :: env
begin

lemma lookup_update_same:
  assumes "get (disk s) = Some rs" "find_offset (\<lambda>r. key r = k) (Some rs) = Some i"
    "get (disk s') = Some (rs[i := r])" "key r = k"
  shows "read_rec (\<lambda>r. key r = k) (get (disk s)) = Some (rs ! i)"
    and "read_rec (\<lambda>r. key r = k) (get (disk s')) = Some r"
  using assms by (simp_all add: read_rec_def find_offset_def find_scan_offset scan_offset_update
                           scan_offset_SomeD(1))

text \<open>Without failures an update of an existing record does what its modifier decides.\<close>

lemma update_io_ok:
  assumes "io_ok e" "read_rec (\<lambda>r. key r = k) (get (disk s)) = Some r" "m r s = (b, r', s1)"
  shows "\<exists>s'. atomic_update e get upd (find_offset (\<lambda>r. key r = k) (get (disk s))) m s = (b, s')"
proof -
  from assms(2) obtain rs i where rs: "get (disk s) = Some rs" "scan_offset (\<lambda>r. key r = k) rs = Some i"
    "r = rs ! i" by (auto simp: read_rec_def find_scan_offset split: option.splits)
  then show ?thesis
    using atomic_update_io_ok [OF assms(1), of "Some i" i s rs m b r' s1] assms(3)
      scan_offset_SomeD(1) [OF rs(2)]
    by (auto simp: find_offset_def)
qed

end

sublocale keyed_file \<subseteq> svc: keyed_service
  "\<lambda>k s. read_rec (\<lambda>r. key r = k) (get (disk s))"
  "\<lambda>k m s. atomic_update e get upd (find_offset (\<lambda>r. key r = k) (get (disk s))) m s"
  key
proof (unfold_locales, goal_cases)
  case (1 k s r)
  then show ?case
    by (auto simp: read_rec_def find_Some_iff split: option.splits)
next
  case (2 k m s s')
  from atomic_update_quiet [OF 2(1,2)] obtain i rs r s1 where
    *: "find_offset (\<lambda>r. key r = k) (get (disk s)) = Some i" "get (disk s) = Some rs"
      "i < length rs" "m (rs ! i) s = (True, r, s1)"
      "disk s' = upd (\<lambda>_. Some (rs[i := r])) (disk s)" by auto
  then have "key (rs ! i) = k"
    by (auto simp: find_offset_def dest: scan_offset_SomeD)
  then have "key r = k" using 2(3) *(4) by (auto dest: keepsD)
  with * show ?case
    using lookup_update_same [of s rs k i s' r] by (auto simp: get_upd)
next
  case (3 k m s s' k')
  then show ?case using atomic_update_quiet [OF 3] by simp
next
  case (4 k m s ok s' k')
  show ?case
  proof (cases ok)
    case False
    then show ?thesis using atomic_update_quiet [OF 4(1,2)] by simp
  next
    case True
    with atomic_update_quiet [OF 4(1,2)] obtain i rs r s1 where
      *: "find_offset (\<lambda>r. key r = k) (get (disk s)) = Some i" "get (disk s) = Some rs"
        "i < length rs" "m (rs ! i) s = (True, r, s1)"
        "disk s' = upd (\<lambda>_. Some (rs[i := r])) (disk s)" by auto
    then have "key (rs ! i) = k"
      by (auto simp: find_offset_def dest: scan_offset_SomeD)
    moreover from this have "key r = k" using 4(3) *(4) by (auto dest: keepsD)
    ultimately show ?thesis
      using * 4(4) by (simp add: read_rec_def get_upd find_update_other)
  qed
qed

section \<open>The files of the model\<close>

interpretation users: keyed_file users_db users_db_update u_user_id e for e
  by unfold_locales simp_all

interpretation accts: keyed_file accounts_db accounts_db_update a_user_id e for e
  by unfold_locales simp_all

interpretation loans: keyed_file loans_db loans_db_update loan_id e for e
  by unfold_locales simp_all

interpretation txns: db_file txns_db txns_db_update
  by unfold_locales simp_all

interpretation fbs: keyed_file feedback_db feedback_db_update fb_id e for e
  by unfold_locales simp_all

text \<open>The contracts in the names of \<^verbatim>\<open>utils.c\<close>.\<close>

lemmas account_two_updates = accts.svc.two_updates
  [folded read_account_def find_account_offset_def, folded atomic_update_account_def]
lemmas account_two_updates_frame = accts.svc.two_updates_frame
  [folded read_account_def find_account_offset_def, folded atomic_update_account_def]
lemmas account_update_done = accts.svc.update_done
  [folded read_account_def find_account_offset_def, folded atomic_update_account_def]
lemmas account_update_frame = accts.svc.update_frame
  [folded read_account_def find_account_offset_def, folded atomic_update_account_def]
lemmas account_update_fail = accts.svc.update_fail
  [folded read_account_def find_account_offset_def, folded atomic_update_account_def]
lemmas account_update_missing = accts.svc.update_missing
  [folded read_account_def find_account_offset_def, folded atomic_update_account_def]
lemmas account_update_declined = accts.svc.update_declined
  [folded read_account_def find_account_offset_def, folded atomic_update_account_def]
lemmas account_update_io_ok = accts.update_io_ok
  [folded read_account_def find_account_offset_def, folded atomic_update_account_def]
lemmas user_update_done = users.svc.update_done
  [folded read_user_def find_user_offset_def, folded atomic_update_user_def]

text \<open>What the routines of one file leave alone.\<close>

lemma account_update_rest:
  assumes "atomic_update_account e k m s = (ok, s')" "quiet m"
  shows "\<exists>f. disk s' = (disk s)\<lparr>accounts_db := f\<rparr>"
  using accts.atomic_update_quiet [OF assms [unfolded atomic_update_account_def]]
  by (cases ok) (auto intro: exI [of _ "accounts_db (disk s)"])

lemma append_transaction_rest:
  assumes "append_transaction e tx s = (ok, tx', s')"
  shows "\<exists>f. disk s' = (disk s)\<lparr>txns_db := f\<rparr>"
  using txns.append_recD [OF assms [unfolded append_transaction_def]]
  by (cases ok) (auto intro: exI [of _ "txns_db (disk s)"])

lemma append_transaction_io_ok:
  assumes "io_ok e"
  shows "\<exists>s'. append_transaction e tx s =
      (True, tx\<lparr>txn_id := of_nat (length (txns (disk s)) + 1)\<rparr>, s') \<and>
    disk s' = (disk s)\<lparr>txns_db :=
      Some (txns (disk s) @ [tx\<lparr>txn_id := of_nat (length (txns (disk s)) + 1)\<rparr>])\<rparr>"
proof -
  obtain ok tx' s' where r: "append_transaction e tx s = (ok, tx', s')"
    by (cases "append_transaction e tx s") auto
  show ?thesis
    using txns.append_recD [OF r [unfolded append_transaction_def]] assms r
    by (cases ok) auto
qed

lemma read_account_frame:
  "accounts_db (disk s') = accounts_db (disk s) \<Longrightarrow> read_account k s' = read_account k s"
  by (simp add: read_account_def)

end
