(* ===== verification/Listing.thy ===== *)
theory Listing
  imports Tables
begin

text \<open>
  The read-only lists of the modules: a loop over the records of a file that appends one
  formatted line per matching record to the response buffer with \<open>strncat\<close>, so that what
  does not fit in the \<open>MAX_MSG_LEN\<close> bytes of the response is cut off.
\<close>

abbreviation NL :: string where
  "NL \<equiv> [CHR 0x0A]"

abbreviation QUOTE :: string where
  "QUOTE \<equiv> [CHR 0x22]"

text \<open>\<open>strncat(resp_msg, tmp, resp_sz - strlen(resp_msg) - 1)\<close>.\<close>

definition append_resp :: "string \<Rightarrow> string \<Rightarrow> string" where
  "append_resp msg tmp = strncat msg tmp (MAX_MSG_LEN - length msg - 1)"

fun list_loop :: "('r \<Rightarrow> bool) \<Rightarrow> ('r \<Rightarrow> string) \<Rightarrow> 'r list \<Rightarrow> string \<times> bool \<Rightarrow> string \<times> bool" where
  "list_loop p line [] (msg, found) = (msg, found)"
| "list_loop p line (r # rs) (msg, found) =
     (if p r then list_loop p line rs (append_resp msg (line r), True)
      else list_loop p line rs (msg, found))"

text \<open>
  The loop of the transaction histories: it starts at the last record
  (\<open>lseek(fd, -size, SEEK_END)\<close>), and after each \<open>read\<close> moves back by two records; both
  seeks fail before the start of the file. The argument \<open>Suc pos\<close> is the offset \<open>pos\<close>,
  \<open>0\<close> a failed seek.
\<close>

fun back_loop :: "('r \<Rightarrow> string option) \<Rightarrow> 'r list \<Rightarrow> nat \<Rightarrow> string \<times> bool \<Rightarrow> string \<times> bool" where
  "back_loop entry rs 0 (msg, found) = (msg, found)"
| "back_loop entry rs (Suc pos) (msg, found) =
     (if \<not> pos < length rs then (msg, found)
      else (case entry (rs ! pos) of
              Some line \<Rightarrow> back_loop entry rs pos (append_resp msg line, True)
            | None \<Rightarrow> back_loop entry rs pos (msg, found)))"

section \<open>What the loops compute\<close>

lemma append_resp_snprintf:
  "append_resp (snprintf MAX_MSG_LEN x) y = snprintf MAX_MSG_LEN (x @ y)"
proof (cases "length x \<le> MAX_MSG_LEN - 1")
  case True
  then have "MAX_MSG_LEN - min (length x) (MAX_MSG_LEN - 1) - 1 = MAX_MSG_LEN - 1 - length x"
    by simp
  with True show ?thesis by (simp add: append_resp_def strncat_def snprintf_def)
next
  case False
  then show ?thesis by (simp add: append_resp_def strncat_def snprintf_def MAX_MSG_LEN_def)
qed

lemma list_loop_eq:
  "list_loop p line rs (snprintf MAX_MSG_LEN msg, found) =
     (snprintf MAX_MSG_LEN (msg @ concat (map line (filter p rs))), found \<or> (\<exists>r\<in>set rs. p r))"
  by (induction rs arbitrary: msg found) (auto simp: append_resp_snprintf)

lemma back_loop_eq:
  "n \<le> length rs \<Longrightarrow>
   back_loop entry rs n (snprintf MAX_MSG_LEN msg, found) =
     (snprintf MAX_MSG_LEN (msg @ concat (List.map_filter entry (rev (take n rs)))),
      found \<or> (\<exists>r\<in>set (take n rs). entry r \<noteq> None))"
proof (induction n arbitrary: msg found)
  case (Suc n)
  then have "rev (take (Suc n) rs) = rs ! n # rev (take n rs)"
    by (simp add: take_Suc_conv_app_nth)
  moreover have "set (take (Suc n) rs) = insert (rs ! n) (set (take n rs))"
    using Suc.prems by (simp add: take_Suc_conv_app_nth)
  ultimately show ?case
    using Suc by (cases "entry (rs ! n)") (auto simp: append_resp_snprintf map_filter_simps)
qed (simp add: map_filter_simps)

lemma back_loop_all:
  "back_loop entry rs (length rs) (snprintf MAX_MSG_LEN msg, found) =
     (snprintf MAX_MSG_LEN (msg @ concat (List.map_filter entry (rev rs))),
      found \<or> (\<exists>r\<in>set rs. entry r \<noteq> None))"
  using back_loop_eq [of "length rs" rs] by simp

text \<open>The same from a header that fits.\<close>

lemma list_loop_hdr:
  "length hdr < MAX_MSG_LEN \<Longrightarrow> list_loop p line rs (hdr, found) =
     (snprintf MAX_MSG_LEN (hdr @ concat (map line (filter p rs))), found \<or> (\<exists>r\<in>set rs. p r))"
  using list_loop_eq [of p line rs hdr found] by (simp add: snprintf_fits)

lemma back_loop_hdr:
  "length hdr < MAX_MSG_LEN \<Longrightarrow> back_loop entry rs (length rs) (hdr, found) =
     (snprintf MAX_MSG_LEN (hdr @ concat (List.map_filter entry (rev rs))),
      found \<or> (\<exists>r\<in>set rs. entry r \<noteq> None))"
  using back_loop_all [of entry rs hdr found] by (simp add: snprintf_fits)

end
