(* ===== verification/Customer.thy ===== *)
theory Customer
  imports Listing
begin

text \<open>
  \<^verbatim>\<open>src/customer_module.c\<close>: deposits, withdrawals, transfers with roll-back, loan
  applications, feedback, password change and the read-only views. Every operation
  returns the C result (\<open>True\<close> for 1) and the new state.
\<close>

section \<open>Modifiers\<close>

definition deposit_modifier :: "double \<Rightarrow> account_rec modifier" where
  "deposit_modifier amount acc s =
     (if a_active acc = STATUS_INACTIVE then (False, acc, s)
      else (True, acc\<lparr>balance := dadd (balance acc) amount\<rparr>, s))"

definition withdraw_modifier :: "double \<Rightarrow> account_rec modifier" where
  "withdraw_modifier amount acc s =
     (if a_active acc = STATUS_INACTIVE then (False, acc, s)
      else if dlt (balance acc) amount then (False, acc, s)
      else (True, acc\<lparr>balance := dsub (balance acc) amount\<rparr>, s))"

definition change_pass_modifier :: "env \<Rightarrow> string \<Rightarrow> user_rec modifier" where
  "change_pass_modifier e newpass user s =
     (True, user\<lparr>password_hash := generate_password_hash e newpass (password_hash user)\<rparr>,
      say ''Password changed successfully'' s)"

section \<open>Password and personal details\<close>

definition change_password :: "env \<Rightarrow> uid \<Rightarrow> string \<Rightarrow> st \<Rightarrow> bool \<times> st" where
  "change_password e user_id newpass s =
     (case atomic_update_user e user_id (change_pass_modifier e newpass) s of
        (ok, s1) \<Rightarrow>
          if ok then (True, s1)
          else (False,
            say ''Password change failed (User not found or concurrency error)'' s1))"

definition view_personal_details :: "uid \<Rightarrow> st \<Rightarrow> bool \<times> st" where
  "view_personal_details user_id s =
     (case read_user user_id s of
        None \<Rightarrow> (False, say ''Could not find user details.'' s)
      | Some u \<Rightarrow>
          (True, say
            (''--- Personal Details for '' @ cstr (first_name u) @ '' ---'' @ NL @
             ''Account ID: AC'' @ fmt_u (u_user_id u) @ NL @
             ''Name:       '' @ cstr (first_name u) @ '' '' @ cstr (last_name u) @ NL @
             ''Age:        '' @ fmt_u (age u) @ NL @
             ''Address:    '' @ cstr (address u) @ NL @
             ''Email:      '' @ cstr (email u) @ NL @
             ''Phone:      '' @ cstr (phone u) @ NL) s))"

definition view_balance :: "uid \<Rightarrow> st \<Rightarrow> bool \<times> st" where
  "view_balance user_id s =
     (case read_account user_id s of
        None \<Rightarrow> (False, say ''Account not found'' s)
      | Some acc \<Rightarrow>
          (True, say
            (''Balance: '' @ fmt_f 2 (balance acc) @ '' (Status: '' @
             (if a_active acc = STATUS_ACTIVE then ''Active'' else ''Inactive'') @ '')'') s))"

section \<open>Deposit, withdrawal, transfer\<close>

definition mk_txn :: "uid \<Rightarrow> uid \<Rightarrow> double \<Rightarrow> int \<Rightarrow> string \<Rightarrow> txn_rec" where
  \<comment> \<open>\<open>txn_rec_t tx = {0, from, to, amount, time, "narration"}\<close>\<close>
  "mk_txn from_acc to_acc amount t narr =
     \<lparr>txn_id = 0, from_account = from_acc, to_account = to_acc, t_amount = amount,
      timestamp = t, narration = init_array 128 narr\<rparr>"

definition deposit_money :: "env \<Rightarrow> uid \<Rightarrow> double \<Rightarrow> st \<Rightarrow> bool \<times> st" where
  "deposit_money e user_id amount s =
     (if dle amount dzero then (False, say ''Deposit amount must be positive.'' s)
      else case atomic_update_account e user_id (deposit_modifier amount) s of
        (ok, s1) \<Rightarrow>
          if ok then
            (case append_transaction e (mk_txn 0 user_id amount (now e (tick s1)) ''deposit'') s1 of
               (_, _, s2) \<Rightarrow>
                 (True, say (''Deposit Successful: '' @ fmt_f 2 amount) s2))
          else
            (case read_account user_id s1 of
               Some acc \<Rightarrow>
                 if a_active acc = STATUS_INACTIVE
                 then (False, say ''Deposit Failed: Account is inactive'' s1)
                 else (False, say ''Deposit Failed: Account not found'' s1)
             | None \<Rightarrow> (False, say ''Deposit Failed: Account not found'' s1)))"

definition withdraw_money :: "env \<Rightarrow> uid \<Rightarrow> double \<Rightarrow> st \<Rightarrow> bool \<times> st" where
  "withdraw_money e user_id amount s =
     (if dle amount dzero then (False, say ''Withdrawal amount must be positive.'' s)
      else case atomic_update_account e user_id (withdraw_modifier amount) s of
        (ok, s1) \<Rightarrow>
          if ok then
            (case append_transaction e (mk_txn user_id 0 amount (now e (tick s1)) ''withdraw'') s1 of
               (_, _, s2) \<Rightarrow>
                 (True, say (''Withdrawal Successful: '' @ fmt_f 2 amount) s2))
          else
            (case read_account user_id s1 of
               None \<Rightarrow> (False, say ''Withdrawal Failed: Account not found'' s1)
             | Some acc \<Rightarrow>
                 if a_active acc = STATUS_INACTIVE
                 then (False, say ''Withdrawal Failed: Account is inactive'' s1)
                 else if dlt (balance acc) amount
                 then (False, say (''Withdrawal Failed: Insufficient Balance (Current: '' @
                                   fmt_f 2 (balance acc) @ '')'') s1)
                 else (False, say ''Withdrawal Failed: Unexpected error'' s1)))"

definition transfer_funds :: "env \<Rightarrow> uid \<Rightarrow> uid \<Rightarrow> double \<Rightarrow> st \<Rightarrow> bool \<times> st" where
  "transfer_funds e from_id to_id amount s =
     (if from_id = to_id then (False, say ''Cannot transfer to the same account.'' s)
      else if dle amount dzero then (False, say ''Transfer amount must be positive.'' s)
      else if (case read_account to_id s of
                 None \<Rightarrow> True | Some to_acc \<Rightarrow> a_active to_acc = STATUS_INACTIVE)
      then (False, say ''Transfer Failed: Recipient account not found or is inactive'' s)
      else case atomic_update_account e from_id (withdraw_modifier amount) s of
        (withdrawn, s1) \<Rightarrow>
          if \<not> withdrawn then
            (case read_account from_id s1 of
               None \<Rightarrow> (False, say ''Transfer Failed: Sender account not found'' s1)
             | Some from_acc \<Rightarrow>
                 if a_active from_acc = STATUS_INACTIVE
                 then (False, say ''Transfer Failed: Sender account is inactive'' s1)
                 else if dlt (balance from_acc) amount
                 then (False, say (''Transfer Failed: Insufficient Balance (Current: '' @
                                   fmt_f 2 (balance from_acc) @ '')'') s1)
                 else (False, say ''Transfer Failed: Sender account error'' s1))
          else
            (case atomic_update_account e to_id (deposit_modifier amount) s1 of
               (deposited, s2) \<Rightarrow>
                 if \<not> deposited then
                   (case atomic_update_account e from_id (deposit_modifier amount)
                           (say ''CRITICAL ERROR: Transfer failed after withdrawal. Contact support.'' s2)
                    of (_, s3) \<Rightarrow> (False, s3))
                 else
                   (let t = now e (tick s2) in
                    case append_transaction e (mk_txn from_id to_id amount t ''transfer_out'') s2 of
                      (_, _, s3) \<Rightarrow>
                        (case append_transaction e (mk_txn from_id to_id amount t ''transfer_in'') s3 of
                           (_, _, s4) \<Rightarrow>
                             (True, say (''Transfer Successful: '' @ fmt_f 2 amount @ '' from '' @
                                         fmt_u from_id @ '' to '' @ fmt_u to_id) s4)))))"

section \<open>Loans and feedback\<close>

definition apply_loan :: "env \<Rightarrow> uid \<Rightarrow> double \<Rightarrow> st \<Rightarrow> bool \<times> st" where
  "apply_loan e user_id amount s =
     (if dle amount dzero then (False, say ''Loan amount must be positive.'' s)
      else
        let loan = \<lparr>loan_id = 0, l_user_id = user_id, l_amount = amount,
                    l_status = LOAN_PENDING, assigned_to = 0, applied_at = now e (tick s),
                    processed_at = 0, remarks = init_array 256 []\<rparr>
        in case append_loan e loan s of
             (ok, loan1, s1) \<Rightarrow>
               if ok then (True, say (''Loan Application Submitted (ID: '' @
                                      fmt_u (loan_id loan1) @ '')'') s1)
               else (False, say ''Loan Apply Failed (Server Error)'' s1))"

fun status_map :: "loan_status_t \<Rightarrow> string" where
  "status_map LOAN_PENDING = ''PENDING''"
| "status_map LOAN_ASSIGNED = ''ASSIGNED''"
| "status_map LOAN_APPROVED = ''APPROVED''"
| "status_map LOAN_REJECTED = ''REJECTED''"

definition loan_status_line :: "loan_rec \<Rightarrow> string" where
  "loan_status_line l = snprintf 512
     (''ID: '' @ fmt_u (loan_id l) @ '', Amount: '' @ fmt_f 2 (l_amount l) @
      '', Status: '' @ status_map (l_status l) @ NL)"

definition view_loan_status :: "uid \<Rightarrow> st \<Rightarrow> bool \<times> st" where
  "view_loan_status user_id s =
     (case loans_db (disk s) of
        None \<Rightarrow> (False, say ''No loan records found'' s)
      | Some ls \<Rightarrow>
          (case list_loop (\<lambda>l. l_user_id l = user_id) loan_status_line ls ([], False) of
             (msg, found) \<Rightarrow>
               if \<not> found then (True, say ''No loan applications found for your ID.'' s)
               else (True, s\<lparr>resp_msg := msg\<rparr>)))"

definition add_feedback :: "env \<Rightarrow> uid \<Rightarrow> string \<Rightarrow> st \<Rightarrow> bool \<times> st" where
  "add_feedback e user_id msg s =
     (let fb = \<lparr>fb_id = 0, f_user_id = user_id,
                message = strncpy (init_array 512 []) msg 511, reviewed = 0,
                action_taken = init_array 256 [], submitted_at = now e (tick s)\<rparr>
      in case append_feedback e fb s of
           (ok, fb1, s1) \<Rightarrow>
             if ok then (True, say (''Feedback Submitted (ID: '' @ fmt_u (fb_id fb1) @
                                    ''). Thank you!'') s1)
             else (False, say ''Feedback submission failed.'' s1))"

definition feedback_line :: "feedback_rec \<Rightarrow> string" where
  "feedback_line f = snprintf 512
     (''ID: '' @ fmt_u (fb_id f) @ '', Status: '' @
      (if reviewed f \<noteq> 0 then ''REVIEWED'' else ''PENDING'') @
      '', Msg: '' @ QUOTE @ cstr (message f) @ QUOTE @ NL)"

definition view_feedback_status :: "uid \<Rightarrow> st \<Rightarrow> bool \<times> st" where
  "view_feedback_status user_id s =
     (case feedback_db (disk s) of
        None \<Rightarrow> (False, say ''No feedback records found'' s)
      | Some fs \<Rightarrow>
          (case list_loop (\<lambda>f. f_user_id f = user_id) feedback_line fs ([], False) of
             (msg, found) \<Rightarrow>
               if \<not> found then (True, say ''No feedback submitted by your ID.'' s)
               else (True, s\<lparr>resp_msg := msg\<rparr>)))"

section \<open>Transaction history\<close>

definition txn_kind :: "uid \<Rightarrow> txn_rec \<Rightarrow> (string \<times> uid) option" where
  \<comment> \<open>\<open>type_str\<close> and \<open>other_id\<close> of a relevant transaction\<close>
  "txn_kind user_id tx =
     (if cstr (narration tx) = ''deposit'' \<and> to_account tx = user_id
      then Some (''DEPOSIT'', 0)
      else if cstr (narration tx) = ''withdraw'' \<and> from_account tx = user_id
      then Some (''WITHDRAW'', 0)
      else if cstr (narration tx) = ''transfer_out'' \<and> from_account tx = user_id
      then Some (''TRANSFER_OUT'', to_account tx)
      else if cstr (narration tx) = ''transfer_in'' \<and> to_account tx = user_id
      then Some (''TRANSFER_IN'', from_account tx)
      else if cstr (narration tx) = ''loan_deposit'' \<and> to_account tx = user_id
      then Some (''LOAN_DEPOSIT'', 0)
      else None)"

definition txn_line :: "env \<Rightarrow> txn_rec \<Rightarrow> string \<times> uid \<Rightarrow> string" where
  "txn_line e tx k =
     (case k of (type_str, other_id) \<Rightarrow> snprintf 256
       (left_justify 11 type_str @ '' | '' @ left_justify 8 (fmt_f 2 (t_amount tx)) @ '' | '' @
        left_justify 10 (fmt_u other_id) @ '' | '' @ time_str e (timestamp tx) @ NL))"

definition history_header :: string where
  "history_header =
     ''Type        | Amount   | Other Acct | Timestamp'' @ NL @
     ''------------|----------|------------|-------------------'' @ NL"

definition view_transaction_history :: "env \<Rightarrow> uid \<Rightarrow> st \<Rightarrow> bool \<times> st" where
  "view_transaction_history e user_id s =
     (case txns_db (disk s) of
        None \<Rightarrow> (False, say ''No transaction history found'' s)
      | Some ts \<Rightarrow>
          (case back_loop (\<lambda>tx. map_option (txn_line e tx) (txn_kind user_id tx)) ts
                  (length ts) (history_header, False) of
             (msg, found) \<Rightarrow>
               if \<not> found then (True, say ''No transaction history found for your ID.'' s)
               else (True, s\<lparr>resp_msg := msg\<rparr>)))"

end
