(* ===== verification/Employee.thy ===== *)
theory Employee
  imports Customer
begin

text \<open>
  \<^verbatim>\<open>src/employee_module.c\<close>: the decision on a loan (which deposits the amount of an
  approved loan from inside the loan's modifier), customer records and the employee's lists.
\<close>

section \<open>Loan decisions\<close>

definition approve_reject_loan_modifier :: "env \<Rightarrow> string \<Rightarrow> uid \<Rightarrow> loan_rec modifier" where
  "approve_reject_loan_modifier e action emp_id loan s =
     (let decide = (\<lambda>l t.
            (True, l\<lparr>processed_at := now e (tick t)\<rparr>,
             say (''Loan ID '' @ fmt_u (loan_id l) @ '' Decision Recorded: '' @ action) t))
      in
      if l_status loan \<noteq> LOAN_ASSIGNED then
        (False, loan, say ''Loan not assigned to an employee or already processed.'' s)
      else if assigned_to loan \<noteq> emp_id then
        (False, loan, say ''Loan not assigned to you.'' s)
      else if action = ''approve'' then
        (let loan1 = loan\<lparr>l_status := LOAN_APPROVED\<rparr> in
         if (case read_account (l_user_id loan) s of
               None \<Rightarrow> True | Some cust_acc \<Rightarrow> a_active cust_acc = STATUS_INACTIVE)
         then (False, loan1,
                say ''Loan Approval Failed: Customer account is inactive or not found.'' s)
         else case atomic_update_account e (l_user_id loan) (deposit_modifier (l_amount loan)) s of
           (deposited, s1) \<Rightarrow>
             if \<not> deposited
             then (False, loan1,
                    say ''Loan Decision Failed: Approved, but failed to deposit funds.'' s1)
             else
               (case append_transaction e
                       (mk_txn 0 (l_user_id loan) (l_amount loan) (now e (tick s1)) ''loan_deposit'') s1
                of (_, _, s2) \<Rightarrow> decide loan1 s2))
      else if action = ''reject'' then decide (loan\<lparr>l_status := LOAN_REJECTED\<rparr>) s
      else (False, loan,
             say (''Invalid action. Use '' @ [CHR 0x27] @ ''approve'' @ [CHR 0x27] @ '' or '' @
                  [CHR 0x27] @ ''reject'' @ [CHR 0x27] @ ''.'') s))"

definition approve_reject_loan :: "env \<Rightarrow> 64 word \<Rightarrow> string \<Rightarrow> uid \<Rightarrow> st \<Rightarrow> bool \<times> st" where
  "approve_reject_loan e lid action emp_id s =
     (case atomic_update_loan e lid (approve_reject_loan_modifier e action emp_id) s of
        (ok, s1) \<Rightarrow>
          if ok then (True, s1)
          else if resp_msg s1 = [] then
            (False, say ''Loan Decision Failed (Loan not found or concurrency error)'' s1)
          else (False, s1))"

section \<open>Customer records\<close>

definition set_details ::
  "string \<Rightarrow> string \<Rightarrow> int \<Rightarrow> string \<Rightarrow> string \<Rightarrow> string \<Rightarrow> user_rec \<Rightarrow> user_rec" where
  "set_details fname lname ag ad em ph u = u\<lparr>
     first_name := strncpy (first_name u) fname (MAX_FNAME_LEN - 1),
     last_name := strncpy (last_name u) lname (MAX_LNAME_LEN - 1),
     age := to_u8 ag,
     address := strncpy (address u) ad (MAX_ADDR_LEN - 1),
     email := strncpy (email u) em (MAX_EMAIL_LEN - 1),
     phone := strncpy (phone u) ph (MAX_PHONE_LEN - 1)\<rparr>"

definition details_msg :: "string \<Rightarrow> user_rec \<Rightarrow> string" where
  "details_msg what u =
     what @ '' Modified (ID: '' @ fmt_u (u_user_id u) @ '').'' @ NL @ ''New Details:'' @ NL @
     ''Name: '' @ cstr (first_name u) @ '' '' @ cstr (last_name u) @ NL @
     ''Age: '' @ fmt_u (age u) @ NL @
     ''Address: '' @ cstr (address u) @ NL @
     ''Email: '' @ cstr (email u) @ NL @
     ''Phone: '' @ cstr (phone u)"

definition modify_customer_modifier ::
  "string \<Rightarrow> string \<Rightarrow> int \<Rightarrow> string \<Rightarrow> string \<Rightarrow> string \<Rightarrow> user_rec modifier" where
  "modify_customer_modifier fname lname ag ad em ph user s =
     (if u_role user \<noteq> ROLE_CUSTOMER then
        (False, user, say ''Cannot modify non-customer user.'' s)
      else case check_uniqueness (cstr (username user)) em ph (u_user_id user) s of
        (uniq, s1) \<Rightarrow>
          if \<not> uniq then (False, user, s1)
          else (let user1 = set_details fname lname ag ad em ph user
                in (True, user1, say (details_msg ''Customer'' user1) s1)))"

definition modify_customer ::
  "env \<Rightarrow> uid \<Rightarrow> string \<Rightarrow> string \<Rightarrow> int \<Rightarrow> string \<Rightarrow> string \<Rightarrow> string \<Rightarrow> st \<Rightarrow> bool \<times> st" where
  "modify_customer e user_id fname lname ag ad em ph s =
     (case atomic_update_user e user_id (modify_customer_modifier fname lname ag ad em ph) s of
        (ok, s1) \<Rightarrow>
          if ok then (True, s1)
          else if resp_msg s1 = [] then
            (False, say ''Customer Modification Failed (User not found or concurrency error)'' s1)
          else (False, s1))"

definition add_new_customer ::
  "env \<Rightarrow> user_rec \<Rightarrow> account_rec \<Rightarrow> string \<Rightarrow> string \<Rightarrow> st \<Rightarrow> bool \<times> st" where
  "add_new_customer e user acc un password s =
     (case check_uniqueness un (cstr (email user)) (cstr (phone user)) 0 s of
        (uniq, s1) \<Rightarrow>
          if \<not> uniq then (False, s1)
          else case generate_new_userId e s1 of
            (new_id, s2) \<Rightarrow>
              (let user1 = user\<lparr>
                     u_user_id := new_id, u_role := ROLE_CUSTOMER, u_active := STATUS_ACTIVE,
                     created_at := now e (tick s2),
                     username := strncpy (username user) un (MAX_USERNAME_LEN - 1),
                     password_hash := generate_password_hash e password (password_hash user)\<rparr>;
                   acc1 = acc\<lparr>a_user_id := new_id, account_id := new_id, balance := dzero,
                              a_active := STATUS_ACTIVE\<rparr>
               in case write_user e user1 s2 of
                    (wu, s3) \<Rightarrow>
                      (case (if wu then write_account e acc1 s3 else (False, s3)) of
                         (wa, s4) \<Rightarrow>
                           if wu \<and> wa then
                             (True, say (''Customer Added (ID: '' @ fmt_u new_id @ '', Username: '' @
                                         cstr (username user1) @ '')'') s4)
                           else (False, say ''Customer Add Failed (Persistence Error)'' s4))))"

section \<open>Lists\<close>

definition assigned_line :: "loan_rec \<Rightarrow> string" where
  "assigned_line l = snprintf 256
     (left_justify 4 (fmt_u (loan_id l)) @ '' | '' @ left_justify 7 (fmt_u (l_user_id l)) @ '' | '' @
      left_justify 8 (fmt_f 2 (l_amount l)) @ '' | '' @ status_map (l_status l) @ NL)"

definition view_assigned_loans :: "uid \<Rightarrow> st \<Rightarrow> bool \<times> st" where
  "view_assigned_loans emp_id s =
     (case loans_db (disk s) of
        None \<Rightarrow> (False, say ''No loans file found'' s)
      | Some ls \<Rightarrow>
          (case list_loop (\<lambda>l. assigned_to l = emp_id \<and> l_status l = LOAN_ASSIGNED) assigned_line ls
                  (''ID   | User ID | Amount   | Status'' @ NL @
                   ''---- | ------- | -------- | --------'' @ NL, False) of
             (msg, found) \<Rightarrow>
               if \<not> found then (True, say ''No loan applications currently assigned to you.'' s)
               else (True, s\<lparr>resp_msg := msg\<rparr>)))"

definition pending_line :: "loan_rec \<Rightarrow> string" where
  "pending_line l = snprintf 256
     (left_justify 4 (fmt_u (loan_id l)) @ '' | '' @ left_justify 7 (fmt_u (l_user_id l)) @ '' | '' @
      fmt_f 2 (l_amount l) @ NL)"

definition process_loans :: "st \<Rightarrow> bool \<times> st" where
  "process_loans s =
     (case loans_db (disk s) of
        None \<Rightarrow> (False, say ''No loans file found'' s)
      | Some ls \<Rightarrow>
          (case list_loop (\<lambda>l. l_status l = LOAN_PENDING) pending_line ls
                  (''--- Pending Loan Applications (Unassigned) ---'' @ NL @
                   ''ID   | User ID | Amount'' @ NL @ ''---- | ------- | --------'' @ NL, False) of
             (msg, found) \<Rightarrow>
               if \<not> found
               then (True, say ''No pending loan applications available to process.'' s)
               else (True, s\<lparr>resp_msg := msg\<rparr>)))"

definition cust_txn_kind :: "uid \<Rightarrow> txn_rec \<Rightarrow> (string \<times> uid) option" where
  "cust_txn_kind custId tx =
     (if cstr (narration tx) = ''deposit'' \<and> to_account tx = custId
      then Some (''DEPOSIT'', from_account tx)
      else if cstr (narration tx) = ''withdraw'' \<and> from_account tx = custId
      then Some (''WITHDRAW'', to_account tx)
      else if cstr (narration tx) = ''transfer_out'' \<and> from_account tx = custId
      then Some (''TRANSFER_OUT'', to_account tx)
      else if cstr (narration tx) = ''transfer_in'' \<and> to_account tx = custId
      then Some (''TRANSFER_IN'', from_account tx)
      else if cstr (narration tx) = ''loan_deposit'' \<and> to_account tx = custId
      then Some (''LOAN_DEPOSIT'', 0)
      else None)"

definition view_customer_transactions :: "env \<Rightarrow> uid \<Rightarrow> st \<Rightarrow> bool \<times> st" where
  "view_customer_transactions e custId s =
     (if (case read_user custId s of None \<Rightarrow> True | Some u \<Rightarrow> u_role u \<noteq> ROLE_CUSTOMER)
      then (False, say (''Customer ID '' @ fmt_u custId @ '' not found.'') s)
      else case txns_db (disk s) of
        None \<Rightarrow> (False, say (''No transaction history found for customer '' @ fmt_u custId) s)
      | Some ts \<Rightarrow>
          (case back_loop (\<lambda>tx. map_option (txn_line e tx) (cust_txn_kind custId tx)) ts (length ts)
                  (''--- Transaction History for Customer '' @ fmt_u custId @ '' ---'' @ NL @
                   history_header, False) of
             (msg, found) \<Rightarrow>
               if \<not> found then
                 (True, say (''No transaction history found for customer '' @ fmt_u custId @ ''.'') s)
               else (True, s\<lparr>resp_msg := msg\<rparr>)))"

end
