(* ===== verification/Manager.thy ===== *)
theory Manager
  imports Employee
begin

text \<open>
  \<^verbatim>\<open>src/manager_module.c\<close>: activation of accounts, assignment of loans to employees, and
  the batch review of feedback.
\<close>

definition set_status_modifier :: "32 word \<Rightarrow> account_rec modifier" where
  "set_status_modifier new_status acc s =
     (True, acc\<lparr>a_active := (if new_status = 1 then STATUS_ACTIVE else STATUS_INACTIVE)\<rparr>, s)"

definition set_account_status :: "env \<Rightarrow> uid \<Rightarrow> 32 word \<Rightarrow> st \<Rightarrow> bool \<times> st" where
  "set_account_status e custId status s =
     (case atomic_update_account e custId (set_status_modifier status) s of
        (ok, s1) \<Rightarrow>
          if ok then
            (True, say (''Account '' @ fmt_u custId @ '' Status Updated to: '' @
                        (if status = 1 then ''ACTIVE'' else ''INACTIVE'')) s1)
          else (False, say ''Account Status Update Failed (Account not found)'' s1))"

definition assign_loan_modifier :: "uid \<Rightarrow> loan_rec modifier" where
  "assign_loan_modifier empId loan s =
     (if l_status loan \<noteq> LOAN_PENDING then
        (False, loan, say ''Loan is not pending, cannot assign.'' s)
      else if (case read_user empId s of None \<Rightarrow> True | Some emp \<Rightarrow> u_role emp \<noteq> ROLE_EMPLOYEE)
      then (False, loan,
             say (''Employee ID '' @ fmt_u empId @ '' not found or is not an employee.'') s)
      else
        (True, loan\<lparr>assigned_to := empId, l_status := LOAN_ASSIGNED\<rparr>,
         say (''Loan '' @ fmt_u (loan_id loan) @ '' Assigned to Employee '' @ fmt_u empId) s))"

definition assign_loan_to_employee :: "env \<Rightarrow> uid \<Rightarrow> uid \<Rightarrow> st \<Rightarrow> bool \<times> st" where
  "assign_loan_to_employee e loanId empId s =
     (case atomic_update_loan e (ucast loanId) (assign_loan_modifier empId) s of
        (ok, s1) \<Rightarrow>
          if ok then (True, s1)
          else if resp_msg s1 = [] then
            (False, say ''Loan Assignment Failed (Loan not found or concurrency error)'' s1)
          else (False, s1))"

definition view_non_assigned_loans :: "st \<Rightarrow> bool \<times> st" where
  "view_non_assigned_loans s =
     (case loans_db (disk s) of
        None \<Rightarrow> (False, say ''No loans file found'' s)
      | Some ls \<Rightarrow>
          (case list_loop (\<lambda>l. l_status l = LOAN_PENDING) pending_line ls
                  (''--- Non-Assigned (Pending) Loans ---'' @ NL @
                   ''ID   | User ID | Amount'' @ NL @ ''---- | ------- | --------'' @ NL, False) of
             (msg, found) \<Rightarrow>
               if \<not> found then (True, say ''No non-assigned loans found.'' s)
               else (True, s\<lparr>resp_msg := msg\<rparr>)))"

definition review_line :: "feedback_rec \<Rightarrow> string" where
  "review_line f = snprintf 600
     (''ID: '' @ fmt_u (fb_id f) @ '', User: '' @ fmt_u (f_user_id f) @
      '', Msg: '' @ QUOTE @ take 100 (cstr (message f)) @ QUOTE @ NL)"

fun review_loop ::
  "env \<Rightarrow> feedback_rec list \<Rightarrow> nat \<Rightarrow> string \<times> nat \<Rightarrow> st \<Rightarrow> (string \<times> nat) \<times> st" where
  "review_loop e [] pos (msg, cnt) s = ((msg, cnt), s)"
| "review_loop e (f # fs) pos (msg, cnt) s =
     (if reviewed f = 0 then
        review_loop e fs (Suc pos) (append_resp msg (review_line f), Suc cnt)
          (snd (pwrite e feedback_db_update pos (f\<lparr>reviewed := 1\<rparr>) s))
      else review_loop e fs (Suc pos) (msg, cnt) s)"

definition review_feedbacks :: "env \<Rightarrow> st \<Rightarrow> bool \<times> st" where
  "review_feedbacks e s =
     (case feedback_db (disk s) of
        None \<Rightarrow> (False, say ''No feedback file found'' s)
      | Some fs \<Rightarrow>
          (case review_loop e fs 0 (''--- Unreviewed Feedback ---'' @ NL, 0) s of
             ((msg, cnt), s1) \<Rightarrow>
               if cnt = 0 then (True, say ''No new feedback found to review.'' s1)
               else (True, s1\<lparr>resp_msg := append_resp msg
                       (snprintf 100 (NL @ digits_of cnt @ '' feedback(s) marked as reviewed.''))\<rparr>)))"

end
