(* ===== verification/Admin.thy ===== *)
theory Admin
  imports Manager
begin

text \<open>
  \<^verbatim>\<open>src/admin_module.c\<close>: staff accounts, changes to any user record, roles, and the list
  of users.
\<close>

fun get_role_str_for_list :: "role_t \<Rightarrow> string" where
  "get_role_str_for_list ROLE_CUSTOMER = ''CUSTOMER''"
| "get_role_str_for_list ROLE_EMPLOYEE = ''EMPLOYEE''"
| "get_role_str_for_list ROLE_MANAGER = ''MANAGER''"
| "get_role_str_for_list ROLE_ADMIN = ''ADMIN''"

definition modify_user_modifier ::
  "string \<Rightarrow> string \<Rightarrow> int \<Rightarrow> string \<Rightarrow> string \<Rightarrow> string \<Rightarrow> user_rec modifier" where
  "modify_user_modifier fname lname ag ad em ph user s =
     (case check_uniqueness (cstr (username user)) em ph (u_user_id user) s of
        (uniq, s1) \<Rightarrow>
          if \<not> uniq then (False, user, s1)
          else (let user1 = set_details fname lname ag ad em ph user
                in (True, user1, say (details_msg ''User'' user1) s1)))"

definition modify_user ::
  "env \<Rightarrow> uid \<Rightarrow> string \<Rightarrow> string \<Rightarrow> int \<Rightarrow> string \<Rightarrow> string \<Rightarrow> string \<Rightarrow> st \<Rightarrow> bool \<times> st" where
  "modify_user e userId fname lname ag ad em ph s =
     (case atomic_update_user e userId (modify_user_modifier fname lname ag ad em ph) s of
        (ok, s1) \<Rightarrow>
          if ok then (True, s1)
          else (False,
            say ''User Modification Failed (User not found or concurrency error)'' s1))"

definition change_role_modifier :: "string \<Rightarrow> user_rec modifier" where
  "change_role_modifier role user s =
     (if u_role user = ROLE_CUSTOMER then
        (False, user, say ''Error: Cannot change the role of a customer user.'' s)
      else if u_role user = ROLE_ADMIN then
        (False, user, say (''Error: Cannot modify the role of an Administrator (ID: '' @
                           fmt_u (u_user_id user) @ '').'') s)
      else if role = ''employee'' then
        (True, user\<lparr>u_role := ROLE_EMPLOYEE\<rparr>,
         say (''User '' @ fmt_u (u_user_id user) @ '' Role Updated to '' @ role) s)
      else if role = ''manager'' then
        (True, user\<lparr>u_role := ROLE_MANAGER\<rparr>,
         say (''User '' @ fmt_u (u_user_id user) @ '' Role Updated to '' @ role) s)
      else (False, user,
             say (''Invalid role. Must be '' @ [CHR 0x27] @ ''employee'' @ [CHR 0x27] @ '', or '' @
                  [CHR 0x27] @ ''manager'' @ [CHR 0x27] @ ''.'') s))"

definition change_user_role :: "env \<Rightarrow> uid \<Rightarrow> string \<Rightarrow> st \<Rightarrow> bool \<times> st" where
  "change_user_role e userId role s =
     (case atomic_update_user e userId (change_role_modifier role) s of
        (ok, s1) \<Rightarrow>
          if ok then (True, s1)
          else if resp_msg s1 = [] then
            (False, say ''Role Update Failed (User not found or concurrency error)'' s1)
          else (False, s1))"

definition staff_role :: "string \<Rightarrow> role_t option" where
  \<comment> \<open>the chain of \<open>strcmp(role_str, ...)\<close>\<close>
  "staff_role role =
     (if role = ''employee'' then Some ROLE_EMPLOYEE
      else if role = ''manager'' then Some ROLE_MANAGER
      else if role = ''admin'' then Some ROLE_ADMIN
      else None)"

definition add_employee ::
  "env \<Rightarrow> string \<Rightarrow> string \<Rightarrow> int \<Rightarrow> string \<Rightarrow> string \<Rightarrow> string \<Rightarrow> string \<Rightarrow> string \<Rightarrow> string
   \<Rightarrow> st \<Rightarrow> bool \<times> st" where
  "add_employee e fname lname ag ad role em ph un password s =
     (case check_uniqueness un em ph 0 s of
        (uniq, s1) \<Rightarrow>
          if \<not> uniq then (False, s1)
          else case generate_new_userId e s1 of
            (new_id, s2) \<Rightarrow>
              (let user = (set_details fname lname ag ad em ph zero_user)\<lparr>
                     u_user_id := new_id, u_active := STATUS_ACTIVE,
                     created_at := now e (tick s2),
                     username := strncpy (username zero_user) un (MAX_USERNAME_LEN - 1)\<rparr>
               in case staff_role role of
                    None \<Rightarrow>
                      (False, say (''Invalid role. Must be '' @ [CHR 0x27] @ ''employee'' @
                         [CHR 0x27] @ '' or '' @ [CHR 0x27] @ ''manager'' @ [CHR 0x27]) s2)
                  | Some r \<Rightarrow>
                      (case write_user e
                              (user\<lparr>u_role := r,
                                    password_hash := generate_password_hash e password
                                                       (password_hash user)\<rparr>) s2 of
                         (ok, s3) \<Rightarrow>
                           if ok then (True, say (''Employee Added (ID: '' @ fmt_u new_id @
                                                  '', Role: '' @ role @ '')'') s3)
                           else (False, say ''Employee Add Failed (Write Error)'' s3))))"

definition user_list_line :: "user_rec \<Rightarrow> string" where
  "user_list_line u = snprintf 256
     (left_justify 4 (fmt_u (u_user_id u)) @ '' | '' @ left_justify 15 (cstr (username u)) @ '' | '' @
      get_role_str_for_list (u_role u) @ NL)"

fun user_list_loop :: "user_rec list \<Rightarrow> string \<times> bool \<Rightarrow> string \<times> bool" where
  "user_list_loop [] (msg, found) = (msg, found)"
| "user_list_loop (u # us) (msg, found) =
     (if u_role u \<noteq> ROLE_ADMIN then
        (let tmp = user_list_line u in
         if length msg + length tmp < MAX_MSG_LEN
         then user_list_loop us (append_resp msg tmp, True)
         else (append_resp msg (''... (list truncated) ...'' @ NL), found))
      else user_list_loop us (msg, found))"

definition list_all_users :: "st \<Rightarrow> bool \<times> st" where
  "list_all_users s =
     (case users_db (disk s) of
        None \<Rightarrow> (False, say ''Failed to open user database'' s)
      | Some us \<Rightarrow>
          (case user_list_loop us
                  (''--- User List ---'' @ NL @
                   ''ID   | Username        | Role'' @ NL @
                   ''---- | --------------- | --------'' @ NL, False) of
             (msg, found) \<Rightarrow>
               if \<not> found then (True, say ''No customers or employees found.'' s)
               else (True, s\<lparr>resp_msg := msg\<rparr>)))"

end
