(* ===== verification/Scanf.thy ===== *)
theory Scanf
  imports ServerTypes
begin

text \<open>
  \<^verbatim>\<open>sscanf\<close> for the conversions the server uses: \<open>%s\<close> into a buffer of given size,
  \<open>%u\<close>, \<open>%d\<close>, \<open>%llu\<close> and \<open>%lf\<close>. The result is the list of the assigned values, so
  its length is the return value; a token that does not fit its buffer is the fault of the
  code that gives \<open>%s\<close> no width.
\<close>

datatype fault = Buffer_overflow string

section \<open>Characters\<close>

definition is_space :: "char \<Rightarrow> bool" where
  "is_space c \<longleftrightarrow> c \<in> {CHR '' '', CHR 0x09, CHR 0x0A, CHR 0x0B, CHR 0x0C, CHR 0x0D}"

definition digit_val :: "char \<Rightarrow> nat" where
  "digit_val c =
     (let n = of_char c :: nat in
      if 48 \<le> n \<and> n < 58 then n - 48
      else if 65 \<le> n \<and> n < 71 then n - 55
      else if 97 \<le> n \<and> n < 103 then n - 87
      else 16)"

definition is_digit_in :: "nat \<Rightarrow> char \<Rightarrow> bool" where
  "is_digit_in b c \<longleftrightarrow> digit_val c < b"

definition to_lower :: "char \<Rightarrow> char" where
  "to_lower c = (let n = of_char c :: nat in if 65 \<le> n \<and> n < 91 then char_of (n + 32) else c)"

definition skip_ws :: "string \<Rightarrow> string" where
  "skip_ws s = dropWhile is_space s"

definition num_val :: "nat \<Rightarrow> string \<Rightarrow> nat" where
  "num_val b ds = foldl (\<lambda>n c. b * n + digit_val c) 0 ds"

definition scan_sign :: "string \<Rightarrow> bool \<times> string" where
  "scan_sign s = (case s of
       c # r \<Rightarrow> if c = CHR ''-'' then (True, r) else if c = CHR ''+'' then (False, r) else (False, s)
     | [] \<Rightarrow> (False, s))"

section \<open>Integers and words\<close>

definition scan_int :: "string \<Rightarrow> ((bool \<times> nat) \<times> string) option" where
  \<comment> \<open>sign and magnitude of a decimal integer\<close>
  "scan_int s =
     (case scan_sign (skip_ws s) of (neg, r) \<Rightarrow>
        let ds = takeWhile (is_digit_in 10) r in
        if ds = [] then None
        else Some ((neg, num_val 10 ds), dropWhile (is_digit_in 10) r))"

definition ulong_of :: "bool \<times> nat \<Rightarrow> 64 word" where
  \<comment> \<open>\<open>strtoul\<close>: saturates, and negates modulo \<open>2 ^ 64\<close>\<close>
  "ulong_of v = (case v of (neg, n) \<Rightarrow>
     if 2 ^ 64 \<le> n then - 1 else if neg then - of_nat n else of_nat n)"

definition long_of :: "bool \<times> nat \<Rightarrow> int" where
  \<comment> \<open>\<open>strtol\<close>: saturates\<close>
  "long_of v = (case v of (neg, n) \<Rightarrow>
     if neg then max (- (2 ^ 63)) (- int n) else min (2 ^ 63 - 1) (int n))"

definition scan_u :: "string \<Rightarrow> (uid \<times> string) option" where
  "scan_u s = map_option (\<lambda>(v, r). (ucast (ulong_of v), r)) (scan_int s)"

definition scan_llu :: "string \<Rightarrow> (64 word \<times> string) option" where
  "scan_llu s = map_option (\<lambda>(v, r). (ulong_of v, r)) (scan_int s)"

definition scan_d :: "string \<Rightarrow> (int \<times> string) option" where
  "scan_d s = map_option (\<lambda>(v, r). (sint (word_of_int (long_of v) :: 32 word), r)) (scan_int s)"

definition scan_s :: "string \<Rightarrow> (string \<times> string) option" where
  "scan_s s =
     (let t = skip_ws s; w = takeWhile (\<lambda>c. \<not> is_space c) t in
      if w = [] then None else Some (w, dropWhile (\<lambda>c. \<not> is_space c) t))"

section \<open>Doubles\<close>

definition dbl_scaled :: "nat \<Rightarrow> nat \<Rightarrow> int \<Rightarrow> double" where
  \<comment> \<open>the double nearest to \<open>m * b ^ x\<close>\<close>
  "dbl_scaled b m x =
     (if 0 \<le> x then dbl_of_ratio (int m * int b ^ nat x * dunit) 1
      else dbl_of_ratio (int m * dunit) (int b ^ nat (- x)))"

definition scan_exponent :: "char \<Rightarrow> string \<Rightarrow> int \<times> string" where
  \<comment> \<open>an exponent after its mark; the mark alone counts as exponent 0 and is consumed\<close>
  "scan_exponent mark s = (case s of
       [] \<Rightarrow> (0, s)
     | c # r \<Rightarrow>
         if to_lower c = mark then
           (case scan_sign r of (neg, r1) \<Rightarrow>
              let n = int (num_val 10 (takeWhile (is_digit_in 10) r1))
              in (if neg then - n else n, dropWhile (is_digit_in 10) r1))
         else (0, s))"

definition scan_mantissa :: "nat \<Rightarrow> string \<Rightarrow> (string \<times> nat) \<times> string" where
  \<comment> \<open>the digits, how many of them follow the point, and the rest\<close>
  "scan_mantissa b s =
     (let d1 = takeWhile (is_digit_in b) s; r = dropWhile (is_digit_in b) s in
      case r of
        c # r1 \<Rightarrow>
          if c = CHR ''.'' then
            (let d2 = takeWhile (is_digit_in b) r1
             in ((d1 @ d2, length d2), dropWhile (is_digit_in b) r1))
          else ((d1, 0), r)
      | [] \<Rightarrow> ((d1, 0), r))"

definition scan_magnitude :: "string \<Rightarrow> (double \<times> string) option" where
  "scan_magnitude s =
     (let low = map to_lower (take 8 s) in
      if take 3 low = ''nan'' then Some (NaN, drop 3 s)
      else if take 3 low = ''inf'' then
        (if take 1 (drop 3 low) = ''i''
         then (if low = ''infinity'' then Some (PInf, drop 8 s) else None)
         else Some (PInf, drop 3 s))
      else if take 2 low = ''0x'' then
        (case scan_mantissa 16 (drop 2 s) of ((ds, k), r) \<Rightarrow>
         case scan_exponent CHR ''p'' r of (x, r1) \<Rightarrow>
           Some (dbl_scaled 2 (num_val 16 ds) (x - 4 * int k), r1))
      else
        (case scan_mantissa 10 s of ((ds, k), r) \<Rightarrow>
           if ds = [] then None
           else (case scan_exponent CHR ''e'' r of (x, r1) \<Rightarrow>
                   Some (dbl_scaled 10 (num_val 10 ds) (x - int k), r1))))"

definition scan_lf :: "string \<Rightarrow> (double \<times> string) option" where
  "scan_lf s =
     (case scan_sign (skip_ws s) of (neg, r) \<Rightarrow>
        map_option (\<lambda>(d, r1). (if neg then dneg d else d, r1)) (scan_magnitude r))"

section \<open>A whole format\<close>

text \<open>\<open>Cs n\<close> is \<open>%s\<close> with an argument of type \<^verbatim>\<open>char[n]\<close>.\<close>

datatype conv = Cs nat | Cu | Cd | Cllu | Clf
datatype arg = As string | Au uid | Ad int | Allu "64 word" | Alf double

fun scan_conv :: "conv \<Rightarrow> string \<Rightarrow> (arg \<times> string) option" where
  "scan_conv (Cs n) s = map_option (apfst As) (scan_s s)"
| "scan_conv Cu s = map_option (apfst Au) (scan_u s)"
| "scan_conv Cd s = map_option (apfst Ad) (scan_d s)"
| "scan_conv Cllu s = map_option (apfst Allu) (scan_llu s)"
| "scan_conv Clf s = map_option (apfst Alf) (scan_lf s)"

fun overflows :: "conv \<Rightarrow> arg \<Rightarrow> bool" where
  "overflows (Cs n) (As w) = (n \<le> length w)"
| "overflows _ _ = False"

fun sscanf :: "conv list \<Rightarrow> string \<Rightarrow> fault + arg list" where
  "sscanf [] s = Inr []"
| "sscanf (c # cs) s =
     (case scan_conv c s of
        None \<Rightarrow> Inr []
      | Some (a, r) \<Rightarrow>
          if overflows c a then Inl (Buffer_overflow s)
          else (case sscanf cs r of Inl f \<Rightarrow> Inl f | Inr as \<Rightarrow> Inr (a # as)))"

lemma sscanf_length: "sscanf cs s = Inr as \<Longrightarrow> length as \<le> length cs"
  by (induction cs s arbitrary: as rule: sscanf.induct)
    (force split: option.splits if_splits sum.splits)+

text \<open>Reading back the assigned arguments; an unassigned variable keeps its stack bytes.\<close>

definition arg_u :: "env \<Rightarrow> arg list \<Rightarrow> nat \<Rightarrow> string \<Rightarrow> uid" where
  "arg_u e as i v = (if i < length as then (case as ! i of Au w \<Rightarrow> w | _ \<Rightarrow> 0) else stk_u32 e v)"

definition arg_llu :: "env \<Rightarrow> arg list \<Rightarrow> nat \<Rightarrow> string \<Rightarrow> 64 word" where
  "arg_llu e as i v =
     (if i < length as then (case as ! i of Allu w \<Rightarrow> w | _ \<Rightarrow> 0) else stk_u64 e v)"

definition arg_lf :: "env \<Rightarrow> arg list \<Rightarrow> nat \<Rightarrow> string \<Rightarrow> double" where
  "arg_lf e as i v =
     (if i < length as then (case as ! i of Alf d \<Rightarrow> d | _ \<Rightarrow> dzero) else stk_f64 e v)"

definition arg_s :: "env \<Rightarrow> arg list \<Rightarrow> nat \<Rightarrow> string \<Rightarrow> string" where
  "arg_s e as i v =
     (if i < length as then (case as ! i of As w \<Rightarrow> w | _ \<Rightarrow> []) else cstr (stk_arr e v))"

definition arg_d :: "arg list \<Rightarrow> nat \<Rightarrow> int" where
  "arg_d as i = (if i < length as then (case as ! i of Ad n \<Rightarrow> n | _ \<Rightarrow> 0) else 0)"

end
