(* ===== verification/Server.thy ===== *)
theory Server
  imports Admin Scanf
begin

text \<open>
  \<^verbatim>\<open>src/server.c\<close>: the session table, the request router of \<open>client_thread_main\<close> and the
  life of the connections. A request that overflows one of the router's buffers is a
  \<open>fault\<close>; every other request gives a response and a new state.
\<close>

section \<open>The routes\<close>

text \<open>A route runs an operation on the response buffer and leaves \<open>status_code\<close> at 0; a
  payload that does not parse sets it to 1.\<close>

definition served :: "bool \<times> st \<Rightarrow> fault + (int \<times> st)" where
  "served r = Inr (0, snd r)"

definition bad_payload :: "string \<Rightarrow> st \<Rightarrow> fault + (int \<times> st)" where
  "bad_payload op s = Inr (1, say (op @ '': Invalid payload format.'') s)"

definition with_args ::
  "conv list \<Rightarrow> string \<Rightarrow> (arg list \<Rightarrow> fault + (int \<times> st)) \<Rightarrow> fault + (int \<times> st)" where
  "with_args cs payload k = (case sscanf cs payload of Inl f \<Rightarrow> Inl f | Inr as \<Rightarrow> k as)"

definition customer_routes :: "env \<Rightarrow> string \<Rightarrow> string \<Rightarrow> st \<Rightarrow> (fault + (int \<times> st)) option" where
  "customer_routes e op payload s =
     (if op = ''CHANGE_PASSWORD'' then
        Some (with_args [Cu, Cs MAX_PASSWORD_LEN] payload (\<lambda>as.
          served (change_password e (arg_u e as 0 ''userId'') (arg_s e as 1 ''newpass'') s)))
      else if op = ''VIEW_BALANCE'' then
        Some (with_args [Cu] payload (\<lambda>as. served (view_balance (arg_u e as 0 ''userId'') s)))
      else if op = ''DEPOSIT'' then
        Some (with_args [Cu, Clf] payload (\<lambda>as.
          served (deposit_money e (arg_u e as 0 ''userId'') (arg_lf e as 1 ''amount'') s)))
      else if op = ''WITHDRAW'' then
        Some (with_args [Cu, Clf] payload (\<lambda>as.
          served (withdraw_money e (arg_u e as 0 ''userId'') (arg_lf e as 1 ''amount'') s)))
      else if op = ''TRANSFER'' then
        Some (with_args [Cu, Cu, Clf] payload (\<lambda>as.
          if length as = 3 then
            served (transfer_funds e (arg_u e as 0 ''fromId'') (arg_u e as 1 ''toId'')
                      (arg_lf e as 2 ''amount'') s)
          else bad_payload ''TRANSFER'' s))
      else if op = ''APPLY_LOAN'' then
        Some (with_args [Cu, Clf] payload (\<lambda>as.
          served (apply_loan e (arg_u e as 0 ''userId'') (arg_lf e as 1 ''amount'') s)))
      else if op = ''VIEW_LOAN'' then
        Some (with_args [Cu] payload (\<lambda>as. served (view_loan_status (arg_u e as 0 ''userId'') s)))
      else if op = ''ADD_FEEDBACK'' then
        Some (with_args [Cu] payload (\<lambda>as.
          if length as = 1 then
            (case dropWhile (\<lambda>c. c \<noteq> CHR '' '') payload of
               [] \<Rightarrow> served (add_feedback e (arg_u e as 0 ''userId'') [] s)
             | _ # msg \<Rightarrow> served (add_feedback e (arg_u e as 0 ''userId'') msg s))
          else bad_payload ''ADD_FEEDBACK'' s))
      else if op = ''VIEW_FEEDBACK'' then
        Some (with_args [Cu] payload (\<lambda>as. served (view_feedback_status (arg_u e as 0 ''userId'') s)))
      else if op = ''VIEW_TRANSACTIONS'' then
        Some (with_args [Cu] payload (\<lambda>as.
          served (view_transaction_history e (arg_u e as 0 ''userId'') s)))
      else if op = ''VIEW_DETAILS'' then
        Some (with_args [Cu] payload (\<lambda>as. served (view_personal_details (arg_u e as 0 ''userId'') s)))
      else None)"

definition employee_routes :: "env \<Rightarrow> string \<Rightarrow> string \<Rightarrow> st \<Rightarrow> (fault + (int \<times> st)) option" where
  "employee_routes e op payload s =
     (if op = ''ADD_CUSTOMER'' then
        Some (with_args [Cs MAX_FNAME_LEN, Cs MAX_LNAME_LEN, Cd, Cs MAX_ADDR_LEN, Cs MAX_EMAIL_LEN,
                         Cs MAX_PHONE_LEN, Cs MAX_USERNAME_LEN, Cs MAX_PASSWORD_LEN] payload (\<lambda>as.
          if length as = 8 then
            served (add_new_customer e
                      (set_details (arg_s e as 0 ''fname'') (arg_s e as 1 ''lname'') (arg_d as 2)
                         (arg_s e as 3 ''address'') (arg_s e as 4 ''email'') (arg_s e as 5 ''phone'')
                         (stk_user e))
                      (stk_account e) (arg_s e as 6 ''username'') (arg_s e as 7 ''password'') s)
          else bad_payload ''ADD_CUSTOMER'' s))
      else if op = ''MODIFY_CUSTOMER'' then
        Some (with_args [Cu, Cd, Cs MAX_FNAME_LEN, Cs MAX_LNAME_LEN, Cs MAX_ADDR_LEN,
                         Cs MAX_EMAIL_LEN, Cs MAX_PHONE_LEN] payload (\<lambda>as.
          if length as = 7 then
            served (modify_customer e (arg_u e as 0 ''userId'') (arg_s e as 2 ''fname'')
                      (arg_s e as 3 ''lname'') (arg_d as 1) (arg_s e as 4 ''address'')
                      (arg_s e as 5 ''email'') (arg_s e as 6 ''phone'') s)
          else bad_payload ''MODIFY_CUSTOMER'' s))
      else if op = ''PROCESS_LOANS'' then Some (served (process_loans s))
      else if op = ''APPROVE_REJECT_LOAN'' then
        Some (with_args [Cllu, Cs 32, Cu] payload (\<lambda>as.
          served (approve_reject_loan e (arg_llu e as 0 ''loanId'') (arg_s e as 1 ''action'')
                    (arg_u e as 2 ''empId'') s)))
      else if op = ''VIEW_ASSIGNED_LOANS'' then
        Some (with_args [Cu] payload (\<lambda>as. served (view_assigned_loans (arg_u e as 0 ''empId'') s)))
      else if op = ''VIEW_CUST_TRANSACTIONS'' then
        Some (with_args [Cu] payload (\<lambda>as.
          served (view_customer_transactions e (arg_u e as 0 ''custId'') s)))
      else None)"

definition manager_routes :: "env \<Rightarrow> string \<Rightarrow> string \<Rightarrow> st \<Rightarrow> (fault + (int \<times> st)) option" where
  "manager_routes e op payload s =
     (if op = ''SET_ACCOUNT_STATUS'' then
        Some (with_args [Cu, Cu] payload (\<lambda>as.
          served (set_account_status e (arg_u e as 0 ''custId'') (arg_u e as 1 ''status'') s)))
      else if op = ''VIEW_NON_ASSIGNED_LOANS'' then Some (served (view_non_assigned_loans s))
      else if op = ''ASSIGN_LOAN'' then
        Some (with_args [Cu, Cu] payload (\<lambda>as.
          served (assign_loan_to_employee e (arg_u e as 0 ''loanId'') (arg_u e as 1 ''empId'') s)))
      else if op = ''REVIEW_FEEDBACK'' then Some (served (review_feedbacks e s))
      else None)"

definition admin_routes :: "env \<Rightarrow> string \<Rightarrow> string \<Rightarrow> st \<Rightarrow> (fault + (int \<times> st)) option" where
  \<comment> \<open>\<open>MODIFY_USER\<close> compares the number of its seven conversions with 6\<close>
  "admin_routes e op payload s =
     (if op = ''ADD_EMPLOYEE'' then
        Some (with_args [Cs MAX_FNAME_LEN, Cs MAX_LNAME_LEN, Cd, Cs MAX_ADDR_LEN, Cs MAX_ROLE_STR,
                         Cs MAX_EMAIL_LEN, Cs MAX_PHONE_LEN, Cs MAX_USERNAME_LEN,
                         Cs MAX_PASSWORD_LEN] payload (\<lambda>as.
          if length as = 9 then
            served (add_employee e (arg_s e as 0 ''fname'') (arg_s e as 1 ''lname'') (arg_d as 2)
                      (arg_s e as 3 ''address'') (arg_s e as 4 ''role'') (arg_s e as 5 ''email'')
                      (arg_s e as 6 ''phone'') (arg_s e as 7 ''username'')
                      (arg_s e as 8 ''password'') s)
          else bad_payload ''ADD_EMPLOYEE'' s))
      else if op = ''MODIFY_USER'' then
        Some (with_args [Cu, Cd, Cs MAX_FNAME_LEN, Cs MAX_LNAME_LEN, Cs MAX_ADDR_LEN,
                         Cs MAX_EMAIL_LEN, Cs MAX_PHONE_LEN] payload (\<lambda>as.
          if length as = 6 then
            served (modify_user e (arg_u e as 0 ''userId'') (arg_s e as 2 ''fname'')
                      (arg_s e as 3 ''lname'') (arg_d as 1) (arg_s e as 4 ''address'')
                      (arg_s e as 5 ''email'') (arg_s e as 6 ''phone'') s)
          else bad_payload ''MODIFY_USER'' s))
      else if op = ''LIST_USERS'' then Some (served (list_all_users s))
      else if op = ''CHANGE_ROLE'' then
        Some (with_args [Cu, Cs 32] payload (\<lambda>as.
          served (change_user_role e (arg_u e as 0 ''userId'') (arg_s e as 1 ''role'') s)))
      else None)"

definition dispatch :: "env \<Rightarrow> string \<Rightarrow> string \<Rightarrow> st \<Rightarrow> fault + (int \<times> st)" where
  "dispatch e op payload s =
     (case customer_routes e op payload s of Some r \<Rightarrow> r
      | None \<Rightarrow>
        (case employee_routes e op payload s of Some r \<Rightarrow> r
         | None \<Rightarrow>
           (case manager_routes e op payload s of Some r \<Rightarrow> r
            | None \<Rightarrow>
              (case admin_routes e op payload s of Some r \<Rightarrow> r
               | None \<Rightarrow> Inr (0, say ''Unknown command'' s)))))"

section \<open>Sessions\<close>

text \<open>\<open>active_sessions\<close> holds \<open>MAX_SESSIONS\<close> slots, 0 for an empty one. The two loops run
  inside the mutex, so that each is one atomic step.\<close>

type_synonym sessions = "uid list"

definition replace_first :: "'a \<Rightarrow> 'a \<Rightarrow> 'a list \<Rightarrow> 'a list" where
  \<comment> \<open>the loop that stores \<open>b\<close> in the first slot that holds \<open>a\<close> and stops there\<close>
  "replace_first a b xs =
     (case scan_offset (\<lambda>x. x = a) xs of None \<Rightarrow> xs | Some i \<Rightarrow> xs[i := b])"

definition remove_active_session :: "uid \<Rightarrow> sessions \<Rightarrow> sessions" where
  "remove_active_session userId ss = replace_first userId 0 ss"

definition open_session :: "uid \<Rightarrow> uid \<Rightarrow> sessions \<Rightarrow> bool \<times> uid \<times> sessions" where
  \<comment> \<open>the critical section of \<open>LOGIN\<close>: refused, or \<open>current_userId\<close> and the table; a full
     table leaves both as they were\<close>
  "open_session userId cur ss =
     (if userId \<in> set ss then (False, cur, ss)
      else if 0 \<in> set ss then (True, userId, replace_first 0 userId ss)
      else (True, cur, ss))"

record srv =
  srv_store :: store
  srv_tick :: nat
  active_sessions :: sessions

definition start_st :: "srv \<Rightarrow> st" where
  \<comment> \<open>\<open>memset(&resp, 0, sizeof(resp))\<close>\<close>
  "start_st v = \<lparr>disk = srv_store v, tick = srv_tick v, resp_msg = []\<rparr>"

record response =
  status_code :: int
  resp_message :: string

definition handle_login :: "env \<Rightarrow> string \<Rightarrow> uid \<Rightarrow> srv \<Rightarrow> fault + (response \<times> uid \<times> srv)" where
  "handle_login e payload cur v =
     (case sscanf [Cs MAX_USERNAME_LEN, Cs MAX_PASSWORD_LEN] payload of
        Inl f \<Rightarrow> Inl f
      | Inr as \<Rightarrow>
          let reply = (\<lambda>m. \<lparr>status_code = 0, resp_message = snprintf MAX_MSG_LEN m\<rparr>) in
          (case login_user e (arg_s e as 0 ''username'') (arg_s e as 1 ''password'') (start_st v) of
             Login_inactive \<Rightarrow>
               Inr (reply ''FAILURE! Account is deactivated. Please contact your bank.'', cur, v)
           | Login_failed \<Rightarrow> Inr (reply ''FAILURE Invalid Credentials'', cur, v)
           | Login_ok userId role name \<Rightarrow>
               (case open_session userId cur (active_sessions v) of
                  (ok, cur1, ss) \<Rightarrow>
                    if \<not> ok then
                      Inr (reply ''FAILURE User is already logged in elsewhere.'', cur, v)
                    else
                      Inr (reply (''SUCCESS '' @ fmt_d (sint userId) @ '' '' @ role @ ''|'' @ name),
                           cur1, v\<lparr>active_sessions := ss\<rparr>))))"

definition handle_request ::
  "env \<Rightarrow> string \<Rightarrow> string \<Rightarrow> uid \<Rightarrow> srv \<Rightarrow> fault + (response \<times> uid \<times> srv)" where
  "handle_request e op payload cur v =
     (if op = ''LOGIN'' then handle_login e payload cur v
      else if op = ''LOGOUT'' then
        Inr (\<lparr>status_code = 0, resp_message = ''Logged out successfully''\<rparr>, 0,
             v\<lparr>active_sessions := remove_active_session cur (active_sessions v)\<rparr>)
      else (case dispatch e op payload (start_st v) of
              Inl f \<Rightarrow> Inl f
            | Inr (code, s) \<Rightarrow>
                Inr (\<lparr>status_code = code, resp_message = resp_msg s\<rparr>, cur,
                     v\<lparr>srv_store := disk s, srv_tick := tick s\<rparr>)))"

section \<open>Connections\<close>

text \<open>
  A thread per connection: \<open>conns\<close> maps an open descriptor to the \<open>current_userId\<close> of its
  thread. \<open>server_step e\<close> is one event of the server: a connection is accepted, a request
  is served, a connection closes (and its thread clears its session).
\<close>

record request_t =
  req_op :: carray
  req_payload :: carray

record bank =
  server :: srv
  conns :: "nat \<Rightarrow> uid option"

definition server_init :: "store \<Rightarrow> bank" where
  "server_init d =
     \<lparr>server = \<lparr>srv_store = d, srv_tick = 0, active_sessions = replicate MAX_CLIENTS 0\<rparr>,
      conns = Map.empty\<rparr>"

definition close_client :: "uid \<Rightarrow> srv \<Rightarrow> srv" where
  \<comment> \<open>the cleanup after the loop of \<open>client_thread_main\<close>\<close>
  "close_client cur v =
     (if cur \<noteq> 0 then v\<lparr>active_sessions := remove_active_session cur (active_sessions v)\<rparr> else v)"

inductive server_step :: "env \<Rightarrow> bank \<Rightarrow> bank \<Rightarrow> bool" for e :: env where
  accept: "conns b fd = None \<Longrightarrow> server_step e b (b\<lparr>conns := (conns b)(fd \<mapsto> 0)\<rparr>)"
| request: "conns b fd = Some cur \<Longrightarrow>
     handle_request e (cstr (req_op (req :: request_t))) (cstr (req_payload req)) cur (server b)
       = Inr (resp, cur', v') \<Longrightarrow>
     server_step e b (b\<lparr>server := v', conns := (conns b)(fd \<mapsto> cur')\<rparr>)"
| disconnect: "conns b fd = Some cur \<Longrightarrow>
     server_step e b (b\<lparr>server := close_client cur (server b), conns := (conns b)(fd := None)\<rparr>)"

end
