(* ===== verification/Money.thy ===== *)
theory Money
  imports Server
begin

text \<open>
  What the customer module promises about money. \<open>abank\<close> is the abstract bank: the
  accounts as a partial map and the log of movements. The specifications move money in one
  step; the theorems show that the operations of \<^verbatim>\<open>customer_module.c\<close>, built from
  separate locked updates and log appends, implement them.
\<close>

section \<open>The abstract bank\<close>

datatype movement =
    Deposited uid double
  | Withdrawn uid double
  | Sent uid uid double
  | Received uid uid double
  | Loan_paid uid double
  | Other_movement

record abank =
  holding :: "uid \<Rightarrow> (double \<times> bool) option"
  movements :: "movement list"

definition movement_of :: "txn_rec \<Rightarrow> movement" where
  "movement_of t =
     (let k = cstr (narration t) in
      if k = ''deposit'' then Deposited (to_account t) (t_amount t)
      else if k = ''withdraw'' then Withdrawn (from_account t) (t_amount t)
      else if k = ''transfer_out'' then Sent (from_account t) (to_account t) (t_amount t)
      else if k = ''transfer_in'' then Received (from_account t) (to_account t) (t_amount t)
      else if k = ''loan_deposit'' then Loan_paid (to_account t) (t_amount t)
      else Other_movement)"

definition view_of :: "account_rec \<Rightarrow> double \<times> bool" where
  "view_of a = (balance a, a_active a = STATUS_ACTIVE)"

definition abs_bank :: "st \<Rightarrow> abank" where
  "abs_bank s = \<lparr>holding = (\<lambda>k. map_option view_of (read_account k s)),
                 movements = map movement_of (txns (disk s))\<rparr>"

definition credit :: "uid \<Rightarrow> double \<Rightarrow> abank \<Rightarrow> abank option" where
  \<comment> \<open>an active account gains the amount\<close>
  "credit k x b = (case holding b k of
       None \<Rightarrow> None
     | Some (v, active) \<Rightarrow>
         if active then Some (b\<lparr>holding := (holding b)(k \<mapsto> (dadd v x, active))\<rparr>) else None)"

definition debit :: "uid \<Rightarrow> double \<Rightarrow> abank \<Rightarrow> abank option" where
  \<comment> \<open>an active account that is not short of the amount loses it\<close>
  "debit k x b = (case holding b k of
       None \<Rightarrow> None
     | Some (v, active) \<Rightarrow>
         if active \<and> \<not> dlt v x
         then Some (b\<lparr>holding := (holding b)(k \<mapsto> (dsub v x, active))\<rparr>) else None)"

definition record_moves :: "movement list \<Rightarrow> abank \<Rightarrow> abank" where
  "record_moves ms b = b\<lparr>movements := movements b @ ms\<rparr>"

definition outcome :: "abank \<Rightarrow> abank option \<Rightarrow> bool \<times> abank" where
  "outcome b r = (case r of None \<Rightarrow> (False, b) | Some b' \<Rightarrow> (True, b'))"

definition deposit_spec :: "uid \<Rightarrow> double \<Rightarrow> abank \<Rightarrow> bool \<times> abank" where
  "deposit_spec k x b = outcome b
     (if dle x dzero then None else map_option (record_moves [Deposited k x]) (credit k x b))"

definition withdraw_spec :: "uid \<Rightarrow> double \<Rightarrow> abank \<Rightarrow> bool \<times> abank" where
  "withdraw_spec k x b = outcome b
     (if dle x dzero then None else map_option (record_moves [Withdrawn k x]) (debit k x b))"

definition transfer_spec :: "uid \<Rightarrow> uid \<Rightarrow> double \<Rightarrow> abank \<Rightarrow> bool \<times> abank" where
  "transfer_spec f t x b = outcome b
     (if f = t \<or> dle x dzero then None
      else Option.bind (debit f x b)
             (\<lambda>b1. map_option (record_moves [Sent f t x, Received f t x]) (credit t x b1)))"

section \<open>The modifiers\<close>

lemma quiet_modifiers [simp]:
  "quiet (deposit_modifier x)" "quiet (withdraw_modifier x)" "quiet (set_status_modifier v)"
  by (auto simp: quiet_def deposit_modifier_def withdraw_modifier_def set_status_modifier_def)

lemma keeps_modifiers [simp]:
  "keeps a_user_id (deposit_modifier x)" "keeps a_user_id (withdraw_modifier x)"
  "keeps a_user_id (set_status_modifier v)"
  by (auto simp: keeps_def deposit_modifier_def withdraw_modifier_def set_status_modifier_def)

lemma mk_txn_simps [simp]:
  "movement_of ((mk_txn f t x w ''deposit'')\<lparr>txn_id := n\<rparr>) = Deposited t x"
  "movement_of ((mk_txn f t x w ''withdraw'')\<lparr>txn_id := n\<rparr>) = Withdrawn f x"
  "movement_of ((mk_txn f t x w ''transfer_out'')\<lparr>txn_id := n\<rparr>) = Sent f t x"
  "movement_of ((mk_txn f t x w ''transfer_in'')\<lparr>txn_id := n\<rparr>) = Received f t x"
  "movement_of ((mk_txn f t x w ''loan_deposit'')\<lparr>txn_id := n\<rparr>) = Loan_paid t x"
  by (simp_all add: movement_of_def mk_txn_def cstr_init_array Let_def)

lemma status_not_active [simp]: "a_active a \<noteq> STATUS_ACTIVE \<longleftrightarrow> a_active a = STATUS_INACTIVE"
  by (cases "a_active a") simp_all

lemma status_not_inactive [simp]: "a_active a \<noteq> STATUS_INACTIVE \<longleftrightarrow> a_active a = STATUS_ACTIVE"
  by (cases "a_active a") simp_all

text \<open>What an update does to the abstract bank, when nothing fails.\<close>

lemma abs_bank_say [simp]: "abs_bank (say m s) = abs_bank s"
  by (simp add: abs_bank_def read_account_def)

lemma update_refines:
  assumes "io_ok e" "quiet m" "keeps a_user_id m" "atomic_update_account e k m s = (ok, s')"
  shows "case read_account k s of
      None \<Rightarrow> \<not> ok \<and> abs_bank s' = abs_bank s
    | Some a \<Rightarrow> ok = fst (m a s) \<and>
        abs_bank s' = (if ok then (abs_bank s)\<lparr>holding := (holding (abs_bank s))
          (k \<mapsto> view_of (fst (snd (m a s))))\<rparr> else abs_bank s)"
proof -
  obtain f where rest: "disk s' = (disk s)\<lparr>accounts_db := f\<rparr>"
    using account_update_rest [OF assms(4,2)] by auto
  have failed: "abs_bank s' = abs_bank s" if "\<not> ok"
    using account_update_fail [of e k m s s'] that assms rest
    by (auto simp: abs_bank_def)
  show ?thesis
  proof (cases "read_account k s")
    case None
    then show ?thesis
      using account_update_missing [OF assms(4,2,3)] failed by simp
  next
    case (Some a)
    have ok: "ok = fst (m a s)"
      using account_update_io_ok [OF assms(1) Some, of m] assms(4)
      by (metis fst_conv prod.collapse)
    have "abs_bank s' = (abs_bank s)\<lparr>holding := (holding (abs_bank s))
          (k \<mapsto> view_of (fst (snd (m a s))))\<rparr>" if "ok"
    proof -
      from account_update_done [of e k m s s'] that assms Some
      have k: "read_account k s' = Some (fst (snd (m a s)))" by auto
      have "read_account j s' = read_account j s" if "j \<noteq> k" for j
        using account_update_frame [OF assms(4,2,3) that] .
      with k show ?thesis
        using rest by (auto simp: abs_bank_def fun_eq_iff)
    qed
    with Some ok failed show ?thesis by auto
  qed
qed

lemma log_refines:
  assumes "io_ok e"
  shows "\<exists>tx' s'. append_transaction e tx s = (True, tx', s') \<and>
    abs_bank s' = record_moves [movement_of tx'] (abs_bank s) \<and>
    tx' = tx\<lparr>txn_id := of_nat (length (txns (disk s)) + 1)\<rparr>"
proof -
  from append_transaction_io_ok [OF assms, of tx s] obtain s' where
    "append_transaction e tx s =
      (True, tx\<lparr>txn_id := of_nat (length (txns (disk s)) + 1)\<rparr>, s')"
    "disk s' = (disk s)\<lparr>txns_db :=
      Some (txns (disk s) @ [tx\<lparr>txn_id := of_nat (length (txns (disk s)) + 1)\<rparr>])\<rparr>" by blast
  then show ?thesis
    by (intro exI [of _ "tx\<lparr>txn_id := of_nat (length (txns (disk s)) + 1)\<rparr>"] exI [of _ s'])
       (simp add: abs_bank_def record_moves_def read_account_def)
qed

lemma deposit_update_refines:
  assumes "io_ok e" "atomic_update_account e k (deposit_modifier x) s = (ok, s')"
  shows "(ok, abs_bank s') = outcome (abs_bank s) (credit k x (abs_bank s))"
  using update_refines [OF assms(1) _ _ assms(2)]
  by (cases "read_account k s")
     (auto simp: outcome_def credit_def abs_bank_def view_of_def deposit_modifier_def
           split: if_splits)

lemma withdraw_update_refines:
  assumes "io_ok e" "atomic_update_account e k (withdraw_modifier x) s = (ok, s')"
  shows "(ok, abs_bank s') = outcome (abs_bank s) (debit k x (abs_bank s))"
  using update_refines [OF assms(1) _ _ assms(2)]
  by (cases "read_account k s")
     (auto simp: outcome_def debit_def abs_bank_def view_of_def withdraw_modifier_def
           split: if_splits)

section \<open>Refinement\<close>

lemma log_step:
  assumes "io_ok e" "append_transaction e tx s = (ok, tx', s')"
  shows "abs_bank s' = record_moves [movement_of (tx\<lparr>txn_id := of_nat (length (txns (disk s)) + 1)\<rparr>)]
           (abs_bank s)"
  using log_refines [OF assms(1), of tx s] assms(2) by auto

lemma record_moves_twice: "record_moves ms (record_moves ns b) = record_moves (ns @ ms) b"
  by (simp add: record_moves_def)

text \<open>
  Without I/O failures \<open>deposit_money\<close> implements the one-step deposit: it
  refuses a non-positive amount and a missing or inactive account without any effect, and
  otherwise adds the amount to that account alone and logs exactly one movement.
\<close>

lemma deposit_money_spec:
  assumes "io_ok e" "deposit_money e k x s = (ok, s')"
  shows "(ok, abs_bank s') = deposit_spec k x (abs_bank s)"
proof (cases "dle x dzero")
  case True
  with assms show ?thesis by (auto simp: deposit_money_def deposit_spec_def outcome_def)
next
  case False
  obtain u s1 where u: "atomic_update_account e k (deposit_modifier x) s = (u, s1)" by fastforce
  obtain a tx s2 where l: "append_transaction e (mk_txn 0 k x (now e (tick s1)) ''deposit'') s1
      = (a, tx, s2)" by (cases "append_transaction e (mk_txn 0 k x (now e (tick s1)) ''deposit'') s1")
  note up = deposit_update_refines [OF assms(1) u]
  show ?thesis
  proof (cases u)
    case True
    with False u l assms(2) have "ok" "abs_bank s' = abs_bank s2"
      by (auto simp: deposit_money_def)
    with up True log_step [OF assms(1) l] False show ?thesis
      by (cases "credit k x (abs_bank s)") (auto simp: deposit_spec_def outcome_def)
  next
    case nu: False
    with False u assms(2) have "\<not> ok" "abs_bank s' = abs_bank s1"
      by (auto simp: deposit_money_def split: option.splits if_splits)
    with up nu False show ?thesis
      by (cases "credit k x (abs_bank s)") (auto simp: deposit_spec_def outcome_def)
  qed
qed

text \<open>
  Without I/O failures \<open>withdraw_money\<close> implements the one-step withdrawal: it takes
  the amount from an active account that covers it and logs one movement, and refuses
  everything else without any effect.
\<close>

lemma withdraw_money_spec:
  assumes "io_ok e" "withdraw_money e k x s = (ok, s')"
  shows "(ok, abs_bank s') = withdraw_spec k x (abs_bank s)"
proof (cases "dle x dzero")
  case True
  with assms show ?thesis by (auto simp: withdraw_money_def withdraw_spec_def outcome_def)
next
  case False
  obtain u s1 where u: "atomic_update_account e k (withdraw_modifier x) s = (u, s1)" by fastforce
  obtain a tx s2 where l: "append_transaction e (mk_txn k 0 x (now e (tick s1)) ''withdraw'') s1
      = (a, tx, s2)" by (cases "append_transaction e (mk_txn k 0 x (now e (tick s1)) ''withdraw'') s1")
  note up = withdraw_update_refines [OF assms(1) u]
  show ?thesis
  proof (cases u)
    case True
    with False u l assms(2) have "ok" "abs_bank s' = abs_bank s2"
      by (auto simp: withdraw_money_def)
    with up True log_step [OF assms(1) l] False show ?thesis
      by (cases "debit k x (abs_bank s)") (auto simp: withdraw_spec_def outcome_def)
  next
    case nu: False
    with False u assms(2) have "\<not> ok" "abs_bank s' = abs_bank s1"
      by (auto simp: withdraw_money_def split: option.splits if_splits)
    with up nu False show ?thesis
      by (cases "debit k x (abs_bank s)") (auto simp: withdraw_spec_def outcome_def)
  qed
qed

text \<open>The recipient check of a transfer, on the abstract bank.\<close>

lemma recipient_check:
  "(case read_account t s of None \<Rightarrow> True | Some a \<Rightarrow> a_active a = STATUS_INACTIVE) \<longleftrightarrow>
     credit t x (abs_bank s) = None"
  by (auto simp: credit_def abs_bank_def view_of_def split: option.splits if_splits)

lemma credit_after_debit:
  "debit f x b = Some b1 \<Longrightarrow> f \<noteq> t \<Longrightarrow> credit t x b1 = None \<longleftrightarrow> credit t x b = None"
  by (auto simp: credit_def debit_def ex_bool_eq split: option.splits if_splits)

text \<open>
  Without I/O failures \<open>transfer_funds\<close>, two separately locked updates and two log
  entries with a roll-back path, implements an atomic transfer: either sender and
  recipient both change and both movements are logged, or nothing changes at all.
\<close>

lemma transfer_funds_spec:
  assumes "io_ok e" "transfer_funds e f t x s = (ok, s')"
  shows "(ok, abs_bank s') = transfer_spec f t x (abs_bank s)"
proof (cases "f = t \<or> dle x dzero \<or> credit t x (abs_bank s) = None")
  case True
  then have "\<not> ok" "abs_bank s' = abs_bank s"
    using assms(2) by (auto simp: transfer_funds_def recipient_check [where x = x] split: if_splits)
  moreover have "Option.bind (debit f x (abs_bank s))
      (\<lambda>b1. map_option (record_moves [Sent f t x, Received f t x]) (credit t x b1)) = None"
    if "f \<noteq> t" "credit t x (abs_bank s) = None"
    using that credit_after_debit [of f x "abs_bank s"]
    by (cases "debit f x (abs_bank s)") auto
  ultimately show ?thesis
    using True by (auto simp: transfer_spec_def outcome_def)
next
  case False
  obtain w s1 where w: "atomic_update_account e f (withdraw_modifier x) s = (w, s1)" by fastforce
  note wr = withdraw_update_refines [OF assms(1) w]
  show ?thesis
  proof (cases "debit f x (abs_bank s)")
    case None
    with wr have "\<not> w" "abs_bank s1 = abs_bank s" by (auto simp: outcome_def)
    with False w assms(2) have "\<not> ok" "abs_bank s' = abs_bank s"
      by (auto simp: transfer_funds_def recipient_check [where x = x] split: option.splits if_splits)
    with None False show ?thesis by (simp add: transfer_spec_def outcome_def)
  next
    case (Some b1)
    with wr have w1: "w" "abs_bank s1 = b1" by (auto simp: outcome_def)
    obtain d s2 where d: "atomic_update_account e t (deposit_modifier x) s1 = (d, s2)" by fastforce
    from False Some credit_after_debit obtain b2 where b2: "credit t x b1 = Some b2" by fastforce
    with deposit_update_refines [OF assms(1) d] w1 have d1: "d" "abs_bank s2 = b2"
      by (auto simp: outcome_def)
    let ?tx = "mk_txn f t x (now e (tick s2))"
    obtain a3 t3 s3 where l3: "append_transaction e (?tx ''transfer_out'') s2 = (a3, t3, s3)"
      by (cases "append_transaction e (?tx ''transfer_out'') s2")
    obtain a4 t4 s4 where l4: "append_transaction e (?tx ''transfer_in'') s3 = (a4, t4, s4)"
      by (cases "append_transaction e (?tx ''transfer_in'') s3")
    from False w w1 d d1 l3 l4 assms(2) have "ok" "abs_bank s' = abs_bank s4"
      by (auto simp: transfer_funds_def recipient_check [where x = x] Let_def split: if_splits)
    with False Some b2 d1 log_step [OF assms(1) l3] log_step [OF assms(1) l4] show ?thesis
      by (simp add: transfer_spec_def outcome_def record_moves_twice)
  qed
qed

end
