(* ===== verification/Moves.thy ===== *)
theory Moves
  imports Money
begin

text \<open>
  The moves of the bank: what one request can do to the five tables when no creation, lock
  or write fails. \<open>move\<close> lists the possibilities at the level of records; the lemmas of this theory
  show that every route of the server makes one of them. Invariants are then proved once
  per move instead of once per operation.
\<close>

section \<open>Tables\<close>

record tables =
  t_users :: "user_rec list"
  t_accounts :: "account_rec list"
  t_txns :: "txn_rec list"
  t_loans :: "loan_rec list"
  t_fbs :: "feedback_rec list"

definition tables_of :: "store \<Rightarrow> tables" where
  "tables_of d = \<lparr>t_users = users d, t_accounts = accounts d, t_txns = txns d,
     t_loans = loans d, t_fbs = feedbacks d\<rparr>"

lemma tables_of_sel [simp]:
  "t_users (tables_of d) = users d" "t_accounts (tables_of d) = accounts d"
  "t_txns (tables_of d) = txns d" "t_loans (tables_of d) = loans d"
  "t_fbs (tables_of d) = feedbacks d"
  by (simp_all add: tables_of_def)

lemma tables_of_upd [simp]:
  "tables_of (d\<lparr>users_db := Some us\<rparr>) = (tables_of d)\<lparr>t_users := us\<rparr>"
  "tables_of (d\<lparr>accounts_db := Some as\<rparr>) = (tables_of d)\<lparr>t_accounts := as\<rparr>"
  "tables_of (d\<lparr>txns_db := Some ts\<rparr>) = (tables_of d)\<lparr>t_txns := ts\<rparr>"
  "tables_of (d\<lparr>loans_db := Some ls\<rparr>) = (tables_of d)\<lparr>t_loans := ls\<rparr>"
  "tables_of (d\<lparr>feedback_db := Some fs\<rparr>) = (tables_of d)\<lparr>t_fbs := fs\<rparr>"
  by (simp_all add: tables_of_def)

lemma tables_same [simp]:
  "t\<lparr>t_users := t_users t\<rparr> = t" "t\<lparr>t_accounts := t_accounts t\<rparr> = t" "t\<lparr>t_txns := t_txns t\<rparr> = t"
  "t\<lparr>t_loans := t_loans t\<rparr> = t" "t\<lparr>t_fbs := t_fbs t\<rparr> = t" for t :: tables
  by simp_all

lemma tables_of_create [simp]:
  "(tables_of d)\<lparr>t_users := users d\<rparr> = tables_of d" "(tables_of d)\<lparr>t_accounts := accounts d\<rparr> = tables_of d"
  "(tables_of d)\<lparr>t_txns := txns d\<rparr> = tables_of d" "(tables_of d)\<lparr>t_loans := loans d\<rparr> = tables_of d"
  "(tables_of d)\<lparr>t_fbs := feedbacks d\<rparr> = tables_of d"
  by (simp_all add: tables_of_def)

section \<open>Well-formed users\<close>

definition user_wf :: "user_rec \<Rightarrow> bool" where
  \<comment> \<open>every character array ends in NUL\<close>
  "user_wf u \<longleftrightarrow> terminated MAX_USERNAME_LEN (username u) \<and>
     terminated MAX_PASSWORD_LEN (password_hash u) \<and> terminated MAX_FNAME_LEN (first_name u) \<and>
     terminated MAX_LNAME_LEN (last_name u) \<and> terminated MAX_ADDR_LEN (address u) \<and>
     terminated MAX_EMAIL_LEN (email u) \<and> terminated MAX_PHONE_LEN (phone u)"

definition next_uid :: "user_rec list \<Rightarrow> uid" where
  "next_uid us = of_nat (1001 + length us)"

definition next_id :: "'r list \<Rightarrow> 64 word" where
  "next_id rs = of_nat (length rs + 1)"

definition no_clash :: "user_rec \<Rightarrow> user_rec \<Rightarrow> bool" where
  \<comment> \<open>two users that share no user name, e-mail or phone\<close>
  "no_clash u v \<longleftrightarrow> cstr (username u) \<noteq> cstr (username v) \<and> cstr (email u) \<noteq> cstr (email v) \<and>
     cstr (phone u) \<noteq> cstr (phone v)"

section \<open>The moves\<close>

text \<open>
  \<open>chk\<close> says that the contact data a request stores is what the uniqueness check compared: then
  an edited or enrolled user clashes with nobody. Nothing else depends on it.
\<close>

inductive move :: "bool \<Rightarrow> tables \<Rightarrow> tables \<Rightarrow> bool" for chk :: bool where
  stay: "move chk t t"
| edit_user: "\<lbrakk>i < length (t_users t); u = t_users t ! i; u_user_id u' = u_user_id u;
    username u' = username u; u_active u' = u_active u;
    (u_role u' = ROLE_CUSTOMER) = (u_role u = ROLE_CUSTOMER);
    chk \<Longrightarrow> (email u' = email u \<and> phone u' = phone u) \<or>
      (\<forall>v\<in>set (t_users t). u_user_id v \<noteq> u_user_id u \<longrightarrow> no_clash u' v)\<rbrakk>
    \<Longrightarrow> move chk t (t\<lparr>t_users := (t_users t)[i := u']\<rparr>)"
| hire: "\<lbrakk>u_user_id u = next_uid (t_users t); u_role u \<noteq> ROLE_CUSTOMER;
    \<forall>v\<in>set (t_users t). no_clash u v\<rbrakk>
    \<Longrightarrow> move chk t (t\<lparr>t_users := t_users t @ [u]\<rparr>)"
| enroll: "\<lbrakk>u_user_id u = next_uid (t_users t); u_role u = ROLE_CUSTOMER;
    chk \<Longrightarrow> \<forall>v\<in>set (t_users t). no_clash u v;
    a_user_id a = u_user_id u; account_id a = u_user_id u; balance a = dzero\<rbrakk>
    \<Longrightarrow> move chk t (t\<lparr>t_users := t_users t @ [u], t_accounts := t_accounts t @ [a]\<rparr>)"
| set_status: "\<lbrakk>i < length (t_accounts t)\<rbrakk>
    \<Longrightarrow> move chk t (t\<lparr>t_accounts := (t_accounts t)[i := (t_accounts t ! i)\<lparr>a_active := v\<rparr>]\<rparr>)"
| deposit: "\<lbrakk>i < length (t_accounts t); a = t_accounts t ! i; a_active a = STATUS_ACTIVE;
    \<not> dle x dzero; txn_id tx = next_id (t_txns t); movement_of tx = Deposited (a_user_id a) x;
    from_account tx = 0; to_account tx = a_user_id a\<rbrakk>
    \<Longrightarrow> move chk t (t\<lparr>t_accounts := (t_accounts t)[i := a\<lparr>balance := dadd (balance a) x\<rparr>],
                t_txns := t_txns t @ [tx]\<rparr>)"
| withdraw: "\<lbrakk>i < length (t_accounts t); a = t_accounts t ! i; a_active a = STATUS_ACTIVE;
    \<not> dle x dzero; \<not> dlt (balance a) x; txn_id tx = next_id (t_txns t);
    movement_of tx = Withdrawn (a_user_id a) x; from_account tx = a_user_id a; to_account tx = 0\<rbrakk>
    \<Longrightarrow> move chk t (t\<lparr>t_accounts := (t_accounts t)[i := a\<lparr>balance := dsub (balance a) x\<rparr>],
                t_txns := t_txns t @ [tx]\<rparr>)"
| transfer: "\<lbrakk>i < length (t_accounts t); j < length (t_accounts t); i \<noteq> j;
    a = t_accounts t ! i; b = t_accounts t ! j; a_active a = STATUS_ACTIVE; a_active b = STATUS_ACTIVE;
    \<not> dle x dzero; \<not> dlt (balance a) x;
    txn_id tx1 = next_id (t_txns t); txn_id tx2 = next_id (t_txns t @ [tx1]);
    movement_of tx1 = Sent (a_user_id a) (a_user_id b) x;
    movement_of tx2 = Received (a_user_id a) (a_user_id b) x;
    from_account tx1 = a_user_id a; to_account tx1 = a_user_id b;
    from_account tx2 = a_user_id a; to_account tx2 = a_user_id b\<rbrakk>
    \<Longrightarrow> move chk t (t\<lparr>t_accounts := (t_accounts t)[i := a\<lparr>balance := dsub (balance a) x\<rparr>,
                                            j := b\<lparr>balance := dadd (balance b) x\<rparr>],
                t_txns := t_txns t @ [tx1, tx2]\<rparr>)"
| apply_for_loan: "\<lbrakk>loan_id l = next_id (t_loans t); l_status l = LOAN_PENDING; assigned_to l = 0;
    \<not> dle (l_amount l) dzero\<rbrakk>
    \<Longrightarrow> move chk t (t\<lparr>t_loans := t_loans t @ [l]\<rparr>)"
| assign_loan: "\<lbrakk>i < length (t_loans t); l = t_loans t ! i; l_status l = LOAN_PENDING;
    u \<in> set (t_users t); u_user_id u = k; u_role u = ROLE_EMPLOYEE\<rbrakk>
    \<Longrightarrow> move chk t (t\<lparr>t_loans := (t_loans t)[i := l\<lparr>assigned_to := k, l_status := LOAN_ASSIGNED\<rparr>]\<rparr>)"
| reject_loan: "\<lbrakk>i < length (t_loans t); l = t_loans t ! i; l_status l = LOAN_ASSIGNED\<rbrakk>
    \<Longrightarrow> move chk t (t\<lparr>t_loans := (t_loans t)[i := l\<lparr>l_status := LOAN_REJECTED, processed_at := w\<rparr>]\<rparr>)"
| approve_loan: "\<lbrakk>i < length (t_loans t); l = t_loans t ! i; l_status l = LOAN_ASSIGNED;
    j < length (t_accounts t); a = t_accounts t ! j; a_user_id a = l_user_id l;
    a_active a = STATUS_ACTIVE; txn_id tx = next_id (t_txns t);
    movement_of tx = Loan_paid (l_user_id l) (l_amount l);
    from_account tx = 0; to_account tx = l_user_id l\<rbrakk>
    \<Longrightarrow> move chk t (t\<lparr>t_accounts := (t_accounts t)[j := a\<lparr>balance := dadd (balance a) (l_amount l)\<rparr>],
                t_txns := t_txns t @ [tx],
                t_loans := (t_loans t)[i := l\<lparr>l_status := LOAN_APPROVED, processed_at := w\<rparr>]\<rparr>)"
| give_feedback: "\<lbrakk>fb_id f = next_id (t_fbs t); reviewed f = 0\<rbrakk>
    \<Longrightarrow> move chk t (t\<lparr>t_fbs := t_fbs t @ [f]\<rparr>)"
| review: "move chk t (t\<lparr>t_fbs := map (\<lambda>f. if reviewed f = 0 then f\<lparr>reviewed := 1\<rparr> else f) (t_fbs t)\<rparr>)"

section \<open>Updates of one table\<close>

lemma user_update_tables:
  assumes "atomic_update_user e k m s = (ok, s')" "quiet m"
  shows "tables_of (disk s') = tables_of (disk s) \<or>
    (\<exists>i r s1. i < length (users (disk s)) \<and> u_user_id (users (disk s) ! i) = k \<and>
       m (users (disk s) ! i) s = (True, r, s1) \<and>
       tables_of (disk s') = (tables_of (disk s))\<lparr>t_users := (users (disk s))[i := r]\<rparr>)"
proof (cases ok)
  case True
  with users.atomic_update_quiet [OF assms [unfolded atomic_update_user_def]] obtain i rs r s1 where
    "find_user_offset k (disk s) = Some i" "users_db (disk s) = Some rs" "i < length rs"
    "m (rs ! i) s = (True, r, s1)" "disk s' = (disk s)\<lparr>users_db := Some (rs[i := r])\<rparr>" by auto
  moreover from this have "u_user_id (rs ! i) = k"
    by (auto simp: find_user_offset_def find_offset_def dest: scan_offset_SomeD)
  ultimately show ?thesis by auto
next
  case False
  then show ?thesis
    using users.atomic_update_quiet [OF assms [unfolded atomic_update_user_def]] by simp
qed

lemma account_update_tables:
  assumes "atomic_update_account e k m s = (ok, s')" "quiet m"
  shows "if ok then (\<exists>i r s1. i < length (accounts (disk s)) \<and> a_user_id (accounts (disk s) ! i) = k \<and>
       m (accounts (disk s) ! i) s = (True, r, s1) \<and> find_account_offset k (disk s) = Some i \<and>
       disk s' = (disk s)\<lparr>accounts_db := Some ((accounts (disk s))[i := r])\<rparr>)
     else disk s' = disk s"
proof (cases ok)
  case True
  with accts.atomic_update_quiet [OF assms [unfolded atomic_update_account_def]] obtain i rs r s1 where
    "find_account_offset k (disk s) = Some i" "accounts_db (disk s) = Some rs" "i < length rs"
    "m (rs ! i) s = (True, r, s1)" "disk s' = (disk s)\<lparr>accounts_db := Some (rs[i := r])\<rparr>" by auto
  moreover from this have "a_user_id (rs ! i) = k"
    by (auto simp: find_account_offset_def find_offset_def dest: scan_offset_SomeD)
  ultimately show ?thesis using True by auto
next
  case False
  then show ?thesis
    using accts.atomic_update_quiet [OF assms [unfolded atomic_update_account_def]] by simp
qed

lemma loan_update_tables:
  assumes "atomic_update_loan e k m s = (ok, s')" "quiet m"
  shows "tables_of (disk s') = tables_of (disk s) \<or>
    (\<exists>i r s1. i < length (loans (disk s)) \<and> loan_id (loans (disk s) ! i) = k \<and>
       m (loans (disk s) ! i) s = (True, r, s1) \<and>
       tables_of (disk s') = (tables_of (disk s))\<lparr>t_loans := (loans (disk s))[i := r]\<rparr>)"
proof (cases ok)
  case True
  with loans.atomic_update_quiet [OF assms [unfolded atomic_update_loan_def]] obtain i rs r s1 where
    "find_loan_offset k (disk s) = Some i" "loans_db (disk s) = Some rs" "i < length rs"
    "m (rs ! i) s = (True, r, s1)" "disk s' = (disk s)\<lparr>loans_db := Some (rs[i := r])\<rparr>" by auto
  moreover from this have "loan_id (rs ! i) = k"
    by (auto simp: find_loan_offset_def find_offset_def dest: scan_offset_SomeD)
  ultimately show ?thesis by auto
next
  case False
  then show ?thesis
    using loans.atomic_update_quiet [OF assms [unfolded atomic_update_loan_def]] by simp
qed

lemma log_tables:
  assumes "io_ok e" "append_transaction e tx s = (ok, tx', s')"
  shows "disk s' = (disk s)\<lparr>txns_db := Some (txns (disk s) @ [tx\<lparr>txn_id := next_id (txns (disk s))\<rparr>])\<rparr>"
  using append_transaction_io_ok [OF assms(1), of tx s] assms(2)
  by (auto simp: next_id_def)

section \<open>The operations of the modules as moves\<close>

lemma mk_txn_sel [simp]:
  "from_account (mk_txn f t x w n) = f" "to_account (mk_txn f t x w n) = t"
  "t_amount (mk_txn f t x w n) = x"
  by (simp_all add: mk_txn_def)

text \<open>The moves on the tables of a store.\<close>

lemmas store_move_deposit = move.deposit [where t = "tables_of d" for d, unfolded tables_of_sel]
lemmas store_move_withdraw = move.withdraw [where t = "tables_of d" for d, unfolded tables_of_sel]
lemmas store_move_transfer = move.transfer [where t = "tables_of d" for d, unfolded tables_of_sel]
lemmas store_move_edit = move.edit_user [where t = "tables_of d" for d, unfolded tables_of_sel]
lemmas store_move_hire = move.hire [where t = "tables_of d" for d, unfolded tables_of_sel]
lemmas store_move_enroll = move.enroll [where t = "tables_of d" for d, unfolded tables_of_sel]
lemmas store_move_status = move.set_status [where t = "tables_of d" for d, unfolded tables_of_sel]
lemmas store_move_apply = move.apply_for_loan [where t = "tables_of d" for d, unfolded tables_of_sel]
lemmas store_move_assign = move.assign_loan [where t = "tables_of d" for d, unfolded tables_of_sel]
lemmas store_move_reject = move.reject_loan [where t = "tables_of d" for d, unfolded tables_of_sel]
lemmas store_move_approve = move.approve_loan [where t = "tables_of d" for d, unfolded tables_of_sel]
lemmas store_move_feedback = move.give_feedback [where t = "tables_of d" for d, unfolded tables_of_sel]
lemmas store_move_review = move.review [where t = "tables_of d" for d, unfolded tables_of_sel]

named_theorems route_moves \<open>each operation makes a move\<close>

lemma deposit_money_move [route_moves]:
  assumes "io_ok e" "deposit_money e k x s = (ok, s')"
  shows "move chk (tables_of (disk s)) (tables_of (disk s'))"
proof (cases "dle x dzero")
  case True
  with assms show ?thesis by (auto simp: deposit_money_def intro: move.stay)
next
  case False
  obtain u s1 where u: "atomic_update_account e k (deposit_modifier x) s = (u, s1)" by fastforce
  obtain a tx s2 where l: "append_transaction e (mk_txn 0 k x (now e (tick s1)) ''deposit'') s1
      = (a, tx, s2)" by (cases "append_transaction e (mk_txn 0 k x (now e (tick s1)) ''deposit'') s1")
  show ?thesis
  proof (cases u)
    case nu: False
    have "disk s1 = disk s" using account_update_tables [OF u] nu by simp
    moreover have "disk s' = disk s1"
      using nu False u assms(2)
      by (auto simp: deposit_money_def split: option.splits if_splits)
    ultimately show ?thesis by (simp add: move.stay)
  next
    case True
    with account_update_tables [OF u] obtain i r t where
      i: "i < length (accounts (disk s))" "a_user_id (accounts (disk s) ! i) = k"
        "deposit_modifier x (accounts (disk s) ! i) s = (True, r, t)"
        "disk s1 = (disk s)\<lparr>accounts_db := Some ((accounts (disk s))[i := r])\<rparr>" by auto
    have "disk s' = disk s2" using True False u l assms(2) by (auto simp: deposit_money_def)
    then show ?thesis
      using log_tables [OF assms(1) l] i False
      by (auto simp: deposit_modifier_def split: if_splits intro!: store_move_deposit)
  qed
qed

lemma withdraw_money_move [route_moves]:
  assumes "io_ok e" "withdraw_money e k x s = (ok, s')"
  shows "move chk (tables_of (disk s)) (tables_of (disk s'))"
proof (cases "dle x dzero")
  case True
  with assms show ?thesis by (auto simp: withdraw_money_def intro: move.stay)
next
  case False
  obtain u s1 where u: "atomic_update_account e k (withdraw_modifier x) s = (u, s1)" by fastforce
  obtain a tx s2 where l: "append_transaction e (mk_txn k 0 x (now e (tick s1)) ''withdraw'') s1
      = (a, tx, s2)" by (cases "append_transaction e (mk_txn k 0 x (now e (tick s1)) ''withdraw'') s1")
  show ?thesis
  proof (cases u)
    case nu: False
    have "disk s1 = disk s" using account_update_tables [OF u] nu by simp
    moreover have "disk s' = disk s1"
      using nu False u assms(2)
      by (auto simp: withdraw_money_def split: option.splits if_splits)
    ultimately show ?thesis by (simp add: move.stay)
  next
    case True
    with account_update_tables [OF u] obtain i r t where
      i: "i < length (accounts (disk s))" "a_user_id (accounts (disk s) ! i) = k"
        "withdraw_modifier x (accounts (disk s) ! i) s = (True, r, t)"
        "disk s1 = (disk s)\<lparr>accounts_db := Some ((accounts (disk s))[i := r])\<rparr>" by auto
    have "disk s' = disk s2" using True False u l assms(2) by (auto simp: withdraw_money_def)
    then show ?thesis
      using log_tables [OF assms(1) l] i False
      by (auto simp: withdraw_modifier_def split: if_splits intro!: store_move_withdraw)
  qed
qed

text \<open>The deposit into the account that \<open>read_account\<close> found active succeeds.\<close>

lemma deposit_succeeds:
  assumes "io_ok e" "read_account k s = Some a" "a_active a = STATUS_ACTIVE"
    "atomic_update_account e k (deposit_modifier x) s = (ok, s')"
  shows "ok"
  using account_update_io_ok [OF assms(1,2), of "deposit_modifier x"] assms(3,4)
  by (auto simp: deposit_modifier_def)

lemma transfer_funds_cases:
  assumes "io_ok e" "transfer_funds e f t x s = (ok, s')"
  obtains (refused) "\<not> ok" "disk s' = disk s"
  | (moved) i j a b tx1 tx2 where "ok" "i < length (accounts (disk s))" "j < length (accounts (disk s))"
      "i \<noteq> j" "a = accounts (disk s) ! i" "b = accounts (disk s) ! j" "a_user_id a = f" "a_user_id b = t"
      "a_active a = STATUS_ACTIVE" "a_active b = STATUS_ACTIVE" "\<not> dle x dzero" "\<not> dlt (balance a) x"
      "txn_id tx1 = next_id (txns (disk s))" "txn_id tx2 = next_id (txns (disk s) @ [tx1])"
      "movement_of tx1 = Sent f t x" "movement_of tx2 = Received f t x"
      "from_account tx1 = f" "to_account tx1 = t" "from_account tx2 = f" "to_account tx2 = t"
      "disk s' = (disk s)\<lparr>accounts_db := Some ((accounts (disk s))
           [i := a\<lparr>balance := dsub (balance a) x\<rparr>, j := b\<lparr>balance := dadd (balance b) x\<rparr>]),
         txns_db := Some (txns (disk s) @ [tx1, tx2])\<rparr>"
proof -
  obtain w s1 where w: "atomic_update_account e f (withdraw_modifier x) s = (w, s1)" by fastforce
  consider (early) "f = t \<or> dle x dzero \<or> (case read_account t s of None \<Rightarrow> True
        | Some a \<Rightarrow> a_active a = STATUS_INACTIVE)"
    | (short) "\<not> (f = t \<or> dle x dzero)" "\<not> w"
    | (go) b where "f \<noteq> t" "\<not> dle x dzero" "read_account t s = Some b" "a_active b = STATUS_ACTIVE" w
    by (cases "read_account t s"; cases w; fastforce)
  then show thesis
  proof cases
    case early
    with assms(2) show thesis by (intro refused) (auto simp: transfer_funds_def split: if_splits)
  next
    case short
    then have "disk s1 = disk s" using account_update_tables [OF w] by simp
    with short w assms(2) show thesis
      by (intro refused) (auto simp: transfer_funds_def split: option.splits if_splits)
  next
    case go
    obtain d s2 where d: "atomic_update_account e t (deposit_modifier x) s1 = (d, s2)" by fastforce
    have "read_account t s1 = Some b"
      using account_update_frame [OF w] go(1,3) by simp
    then have d1: d using deposit_succeeds [OF assms(1) _ go(4) d] by simp
    from account_update_tables [OF w] go(5) obtain i r q where
      i: "i < length (accounts (disk s))" "a_user_id (accounts (disk s) ! i) = f"
        "withdraw_modifier x (accounts (disk s) ! i) s = (True, r, q)"
        "disk s1 = (disk s)\<lparr>accounts_db := Some ((accounts (disk s))[i := r])\<rparr>" by auto
    then have rf: "a_user_id r = f" by (auto simp: withdraw_modifier_def split: if_splits)
    from account_update_tables [OF d] d1 obtain j r' q' where
      j: "j < length (accounts (disk s1))" "a_user_id (accounts (disk s1) ! j) = t"
        "deposit_modifier x (accounts (disk s1) ! j) s1 = (True, r', q')"
        "disk s2 = (disk s1)\<lparr>accounts_db := Some ((accounts (disk s1))[j := r'])\<rparr>" by auto
    have ij: "i \<noteq> j" using i j rf go(1) by auto
    let ?tx = "mk_txn f t x (now e (tick s2))"
    obtain a3 t3 s3 where l3: "append_transaction e (?tx ''transfer_out'') s2 = (a3, t3, s3)"
      by (cases "append_transaction e (?tx ''transfer_out'') s2")
    obtain a4 t4 s4 where l4: "append_transaction e (?tx ''transfer_in'') s3 = (a4, t4, s4)"
      by (cases "append_transaction e (?tx ''transfer_in'') s3")
    have "ok" "disk s' = disk s4"
      using go w d d1 l3 l4 assms(2) by (auto simp: transfer_funds_def Let_def)
    then show thesis
      using log_tables [OF assms(1) l3] log_tables [OF assms(1) l4] i j ij go(2)
      by (auto simp: withdraw_modifier_def deposit_modifier_def split: if_splits
               intro!: moved [of i j _ _ "(?tx ''transfer_out'')\<lparr>txn_id := next_id (txns (disk s2))\<rparr>"])
  qed
qed

lemma transfer_funds_move [route_moves]:
  assumes "io_ok e" "transfer_funds e f t x s = (ok, s')"
  shows "move chk (tables_of (disk s)) (tables_of (disk s'))"
  using assms
proof (cases rule: transfer_funds_cases)
  case refused
  then show ?thesis by (simp add: move.stay)
next
  case (moved i j a b tx1 tx2)
  from store_move_transfer [of i "disk s" j a b x tx1 tx2 chk] moved show ?thesis by simp
qed

end
