(* ===== verification/RouteMoves.thy ===== *)
theory RouteMoves
  imports Moves
begin

text \<open>
  The remaining operations as moves of the bank, up to the request router: every route of
  the server, run without I/O failures, makes one of the moves of
  \<open>Moves\<close>.
\<close>

section \<open>Accounts, loans, feedback\<close>

lemma set_account_status_move [route_moves]:
  assumes "set_account_status e k v s = (ok, s')"
  shows "move chk (tables_of (disk s)) (tables_of (disk s'))"
proof -
  obtain u s1 where u: "atomic_update_account e k (set_status_modifier v) s = (u, s1)" by fastforce
  have "disk s' = disk s1" using u assms by (auto simp: set_account_status_def split: if_splits)
  with account_update_tables [OF u] show ?thesis
    by (cases u) (auto simp: set_status_modifier_def move.stay intro!: store_move_status)
qed

lemma append_loan_tables:
  assumes "io_ok e" "append_loan e l s = (ok, l', s')"
  shows "ok \<and> l' = l\<lparr>loan_id := next_id (loans (disk s))\<rparr> \<and>
    tables_of (disk s') = (tables_of (disk s))\<lparr>t_loans := loans (disk s) @ [l']\<rparr>"
  using loans.append_recD [OF assms(2) [unfolded append_loan_def]] assms(1)
  by (cases ok) (auto simp: next_id_def)

lemma apply_loan_move [route_moves]:
  assumes "io_ok e" "apply_loan e k x s = (ok, s')"
  shows "move chk (tables_of (disk s)) (tables_of (disk s'))"
proof (cases "dle x dzero")
  case True
  with assms show ?thesis by (auto simp: apply_loan_def move.stay)
next
  case False
  let ?l = "\<lparr>loan_id = 0, l_user_id = k, l_amount = x, l_status = LOAN_PENDING, assigned_to = 0,
    applied_at = now e (tick s), processed_at = 0, remarks = init_array 256 []\<rparr>"
  obtain a l s1 where l: "append_loan e ?l s = (a, l, s1)" by (cases "append_loan e ?l s")
  have "disk s' = disk s1"
    using False l assms(2) by (auto simp: apply_loan_def Let_def split: if_splits)
  with append_loan_tables [OF assms(1) l] False show ?thesis
    by (auto intro!: store_move_apply)
qed

lemma append_feedback_tables:
  assumes "io_ok e" "append_feedback e f s = (ok, f', s')"
  shows "ok \<and> f' = f\<lparr>fb_id := next_id (feedbacks (disk s))\<rparr> \<and>
    tables_of (disk s') = (tables_of (disk s))\<lparr>t_fbs := feedbacks (disk s) @ [f']\<rparr>"
  using fbs.append_recD [OF assms(2) [unfolded append_feedback_def]] assms(1)
  by (cases ok) (auto simp: next_id_def)

lemma add_feedback_move [route_moves]:
  assumes "io_ok e" "add_feedback e k m s = (ok, s')"
  shows "move chk (tables_of (disk s)) (tables_of (disk s'))"
proof -
  let ?f = "\<lparr>fb_id = 0, f_user_id = k, message = strncpy (init_array 512 []) m 511, reviewed = 0,
    action_taken = init_array 256 [], submitted_at = now e (tick s)\<rparr>"
  obtain a f s1 where f: "append_feedback e ?f s = (a, f, s1)" by (cases "append_feedback e ?f s")
  have "disk s' = disk s1"
    using f assms(2) by (auto simp: add_feedback_def Let_def split: if_splits)
  with append_feedback_tables [OF assms(1) f] show ?thesis
    by (auto intro!: store_move_feedback)
qed

text \<open>The batch review writes back exactly the records it marks.\<close>

definition mark_reviewed :: "feedback_rec \<Rightarrow> feedback_rec" where
  "mark_reviewed f = (if reviewed f = 0 then f\<lparr>reviewed := 1\<rparr> else f)"

lemma review_loop_disk:
  assumes "io_ok e" "feedback_db (disk s) = Some (pre @ fs)"
    "review_loop e fs (length pre) (msg, cnt) s = ((msg', cnt'), s')"
  shows "disk s' = (disk s)\<lparr>feedback_db := Some (pre @ map mark_reviewed fs)\<rparr> \<and>
    cnt' = cnt + length (filter (\<lambda>f. reviewed f = 0) fs) \<and> resp_msg s' = resp_msg s"
  using assms(2,3)
proof (induction fs arbitrary: pre msg cnt s)
  case Nil
  then show ?case by simp
next
  case (Cons f fs)
  show ?case
  proof (cases "reviewed f = 0")
    case True
    let ?s = "snd (pwrite e feedback_db_update (length pre) (f\<lparr>reviewed := 1\<rparr>) s)"
    have d: "disk ?s = (disk s)\<lparr>feedback_db := Some ((pre @ [mark_reviewed f]) @ fs)\<rparr>"
      using Cons.prems(1) True assms(1) by (simp add: pwrite_def mark_reviewed_def put_rec_def)
    have r: "resp_msg ?s = resp_msg s" by (simp add: pwrite_def)
    show ?thesis
      using Cons.IH [of ?s "pre @ [mark_reviewed f]" "append_resp msg (review_line f)" "Suc cnt"]
        Cons.prems(2) True d r by (simp add: mark_reviewed_def)
  next
    case False
    then show ?thesis
      using Cons.IH [of s "pre @ [mark_reviewed f]" msg cnt] Cons.prems
      by (simp add: mark_reviewed_def)
  qed
qed

lemma review_feedbacks_tables:
  assumes "io_ok e" "review_feedbacks e s = (ok, s')"
  shows "tables_of (disk s') = (tables_of (disk s))\<lparr>t_fbs := map mark_reviewed (feedbacks (disk s))\<rparr>"
proof (cases "feedback_db (disk s)")
  case None
  with assms show ?thesis by (auto simp: review_feedbacks_def tables_of_def)
next
  case (Some fs)
  obtain msg cnt s1 where
    l: "review_loop e fs 0 (''--- Unreviewed Feedback ---'' @ NL, 0) s = ((msg, cnt), s1)"
    by (metis surj_pair)
  have "disk s' = disk s1"
    using l Some assms(2) by (auto simp: review_feedbacks_def simp del: append_Cons split: if_splits)
  with review_loop_disk [OF assms(1), of s "[]" fs] l Some show ?thesis by simp
qed

lemma review_feedbacks_move [route_moves]:
  assumes "io_ok e" "review_feedbacks e s = (ok, s')"
  shows "move chk (tables_of (disk s)) (tables_of (disk s'))"
proof -
  have "mark_reviewed = (\<lambda>f. if reviewed f = 0 then f\<lparr>reviewed := 1\<rparr> else f)"
    by (simp add: fun_eq_iff mark_reviewed_def)
  with review_feedbacks_tables [OF assms] store_move_review [of chk "disk s"] show ?thesis by simp
qed

lemma quiet_assign [simp]: "quiet (assign_loan_modifier k)"
  by (auto simp: quiet_def assign_loan_modifier_def split: option.splits)

lemma read_user_in: "read_user k s = Some u \<Longrightarrow> u \<in> set (users (disk s)) \<and> u_user_id u = k"
  by (auto simp: read_user_def read_rec_def find_Some_iff split: option.splits)

lemma read_account_in: "read_account k s = Some a \<Longrightarrow> a \<in> set (accounts (disk s)) \<and> a_user_id a = k"
  by (auto simp: read_account_def read_rec_def find_Some_iff split: option.splits)

lemma assign_loan_move [route_moves]:
  assumes "assign_loan_to_employee e n k s = (ok, s')"
  shows "move chk (tables_of (disk s)) (tables_of (disk s'))"
proof -
  obtain a s1 where a: "atomic_update_loan e (ucast n) (assign_loan_modifier k) s = (a, s1)" by fastforce
  have "disk s' = disk s1"
    using a assms by (auto simp: assign_loan_to_employee_def split: if_splits)
  moreover have "move chk (tables_of (disk s)) (tables_of (disk s1))"
    using loan_update_tables [OF a]
    by (auto simp: assign_loan_modifier_def move.stay dest!: read_user_in split: if_splits option.splits
             intro!: store_move_assign)
  ultimately show ?thesis by simp
qed

lemma approve_modifier_cases:
  assumes "io_ok e" "approve_reject_loan_modifier e action k l s = (b, l', s1)"
  shows "if b then l_status l = LOAN_ASSIGNED \<and> assigned_to l = k \<and>
      ((\<exists>w. action = ''reject'' \<and> l' = l\<lparr>l_status := LOAN_REJECTED, processed_at := w\<rparr> \<and> disk s1 = disk s) \<or>
       (\<exists>w j a tx. action = ''approve'' \<and> l' = l\<lparr>l_status := LOAN_APPROVED, processed_at := w\<rparr> \<and>
          j < length (accounts (disk s)) \<and> a = accounts (disk s) ! j \<and> a_user_id a = l_user_id l \<and>
          a_active a = STATUS_ACTIVE \<and> txn_id tx = next_id (txns (disk s)) \<and>
          movement_of tx = Loan_paid (l_user_id l) (l_amount l) \<and> from_account tx = 0 \<and>
          to_account tx = l_user_id l \<and>
          disk s1 = (disk s)\<lparr>
            accounts_db := Some ((accounts (disk s))[j := a\<lparr>balance := dadd (balance a) (l_amount l)\<rparr>]),
            txns_db := Some (txns (disk s) @ [tx])\<rparr>))
    else disk s1 = disk s"
proof (cases "l_status l = LOAN_ASSIGNED \<and> assigned_to l = k \<and> action = ''approve'' \<and>
    (\<exists>c. read_account (l_user_id l) s = Some c \<and> a_active c = STATUS_ACTIVE)")
  case False
  then show ?thesis
    using assms(2)
    by (auto simp: approve_reject_loan_modifier_def Let_def split: if_splits option.splits)
next
  case True
  then obtain c where c: "read_account (l_user_id l) s = Some c" "a_active c = STATUS_ACTIVE" by auto
  obtain d s2 where d: "atomic_update_account e (l_user_id l) (deposit_modifier (l_amount l)) s = (d, s2)"
    by fastforce
  have d1: d by (rule deposit_succeeds [OF assms(1) c d])
  let ?tx = "mk_txn 0 (l_user_id l) (l_amount l) (now e (tick s2)) ''loan_deposit''"
  obtain a3 t3 s3 where l3: "append_transaction e ?tx s2 = (a3, t3, s3)"
    by (cases "append_transaction e ?tx s2")
  from account_update_tables [OF d] d1 obtain j r q where
    j: "j < length (accounts (disk s))" "a_user_id (accounts (disk s) ! j) = l_user_id l"
      "deposit_modifier (l_amount l) (accounts (disk s) ! j) s = (True, r, q)"
      "disk s2 = (disk s)\<lparr>accounts_db := Some ((accounts (disk s))[j := r])\<rparr>" by auto
  have "b" "l' = l\<lparr>l_status := LOAN_APPROVED, processed_at := now e (tick s3)\<rparr>" "disk s1 = disk s3"
    using assms(2) True c d d1 l3 by (auto simp: approve_reject_loan_modifier_def Let_def)
  then show ?thesis
    using True j log_tables [OF assms(1) l3]
    by (auto simp: deposit_modifier_def split: if_splits
        intro!: exI [of _ "now e (tick s3)"] exI [of _ j]
                exI [of _ "?tx\<lparr>txn_id := next_id (txns (disk s2))\<rparr>"])
qed

lemma approve_reject_loan_move [route_moves]:
  assumes "io_ok e" "approve_reject_loan e n action k s = (ok, s')"
  shows "move chk (tables_of (disk s)) (tables_of (disk s'))"
proof -
  let ?m = "approve_reject_loan_modifier e action k"
  obtain a s1 where a: "atomic_update_loan e n ?m s = (a, s1)" by fastforce
  have s1: "disk s' = disk s1"
    using a assms(2) by (auto simp: approve_reject_loan_def split: if_splits)
  from a [unfolded atomic_update_loan_def] show ?thesis
  proof (cases rule: loans.atomic_update_cases)
    case refused
    with s1 show ?thesis by (simp add: move.stay)
  next
    case (declined i rs r t)
    with approve_modifier_cases [OF assms(1) declined(4)] s1 show ?thesis by (simp add: move.stay)
  next
    case (failed i rs r t)
    with assms(1) show ?thesis by simp
  next
    case (written i rs r t)
    have rs: "rs = loans (disk s)" using written(2) by simp
    have m: "?m (loans (disk s) ! i) s = (True, r, t)" using written(4) rs by simp
    have i: "i < length (loans (disk s))" using written(3) rs by simp
    have "loans_db (disk t) = Some (loans (disk s))"
      using approve_modifier_cases [OF assms(1) m] written(2) by auto
    then have "disk s' = (disk t)\<lparr>loans_db := Some ((loans (disk s))[i := r])\<rparr>"
      using written(7) i s1 by simp
    with approve_modifier_cases [OF assms(1) m] i show ?thesis
      by (auto intro!: store_move_reject store_move_approve)
  qed
qed

end
