(* ===== verification/UserMoves.thy ===== *)
theory UserMoves
  imports RouteMoves
begin

text \<open>
  The operations on user records as moves: passwords, personal details, roles, and the
  creation of staff and customers, with the uniqueness check in front.
\<close>

section \<open>The uniqueness check\<close>

lemma uniqueness_scan_None:
  "uniqueness_scan un em ph cur us = None \<longleftrightarrow>
     (\<forall>v\<in>set us. u_user_id v \<noteq> cur \<longrightarrow>
        cstr (username v) \<noteq> un \<and> cstr (email v) \<noteq> em \<and> cstr (phone v) \<noteq> ph)"
  by (induction us) auto

lemma uniqueness_scan_msg: "uniqueness_scan un em ph cur us = Some m \<Longrightarrow> m \<noteq> []"
  by (induction us) (auto split: if_splits)

lemma check_uniquenessD:
  assumes "check_uniqueness un em ph cur s = (ok, s')"
  shows "disk s' = disk s" "tick s' = tick s" "ok \<Longrightarrow> s' = s"
    "ok \<longleftrightarrow> (\<forall>v\<in>set (users (disk s)). u_user_id v \<noteq> cur \<longrightarrow>
        cstr (username v) \<noteq> un \<and> cstr (email v) \<noteq> em \<and> cstr (phone v) \<noteq> ph)"
proof -
  show "disk s' = disk s" "tick s' = tick s" "ok \<Longrightarrow> s' = s"
    using assms by (auto simp: check_uniqueness_def split: option.splits)
  show "ok \<longleftrightarrow> (\<forall>v\<in>set (users (disk s)). u_user_id v \<noteq> cur \<longrightarrow>
        cstr (username v) \<noteq> un \<and> cstr (email v) \<noteq> em \<and> cstr (phone v) \<noteq> ph)"
    using assms by (auto simp: check_uniqueness_def uniqueness_scan_None [symmetric]
                         split: option.splits)
qed

section \<open>Modifiers of user records\<close>

lemma quiet_user_modifiers [simp]:
  "quiet (change_pass_modifier e p)" "quiet (modify_customer_modifier f l a ad em ph)"
  "quiet (modify_user_modifier f l a ad em ph)" "quiet (change_role_modifier r)"
  by (auto simp: quiet_def change_pass_modifier_def modify_customer_modifier_def
        modify_user_modifier_def change_role_modifier_def Let_def
        dest: check_uniquenessD(1) split: prod.splits)

text \<open>The simplifier writes \<open>n - 1\<close> as \<open>n - Suc 0\<close>.\<close>

lemmas terminated_strncpy_simp = terminated_strncpy terminated_strncpy [unfolded One_nat_def]

lemma set_details_sel [simp]:
  "u_user_id (set_details f l a ad em ph u) = u_user_id u"
  "username (set_details f l a ad em ph u) = username u"
  "u_role (set_details f l a ad em ph u) = u_role u"
  "u_active (set_details f l a ad em ph u) = u_active u"
  "password_hash (set_details f l a ad em ph u) = password_hash u"
  "email (set_details f l a ad em ph u) = strncpy (email u) em (MAX_EMAIL_LEN - 1)"
  "phone (set_details f l a ad em ph u) = strncpy (phone u) ph (MAX_PHONE_LEN - 1)"
  by (simp_all add: set_details_def)

lemma user_wf_set_details: "user_wf u \<Longrightarrow> user_wf (set_details f l a ad em ph u)"
  by (simp add: user_wf_def set_details_def terminated_strncpy_simp)

lemma user_wf_zero: "user_wf zero_user"
  by (simp add: user_wf_def zero_user_def terminated_init_array size_defs)

lemma terminated_password_hash:
  assumes "terminated MAX_PASSWORD_LEN h"
  shows "terminated MAX_PASSWORD_LEN (generate_password_hash e p h)"
proof (cases "crypt_fn e p ''$6$IIITB$''")
  case None
  then show ?thesis using assms by (simp add: generate_password_hash_def terminated_strncpy_simp)
next
  case (Some v)
  have "terminated MAX_PASSWORD_LEN (strncpy h v (MAX_PASSWORD_LEN - 1))"
    using assms by (rule terminated_strncpy)
  then have "terminated MAX_PASSWORD_LEN
      ((strncpy h v (MAX_PASSWORD_LEN - 1))[MAX_PASSWORD_LEN - 1 := NUL])"
    by (simp add: terminated_def drop_update_swap)
  with Some show ?thesis by (simp add: generate_password_hash_def)
qed

text \<open>A string that fits is stored as it is.\<close>

lemma stored_string:
  "terminated n a \<Longrightarrow> clean s \<Longrightarrow> length s < n \<Longrightarrow> cstr (strncpy a s (n - 1)) = s"
  using cstr_strncpy [of n a s] by simp

lemmas stored_string_simp = stored_string stored_string [unfolded One_nat_def]

definition fits :: "nat \<Rightarrow> string \<Rightarrow> bool" where
  \<comment> \<open>a C string that fits an array of \<open>n\<close> bytes\<close>
  "fits n s \<longleftrightarrow> clean s \<and> length s < n"

definition roomy :: "nat \<Rightarrow> string \<Rightarrow> bool" where
  \<comment> \<open>a C string that \<open>strncpy(dst, s, n - 1)\<close> stores with a NUL, whatever \<open>dst\<close> held before\<close>
  "roomy n s \<longleftrightarrow> clean s \<and> length s < n - 1"

lemma roomy_string: "roomy n s \<Longrightarrow> cstr (strncpy a s (n - 1)) = s"
  by (simp add: roomy_def cstr_strncpy_short)

lemmas roomy_string_simp = roomy_string roomy_string [unfolded One_nat_def]

lemma change_password_move [route_moves]:
  assumes "change_password e k p s = (ok, s')"
  shows "move chk (tables_of (disk s)) (tables_of (disk s'))"
proof -
  obtain a s1 where a: "atomic_update_user e k (change_pass_modifier e p) s = (a, s1)" by fastforce
  have "disk s' = disk s1" using a assms by (auto simp: change_password_def split: if_splits)
  moreover have "move chk (tables_of (disk s)) (tables_of (disk s1))"
    using user_update_tables [OF a]
    by (auto simp: change_pass_modifier_def move.stay intro!: store_move_edit)
  ultimately show ?thesis by simp
qed

lemma change_user_role_move [route_moves]:
  assumes "change_user_role e k r s = (ok, s')"
  shows "move chk (tables_of (disk s)) (tables_of (disk s'))"
proof -
  obtain a s1 where a: "atomic_update_user e k (change_role_modifier r) s = (a, s1)" by fastforce
  have "disk s' = disk s1" using a assms by (auto simp: change_user_role_def split: if_splits)
  moreover have "move chk (tables_of (disk s)) (tables_of (disk s1))"
    using user_update_tables [OF a]
    by (auto simp: change_role_modifier_def move.stay split: if_splits intro!: store_move_edit)
  ultimately show ?thesis by simp
qed

text \<open>New details clash with nobody once the check has passed.\<close>

lemma details_no_clash:
  assumes "check_uniqueness (cstr (username u)) em ph (u_user_id u) s = (True, s')"
    "roomy MAX_EMAIL_LEN em" "roomy MAX_PHONE_LEN ph"
    "v \<in> set (users (disk s))" "u_user_id v \<noteq> u_user_id u"
  shows "no_clash (set_details f l a ad em ph u) v"
  using check_uniquenessD(4) [OF assms(1)] assms(2-5)
  by (auto simp: no_clash_def roomy_string_simp dest!: bspec [of _ _ v])

lemma modify_user_modifierD:
  assumes "modify_user_modifier f l a ad em ph u s = (True, u', s')"
  shows "u' = set_details f l a ad em ph u \<and>
     check_uniqueness (cstr (username u)) em ph (u_user_id u) s = (True, s)"
  using assms
  by (auto simp: modify_user_modifier_def Let_def split: prod.splits if_splits
           dest: check_uniquenessD(3))

lemma modify_customer_modifierD:
  assumes "modify_customer_modifier f l a ad em ph u s = (True, u', s')"
  shows "u' = set_details f l a ad em ph u \<and> u_role u = ROLE_CUSTOMER \<and>
     check_uniqueness (cstr (username u)) em ph (u_user_id u) s = (True, s)"
  using assms
  by (auto simp: modify_customer_modifier_def Let_def split: prod.splits if_splits
           dest: check_uniquenessD(3))

lemma details_update_move:
  assumes "atomic_update_user e k m s = (ok, s')" "quiet m"
    "\<And>u u' t. m u s = (True, u', t) \<Longrightarrow> u' = set_details f l a ad em ph u \<and>
       check_uniqueness (cstr (username u)) em ph (u_user_id u) s = (True, s)"
    "chk \<Longrightarrow> roomy MAX_EMAIL_LEN em \<and> roomy MAX_PHONE_LEN ph"
  shows "move chk (tables_of (disk s)) (tables_of (disk s'))"
proof -
  consider "tables_of (disk s') = tables_of (disk s)"
    | i r t where "i < length (users (disk s))" "m (users (disk s) ! i) s = (True, r, t)"
      "tables_of (disk s') = (tables_of (disk s))\<lparr>t_users := (users (disk s))[i := r]\<rparr>"
    using user_update_tables [OF assms(1,2)] by blast
  then show ?thesis
  proof cases
    case 1
    then show ?thesis by (simp add: move.stay)
  next
    case 2
    let ?u = "users (disk s) ! i"
    from assms(3) [OF 2(2)] have
      r: "r = set_details f l a ad em ph ?u" and
      c: "check_uniqueness (cstr (username ?u)) em ph (u_user_id ?u) s = (True, s)" by auto
    have "move chk (tables_of (disk s)) ((tables_of (disk s))\<lparr>t_users := (users (disk s))[i := r]\<rparr>)"
    proof (rule store_move_edit [OF 2(1) refl])
      assume chk
      then show "(email r = email ?u \<and> phone r = phone ?u) \<or>
          (\<forall>v\<in>set (users (disk s)). u_user_id v \<noteq> u_user_id ?u \<longrightarrow> no_clash r v)"
        using details_no_clash [OF c] assms(4) unfolding r by blast
    qed (simp_all add: r)
    with 2(3) show ?thesis by simp
  qed
qed

lemma modify_customer_move:
  assumes "modify_customer e k f l a ad em ph s = (ok, s')"
    "chk \<Longrightarrow> roomy MAX_EMAIL_LEN em \<and> roomy MAX_PHONE_LEN ph"
  shows "move chk (tables_of (disk s)) (tables_of (disk s'))"
proof -
  let ?m = "modify_customer_modifier f l a ad em ph"
  obtain b s1 where b: "atomic_update_user e k ?m s = (b, s1)" by fastforce
  have "disk s' = disk s1" using b assms(1) by (auto simp: modify_customer_def split: if_splits)
  moreover have "move chk (tables_of (disk s)) (tables_of (disk s1))"
    by (rule details_update_move [where f = f and l = l and a = a and ad = ad, OF b _ _ assms(2)])
       (simp, blast dest: modify_customer_modifierD)
  ultimately show ?thesis by simp
qed

lemma modify_user_move:
  assumes "modify_user e k f l a ad em ph s = (ok, s')"
    "chk \<Longrightarrow> roomy MAX_EMAIL_LEN em \<and> roomy MAX_PHONE_LEN ph"
  shows "move chk (tables_of (disk s)) (tables_of (disk s'))"
proof -
  let ?m = "modify_user_modifier f l a ad em ph"
  obtain b s1 where b: "atomic_update_user e k ?m s = (b, s1)" by fastforce
  have "disk s' = disk s1" using b assms(1) by (auto simp: modify_user_def split: if_splits)
  moreover have "move chk (tables_of (disk s)) (tables_of (disk s1))"
    by (rule details_update_move [where f = f and l = l and a = a and ad = ad, OF b _ _ assms(2)])
       (simp, blast dest: modify_user_modifierD)
  ultimately show ?thesis by simp
qed

section \<open>New users\<close>

definition fresh_uid :: "tables \<Rightarrow> bool" where
  \<comment> \<open>the next identifier is unused, and no user has identifier 0\<close>
  "fresh_uid t \<longleftrightarrow> next_uid (t_users t) \<notin> u_user_id ` set (t_users t) \<and>
     next_uid (t_users t) \<notin> a_user_id ` set (t_accounts t) \<and> 0 \<notin> u_user_id ` set (t_users t)"

lemma generate_new_userIdD:
  assumes "io_ok e" "generate_new_userId e s = (n, s')"
  shows "n = next_uid (users (disk s)) \<and> tables_of (disk s') = tables_of (disk s) \<and> tick s' = tick s"
  using assms
  by (auto simp: generate_new_userId_def open_creat_def next_uid_def tables_of_def
           split: option.splits)

lemma scan_offset_fresh: "k \<notin> f ` set rs \<Longrightarrow> scan_offset (\<lambda>r. f r = k) rs = None"
  by (auto simp: scan_offset_None)

lemma write_user_new:
  assumes "io_ok e" "write_user e u s = (ok, s')" "u_user_id u \<notin> u_user_id ` set (users (disk s))"
  shows "ok \<and> tables_of (disk s') = (tables_of (disk s))\<lparr>t_users := users (disk s) @ [u]\<rparr>"
  using users.write_recD [OF assms(2) [unfolded write_user_def]] assms(1)
    scan_offset_fresh [OF assms(3)]
  by (cases ok) (auto simp: put_rec_def)

lemma write_account_new:
  assumes "io_ok e" "write_account e a s = (ok, s')" "a_user_id a \<notin> a_user_id ` set (accounts (disk s))"
  shows "ok \<and> tables_of (disk s') = (tables_of (disk s))\<lparr>t_accounts := accounts (disk s) @ [a]\<rparr>"
  using accts.write_recD [OF assms(2) [unfolded write_account_def]] assms(1)
    scan_offset_fresh [OF assms(3)]
  by (cases ok) (auto simp: put_rec_def)

lemma tables_of_eqD:
  assumes "tables_of d = tables_of d'"
  shows "users d = users d'" "accounts d = accounts d'" "txns d = txns d'" "loans d = loans d'"
    "feedbacks d = feedbacks d'"
  using assms by (simp_all add: tables_of_def)

text \<open>The check with identifier 0 covers every user.\<close>

lemma new_no_clash:
  assumes "check_uniqueness un em ph 0 s = (True, s')" "0 \<notin> u_user_id ` set (users (disk s))"
    "cstr (username u) = un" "cstr (email u) = em" "cstr (phone u) = ph"
  shows "\<forall>v\<in>set (users (disk s)). no_clash u v"
  using check_uniquenessD(4) [OF assms(1)] assms(2-)
  by (fastforce simp: no_clash_def image_iff)

definition new_staff :: "env \<Rightarrow> store \<Rightarrow> role_t \<Rightarrow> string \<Rightarrow> string \<Rightarrow> string \<Rightarrow> string \<Rightarrow> user_rec \<Rightarrow> bool" where
  \<comment> \<open>the record a successful \<open>add_employee\<close> stores\<close>
  "new_staff e d r un em ph p u \<longleftrightarrow> u_user_id u = next_uid (users d) \<and> u_role u = r \<and>
     u_active u = STATUS_ACTIVE \<and> user_wf u \<and> cstr (username u) = un \<and> cstr (email u) = em \<and>
     cstr (phone u) = ph \<and>
     password_hash u = generate_password_hash e p (password_hash zero_user)"

lemma add_employee_cases:
  assumes "io_ok e" "add_employee e f l a ad role em ph un p s = (ok, s')"
    "fresh_uid (tables_of (disk s))" "fits MAX_EMAIL_LEN em" "fits MAX_PHONE_LEN ph"
    "fits MAX_USERNAME_LEN un"
  obtains (refused) "\<not> ok" "tables_of (disk s') = tables_of (disk s)"
      "\<not> fst (check_uniqueness un em ph 0 s) \<or> staff_role role = None"
  | (added) r u where "ok" "staff_role role = Some r" "fst (check_uniqueness un em ph 0 s)"
      "new_staff e (disk s) r un em ph p u" "\<forall>v\<in>set (users (disk s)). no_clash u v"
      "tables_of (disk s') = (tables_of (disk s))\<lparr>t_users := users (disk s) @ [u]\<rparr>"
proof -
  obtain c s1 where c: "check_uniqueness un em ph 0 s = (c, s1)" by fastforce
  obtain n s2 where n: "generate_new_userId e s1 = (n, s2)" by fastforce
  note same = check_uniquenessD(1) [OF c]
  note gen = generate_new_userIdD [OF assms(1) n]
  show thesis
  proof (cases "c \<and> staff_role role \<noteq> None")
    case False
    then have "\<not> ok" "disk s' = disk s1 \<or> disk s' = disk s2"
      using c n assms(2) by (auto simp: add_employee_def Let_def split: if_splits)
    with same gen False c show thesis by (intro refused) auto
  next
    case True
    then obtain r where role: "staff_role role = Some r" by auto
    let ?z = "set_details f l a ad em ph zero_user"
    define u where "u = ?z\<lparr>u_user_id := n, u_active := STATUS_ACTIVE,
      created_at := now e (tick s2),
      username := strncpy (username zero_user) un (MAX_USERNAME_LEN - 1), u_role := r,
      password_hash := generate_password_hash e p (password_hash zero_user)\<rparr>"
    obtain w s3 where w: "write_user e u s2 = (w, s3)" by fastforce
    have wf: "user_wf ?z" by (rule user_wf_set_details [OF user_wf_zero])
    have wfu: "user_wf u"
      using wf user_wf_zero
      by (simp add: u_def user_wf_def terminated_strncpy_simp terminated_password_hash)
    have str: "cstr (username u) = un" "cstr (email u) = em" "cstr (phone u) = ph"
      using assms(4-6) user_wf_zero
      by (simp_all add: u_def user_wf_def fits_def stored_string_simp)
    then have clash: "\<forall>v\<in>set (users (disk s)). no_clash u v"
      using new_no_clash [of un em ph s s1 u] c True assms(3) by (simp add: fresh_uid_def)
    have users2: "users (disk s2) = users (disk s)"
      using gen same tables_of_eqD(1) [of "disk s2" "disk s1"] by simp
    have un: "u_user_id u = next_uid (users (disk s))" "u_role u = r"
      using gen same by (simp_all add: u_def)
    have tab: "w \<and> tables_of (disk s3) = (tables_of (disk s))\<lparr>t_users := users (disk s) @ [u]\<rparr>"
      using write_user_new [OF assms(1) w] un users2 assms(3) gen same
      by (simp add: fresh_uid_def)
    have s3: "ok \<and> disk s' = disk s3"
      using True role c n w tab assms(2)
      by (auto simp: add_employee_def u_def Let_def split: if_splits)
    have "new_staff e (disk s) r un em ph p u"
      using un wfu str by (simp add: new_staff_def) (simp add: u_def)
    with s3 tab role c True clash show thesis by (intro added) auto
  qed
qed

lemma add_employee_move:
  assumes "io_ok e" "add_employee e f l a ad role em ph un p s = (ok, s')"
    "fresh_uid (tables_of (disk s))" "fits MAX_EMAIL_LEN em" "fits MAX_PHONE_LEN ph"
    "fits MAX_USERNAME_LEN un"
  shows "move chk (tables_of (disk s)) (tables_of (disk s'))"
  using assms
proof (cases rule: add_employee_cases)
  case refused
  then show ?thesis by (simp add: move.stay)
next
  case (added r u)
  then have "r \<noteq> ROLE_CUSTOMER" by (auto simp: staff_role_def split: if_splits)
  with added store_move_hire [of u "disk s"] show ?thesis by (simp add: new_staff_def)
qed

definition new_customer :: "env \<Rightarrow> store \<Rightarrow> user_rec \<Rightarrow> string \<Rightarrow> string \<Rightarrow> user_rec \<Rightarrow> account_rec \<Rightarrow> bool" where
  \<comment> \<open>the two records a successful \<open>add_new_customer\<close> stores\<close>
  "new_customer e d usr un p u a \<longleftrightarrow> u_user_id u = next_uid (users d) \<and> u_role u = ROLE_CUSTOMER \<and>
     u_active u = STATUS_ACTIVE \<and> (user_wf usr \<longrightarrow> user_wf u) \<and>
     username u = strncpy (username usr) un (MAX_USERNAME_LEN - 1) \<and>
     cstr (email u) = cstr (email usr) \<and> cstr (phone u) = cstr (phone usr) \<and>
     password_hash u = generate_password_hash e p (password_hash usr) \<and>
     a = \<lparr>account_id = u_user_id u, a_user_id = u_user_id u, balance = dzero, a_active = STATUS_ACTIVE\<rparr>"

lemma add_new_customer_cases:
  assumes "io_ok e" "add_new_customer e usr acc un p s = (ok, s')"
    "fresh_uid (tables_of (disk s))"
  obtains (refused) "\<not> ok" "tables_of (disk s') = tables_of (disk s)"
      "\<not> fst (check_uniqueness un (cstr (email usr)) (cstr (phone usr)) 0 s)"
  | (added) u a where "ok" "fst (check_uniqueness un (cstr (email usr)) (cstr (phone usr)) 0 s)"
      "new_customer e (disk s) usr un p u a"
      "cstr (username u) = un \<Longrightarrow> \<forall>v\<in>set (users (disk s)). no_clash u v"
      "tables_of (disk s') = (tables_of (disk s))\<lparr>t_users := users (disk s) @ [u],
         t_accounts := accounts (disk s) @ [a]\<rparr>"
proof -
  obtain c s1 where c: "check_uniqueness un (cstr (email usr)) (cstr (phone usr)) 0 s = (c, s1)"
    by fastforce
  obtain n s2 where n: "generate_new_userId e s1 = (n, s2)" by fastforce
  note same = check_uniquenessD(1) [OF c]
  note gen = generate_new_userIdD [OF assms(1) n]
  show thesis
  proof (cases c)
    case False
    then have "\<not> ok" "disk s' = disk s1" using c assms(2) by (simp_all add: add_new_customer_def)
    with same c False show thesis by (intro refused) auto
  next
    case True
    define u where "u = usr\<lparr>u_user_id := n, u_role := ROLE_CUSTOMER, u_active := STATUS_ACTIVE,
      created_at := now e (tick s2),
      username := strncpy (username usr) un (MAX_USERNAME_LEN - 1),
      password_hash := generate_password_hash e p (password_hash usr)\<rparr>"
    define a where "a = acc\<lparr>a_user_id := n, account_id := n, balance := dzero,
      a_active := STATUS_ACTIVE\<rparr>"
    have tab2: "tables_of (disk s2) = tables_of (disk s)" using gen same by simp
    note eq2 = tables_of_eqD [OF tab2]
    have id: "u_user_id u = n" "a_user_id a = n" "n = next_uid (users (disk s))"
      using gen same by (simp_all add: u_def a_def)
    obtain w s3 where w: "write_user e u s2 = (w, s3)" by fastforce
    obtain v s4 where v: "write_account e a s3 = (v, s4)" by fastforce
    have w1: "w" "tables_of (disk s3) = (tables_of (disk s))\<lparr>t_users := users (disk s) @ [u]\<rparr>"
      using write_user_new [OF assms(1) w] id eq2 tab2 assms(3) by (simp_all add: fresh_uid_def)
    then have acc3: "accounts (disk s3) = accounts (disk s)" by (simp add: tables_of_def)
    have v1: "v" "tables_of (disk s4) = (tables_of (disk s))\<lparr>t_users := users (disk s) @ [u],
        t_accounts := accounts (disk s) @ [a]\<rparr>"
      using write_account_new [OF assms(1) v] id w1 acc3 assms(3) by (simp_all add: fresh_uid_def)
    have s4: "ok \<and> disk s' = disk s4"
      using True c n w v w1 v1 assms(2)
      by (auto simp: add_new_customer_def u_def a_def Let_def split: if_splits)
    have wfu: "user_wf usr \<longrightarrow> user_wf u"
      by (simp add: u_def user_wf_def terminated_strncpy_simp terminated_password_hash)
    have str: "username u = strncpy (username usr) un (MAX_USERNAME_LEN - 1)"
      "cstr (email u) = cstr (email usr)" "cstr (phone u) = cstr (phone usr)"
      by (simp_all add: u_def)
    then have clash: "\<forall>v\<in>set (users (disk s)). no_clash u v" if "cstr (username u) = un"
      using that new_no_clash [of un "cstr (email usr)" "cstr (phone usr)" s s1 u] c True assms(3)
      by (simp add: fresh_uid_def)
    have "a = \<lparr>account_id = n, a_user_id = n, balance = dzero, a_active = STATUS_ACTIVE\<rparr>"
      by (simp add: a_def)
    then have "new_customer e (disk s) usr un p u a"
      using id wfu str by (simp add: new_customer_def) (simp add: u_def)
    with s4 v1 c True clash show thesis by (intro added) auto
  qed
qed

lemma add_new_customer_move:
  assumes "io_ok e" "add_new_customer e usr acc un p s = (ok, s')"
    "fresh_uid (tables_of (disk s))"
    "chk \<Longrightarrow> cstr (strncpy (username usr) un (MAX_USERNAME_LEN - 1)) = un"
  shows "move chk (tables_of (disk s)) (tables_of (disk s'))"
  using assms(1-3)
proof (cases rule: add_new_customer_cases)
  case refused
  then show ?thesis by (simp add: move.stay)
next
  case (added u a)
  then have "chk \<Longrightarrow> \<forall>v\<in>set (users (disk s)). no_clash u v"
    using assms(4) by (simp add: new_customer_def)
  with added store_move_enroll [of u "disk s" chk a] show ?thesis by (simp add: new_customer_def)
qed

end
