(* ===== verification/Router.thy ===== *)
theory Router
  imports UserMoves
begin

text \<open>
  The request router over the moves of the bank: what the scanner guarantees about the
  strings it hands to the operations, the requests whose contact data is stored as it was
  checked, the read-only routes, and the theorem that one request makes one move.
\<close>

section \<open>What the scanner guarantees\<close>

lemma set_skip: "set (skip_ws s) \<subseteq> set s"
  by (auto simp: skip_ws_def dest: set_dropWhileD)

lemma set_scan_sign: "scan_sign s = (b, r) \<Longrightarrow> set r \<subseteq> set s"
  by (auto simp: scan_sign_def split: list.splits if_splits)

lemma set_scan_int: "scan_int s = Some (v, r) \<Longrightarrow> set r \<subseteq> set s"
  using set_skip [of s]
  by (fastforce simp: scan_int_def Let_def split: prod.splits if_splits
      dest: set_scan_sign set_dropWhileD)

lemma set_scan_s: "scan_s s = Some (w, r) \<Longrightarrow> set r \<subseteq> set s \<and> set w \<subseteq> set s"
  using set_skip [of s]
  by (fastforce simp: scan_s_def Let_def split: if_splits dest: set_takeWhileD set_dropWhileD)

lemma set_scan_exponent: "scan_exponent m s = (x, r) \<Longrightarrow> set r \<subseteq> set s"
  by (fastforce simp: scan_exponent_def Let_def split: list.splits if_splits prod.splits
      dest: set_scan_sign set_dropWhileD)

lemma set_scan_mantissa: "scan_mantissa b s = (v, r) \<Longrightarrow> set r \<subseteq> set s"
proof -
  have "set (dropWhile (is_digit_in b) s) \<subseteq> set s" by (auto dest: set_dropWhileD)
  then show "scan_mantissa b s = (v, r) \<Longrightarrow> set r \<subseteq> set s"
    by (auto simp: scan_mantissa_def Let_def split: list.splits if_splits
        dest: set_dropWhileD)
qed

lemma set_scan_hex:
  "(case scan_mantissa b (drop n s) of ((ds, k), r) \<Rightarrow>
      case scan_exponent m r of (x, r1) \<Rightarrow> Some (f ds k x, r1)) = Some (d, q) \<Longrightarrow> set q \<subseteq> set s"
  using set_drop_subset [of n s]
  by (auto split: prod.splits dest!: set_scan_mantissa set_scan_exponent)

lemma set_scan_dec:
  "(case scan_mantissa b s of ((ds, k), r) \<Rightarrow>
      if ds = [] then None
      else case scan_exponent m r of (x, r1) \<Rightarrow> Some (f ds k x, r1)) = Some (d, q) \<Longrightarrow> set q \<subseteq> set s"
  by (auto split: prod.splits if_splits dest!: set_scan_mantissa set_scan_exponent)

lemma set_scan_magnitude:
  assumes "scan_magnitude s = Some (d, r)" shows "set r \<subseteq> set s"
proof -
  let ?low = "map to_lower (take 8 s)"
  note eq = assms [unfolded scan_magnitude_def Let_def]
  show ?thesis
  proof (cases "take 3 ?low = ''nan'' \<or> take 3 ?low = ''inf''")
    case True
    then show ?thesis using eq set_drop_subset [of 3 s] set_drop_subset [of 8 s]
      by (simp split: if_splits)
  next
    case False
    show ?thesis
    proof (cases "take 2 ?low = ''0x''")
      case True
      with False eq show ?thesis by (intro set_scan_hex
            [where b = 16 and n = 2 and s = s and m = "CHR ''p''" and d = d
               and f = "\<lambda>ds k x. dbl_scaled 2 (num_val 16 ds) (x - 4 * int k)"]) simp
    next
      case f: False
      with False eq show ?thesis by (intro set_scan_dec
            [where b = 10 and s = s and m = "CHR ''e''" and d = d
               and f = "\<lambda>ds k x. dbl_scaled 10 (num_val 10 ds) (x - int k)"]) simp
    qed
  qed
qed

lemma set_scan_lf: "scan_lf s = Some (d, r) \<Longrightarrow> set r \<subseteq> set s"
  using set_skip [of s]
  by (fastforce simp: scan_lf_def split: prod.splits dest: set_scan_sign set_scan_magnitude)

lemma set_scan_conv: "scan_conv c s = Some (a, r) \<Longrightarrow> set r \<subseteq> set s"
  by (cases c)
    (auto simp: scan_u_def scan_llu_def scan_d_def apfst_def map_prod_def
          dest: set_scan_s set_scan_int set_scan_lf dest!: subsetD split: prod.splits)

lemma sscanf_string:
  assumes "sscanf cs s = Inr as" "i < length as" "cs ! i = Cs n"
  shows "\<exists>w. as ! i = As w \<and> length w < n \<and> set w \<subseteq> set s"
  using assms
proof (induction cs s arbitrary: as i rule: sscanf.induct)
  case (2 c cs s)
  from 2(2,3) obtain a r bs where c: "scan_conv c s = Some (a, r)" "\<not> overflows c a"
    "sscanf cs r = Inr bs" "as = a # bs"
    by (auto split: option.splits if_splits sum.splits)
  show ?case
  proof (cases i)
    case 0
    with 2(4) have "c = Cs n" by simp
    with c(1,2) obtain w where "a = As w" "scan_s s = Some (w, r)" "length w < n"
      by (auto simp: not_le)
    with set_scan_s c(4) 0 show ?thesis by auto
  next
    case (Suc j)
    with 2(1) [OF c(1) refl c(2), of bs j] 2(3,4) c(3,4)
    obtain w where "as ! i = As w" "length w < n" "set w \<subseteq> set r" by auto
    with set_scan_conv [OF c(1)] show ?thesis by auto
  qed
qed simp

lemma arg_s_fits:
  assumes "sscanf cs s = Inr as" "i < length as" "cs ! i = Cs n" "clean s"
  shows "fits n (arg_s e as i v)"
  using sscanf_string [OF assms(1-3)] assms(2,4)
  by (auto simp: arg_s_def fits_def clean_def)

text \<open>
  Three routes store contact data that a uniqueness check compared before. They compare the
  string they scanned and store what \<^verbatim>\<open>strncpy\<close> leaves of it in an array that keeps its last
  byte: the same string when a byte is left for the NUL. \<open>MODIFY_USER\<close> accepts six values
  only, which leaves its phone number unread.
\<close>

definition roomy_arg :: "nat \<Rightarrow> arg list \<Rightarrow> nat \<Rightarrow> bool" where
  \<comment> \<open>the value is two bytes shorter than its array\<close>
  "roomy_arg n as i \<longleftrightarrow> (\<forall>w. i < length as \<longrightarrow> as ! i = As w \<longrightarrow> length w < n - 1)"

definition details_format :: "conv list" where
  "details_format = [Cu, Cd, Cs MAX_FNAME_LEN, Cs MAX_LNAME_LEN, Cs MAX_ADDR_LEN, Cs MAX_EMAIL_LEN,
     Cs MAX_PHONE_LEN]"

definition customer_format :: "conv list" where
  "customer_format = [Cs MAX_FNAME_LEN, Cs MAX_LNAME_LEN, Cd, Cs MAX_ADDR_LEN, Cs MAX_EMAIL_LEN,
     Cs MAX_PHONE_LEN, Cs MAX_USERNAME_LEN, Cs MAX_PASSWORD_LEN]"

definition roomy_request :: "string \<Rightarrow> string \<Rightarrow> bool" where
  \<comment> \<open>the contact data fits with a byte to spare, and \<open>MODIFY_USER\<close> has its phone number\<close>
  "roomy_request op payload \<longleftrightarrow>
     (op = ''ADD_CUSTOMER'' \<longrightarrow> (\<forall>as. sscanf customer_format payload = Inr as \<longrightarrow>
        roomy_arg MAX_EMAIL_LEN as 4 \<and> roomy_arg MAX_PHONE_LEN as 5 \<and> roomy_arg MAX_USERNAME_LEN as 6)) \<and>
     (op = ''MODIFY_CUSTOMER'' \<longrightarrow> (\<forall>as. sscanf details_format payload = Inr as \<longrightarrow>
        roomy_arg MAX_EMAIL_LEN as 5 \<and> roomy_arg MAX_PHONE_LEN as 6)) \<and>
     (op = ''MODIFY_USER'' \<longrightarrow> (\<forall>as. sscanf details_format payload = Inr as \<longrightarrow> length as \<noteq> 6))"

lemma arg_s_roomy:
  assumes "sscanf cs s = Inr as" "i < length as" "cs ! i = Cs n" "clean s" "roomy_arg n as i"
  shows "roomy n (arg_s e as i v)"
  using sscanf_string [OF assms(1-3)] assms(2,4,5)
  by (auto simp: arg_s_def roomy_def roomy_arg_def clean_def)

text \<open>The strings of the routes that store contact data.\<close>

lemma add_customer_args:
  assumes "sscanf customer_format payload = Inr as" "length as = 8" "clean payload"
    "roomy_request ''ADD_CUSTOMER'' payload"
  shows "roomy MAX_USERNAME_LEN (arg_s e as 6 v)"
proof (rule arg_s_roomy [OF assms(1) _ _ assms(3)])
  show "roomy_arg MAX_USERNAME_LEN as 6" using assms(1,4) by (simp add: roomy_request_def)
qed (simp_all add: assms(2) customer_format_def)

lemma modify_args:
  assumes "sscanf details_format payload = Inr as" "length as = 7" "clean payload"
    "roomy_request ''MODIFY_CUSTOMER'' payload"
  shows "roomy MAX_EMAIL_LEN (arg_s e as 5 v) \<and> roomy MAX_PHONE_LEN (arg_s e as 6 w)"
proof
  have r: "roomy_arg MAX_EMAIL_LEN as 5" "roomy_arg MAX_PHONE_LEN as 6"
    using assms(1,4) by (simp_all add: roomy_request_def)
  show "roomy MAX_EMAIL_LEN (arg_s e as 5 v)"
    by (rule arg_s_roomy [OF assms(1) _ _ assms(3) r(1)]) (simp_all add: assms(2) details_format_def)
  show "roomy MAX_PHONE_LEN (arg_s e as 6 w)"
    by (rule arg_s_roomy [OF assms(1) _ _ assms(3) r(2)]) (simp_all add: assms(2) details_format_def)
qed

lemma add_employee_args:
  assumes "sscanf [Cs MAX_FNAME_LEN, Cs MAX_LNAME_LEN, Cd, Cs MAX_ADDR_LEN, Cs MAX_ROLE_STR,
      Cs MAX_EMAIL_LEN, Cs MAX_PHONE_LEN, Cs MAX_USERNAME_LEN, Cs MAX_PASSWORD_LEN] payload = Inr as"
    "length as = 9" "clean payload"
  shows "fits MAX_EMAIL_LEN (arg_s e as 5 v)" "fits MAX_PHONE_LEN (arg_s e as 6 v)"
    "fits MAX_USERNAME_LEN (arg_s e as 7 v)"
  by (rule arg_s_fits [OF assms(1) _ _ assms(3)]; simp add: assms(2))+

section \<open>Read-only operations\<close>

lemma views_disk [frame_simps]:
  "disk (snd (view_balance k s)) = disk s"
  "disk (snd (view_personal_details k s)) = disk s"
  "disk (snd (view_loan_status k s)) = disk s"
  "disk (snd (view_feedback_status k s)) = disk s"
  "disk (snd (view_transaction_history e k s)) = disk s"
  "disk (snd (view_assigned_loans k s)) = disk s"
  "disk (snd (process_loans s)) = disk s"
  "disk (snd (view_customer_transactions e k s)) = disk s"
  "disk (snd (view_non_assigned_loans s)) = disk s"
  "disk (snd (list_all_users s)) = disk s"
  by (simp_all add: view_balance_def view_personal_details_def view_loan_status_def
      view_feedback_status_def view_transaction_history_def view_assigned_loans_def
      process_loans_def view_customer_transactions_def view_non_assigned_loans_def
      list_all_users_def split: option.splits prod.splits)

section \<open>One request, one move\<close>

lemma served_eq: "served r = Inr (c, s') \<longleftrightarrow> c = 0 \<and> s' = snd r"
  by (auto simp: served_def)

lemma bad_payload_eq: "bad_payload op s = Inr (c, s') \<Longrightarrow> disk s' = disk s"
  by (auto simp: bad_payload_def)

lemma with_argsE:
  assumes "with_args cs payload k = Inr r"
  obtains as where "sscanf cs payload = Inr as" "k as = Inr r"
  using assms by (auto simp: with_args_def split: sum.splits)

lemma move_snd:
  assumes "\<And>ok s'. r = (ok, s') \<Longrightarrow> move chk t (tables_of (disk s'))"
  shows "move chk t (tables_of (disk (snd r)))"
  using assms [of "fst r" "snd r"] by simp

lemma customer_routes_move:
  assumes "customer_routes e op payload s = Some (Inr (c, s'))" "io_ok e"
  shows "move chk (tables_of (disk s)) (tables_of (disk s'))"
  using assms
  by (auto simp del: sscanf.simps simp: customer_routes_def served_eq frame_simps move.stay split: if_splits list.splits
      elim!: with_argsE dest!: bad_payload_eq intro!: move_snd intro: route_moves)

lemma manager_routes_move:
  assumes "manager_routes e op payload s = Some (Inr (c, s'))" "io_ok e"
  shows "move chk (tables_of (disk s)) (tables_of (disk s'))"
  using assms
  by (auto simp del: sscanf.simps simp: manager_routes_def served_eq frame_simps move.stay split: if_splits
      elim!: with_argsE dest!: bad_payload_eq intro!: move_snd intro: route_moves)

lemma employee_routes_move:
  assumes "employee_routes e op payload s = Some (Inr (c, s'))" "io_ok e" "clean payload"
    "fresh_uid (tables_of (disk s))" "chk \<Longrightarrow> roomy_request op payload"
  shows "move chk (tables_of (disk s)) (tables_of (disk s'))"
proof -
  consider (add) "op = ''ADD_CUSTOMER''" | (modify) "op = ''MODIFY_CUSTOMER''"
    | (other) "op \<noteq> ''ADD_CUSTOMER''" "op \<noteq> ''MODIFY_CUSTOMER''" by blast
  then show ?thesis
  proof cases
    case add
    let ?cs = "[Cs MAX_FNAME_LEN, Cs MAX_LNAME_LEN, Cd, Cs MAX_ADDR_LEN, Cs MAX_EMAIL_LEN,
      Cs MAX_PHONE_LEN, Cs MAX_USERNAME_LEN, Cs MAX_PASSWORD_LEN]"
    from assms(1) [unfolded employee_routes_def if_P [OF add] option.inject]
    show ?thesis
    proof (rule with_argsE)
      fix as assume sc: "sscanf ?cs payload = Inr as"
        and r: "(if length as = 8 then
            served (add_new_customer e
                      (set_details (arg_s e as 0 ''fname'') (arg_s e as 1 ''lname'') (arg_d as 2)
                         (arg_s e as 3 ''address'') (arg_s e as 4 ''email'') (arg_s e as 5 ''phone'')
                         (stk_user e))
                      (stk_account e) (arg_s e as 6 ''username'') (arg_s e as 7 ''password'') s)
          else bad_payload ''ADD_CUSTOMER'' s) = Inr (c, s')"
      show ?thesis
      proof (cases "length as = 8")
        case True
        have "chk \<Longrightarrow> roomy MAX_USERNAME_LEN (arg_s e as 6 ''username'')"
          using add_customer_args [OF sc [folded customer_format_def] True assms(3)] assms(5) add by simp
        with True r show ?thesis
          using assms(2,4)
          by (auto simp: served_eq roomy_string_simp intro!: move_snd elim!: add_new_customer_move)
      next
        case False
        with r show ?thesis by (auto simp: move.stay dest!: bad_payload_eq)
      qed
    qed
  next
    case modify
    have ne: "op \<noteq> ''ADD_CUSTOMER''" using modify by simp
    from assms(1) [unfolded employee_routes_def if_not_P [OF ne] if_P [OF modify] option.inject]
    show ?thesis
    proof (rule with_argsE)
      fix as assume sc: "sscanf [Cu, Cd, Cs MAX_FNAME_LEN, Cs MAX_LNAME_LEN, Cs MAX_ADDR_LEN,
          Cs MAX_EMAIL_LEN, Cs MAX_PHONE_LEN] payload = Inr as"
        and r: "(if length as = 7 then
            served (modify_customer e (arg_u e as 0 ''userId'') (arg_s e as 2 ''fname'')
                      (arg_s e as 3 ''lname'') (arg_d as 1) (arg_s e as 4 ''address'')
                      (arg_s e as 5 ''email'') (arg_s e as 6 ''phone'') s)
          else bad_payload ''MODIFY_CUSTOMER'' s) = Inr (c, s')"
      show ?thesis
      proof (cases "length as = 7")
        case True
        have "chk \<Longrightarrow> roomy MAX_EMAIL_LEN (arg_s e as 5 ''email'') \<and>
            roomy MAX_PHONE_LEN (arg_s e as 6 ''phone'')"
          using modify_args [OF sc [folded details_format_def] True assms(3)] assms(5) modify by simp
        with True r show ?thesis
          by (auto simp: served_eq intro!: move_snd elim!: modify_customer_move)
      next
        case False
        with r show ?thesis by (auto simp: move.stay dest!: bad_payload_eq)
      qed
    qed
  next
    case other
    with assms(1,2) show ?thesis
      by (auto simp del: sscanf.simps simp: employee_routes_def served_eq frame_simps move.stay
          split: if_splits elim!: with_argsE intro!: move_snd intro: route_moves)
  qed
qed

lemma admin_routes_move:
  assumes "admin_routes e op payload s = Some (Inr (c, s'))" "io_ok e" "clean payload"
    "fresh_uid (tables_of (disk s))" "chk \<Longrightarrow> roomy_request op payload"
  shows "move chk (tables_of (disk s)) (tables_of (disk s'))"
proof -
  consider (add) "op = ''ADD_EMPLOYEE''" | (modify) "op = ''MODIFY_USER''"
    | (other) "op \<noteq> ''ADD_EMPLOYEE''" "op \<noteq> ''MODIFY_USER''" by blast
  then show ?thesis
  proof cases
    case add
    from assms(1) [unfolded admin_routes_def if_P [OF add] option.inject]
    show ?thesis
    proof (rule with_argsE)
      fix as assume sc: "sscanf [Cs MAX_FNAME_LEN, Cs MAX_LNAME_LEN, Cd, Cs MAX_ADDR_LEN,
          Cs MAX_ROLE_STR, Cs MAX_EMAIL_LEN, Cs MAX_PHONE_LEN, Cs MAX_USERNAME_LEN,
          Cs MAX_PASSWORD_LEN] payload = Inr as"
        and r: "(if length as = 9 then
            served (add_employee e (arg_s e as 0 ''fname'') (arg_s e as 1 ''lname'') (arg_d as 2)
                      (arg_s e as 3 ''address'') (arg_s e as 4 ''role'') (arg_s e as 5 ''email'')
                      (arg_s e as 6 ''phone'') (arg_s e as 7 ''username'')
                      (arg_s e as 8 ''password'') s)
          else bad_payload ''ADD_EMPLOYEE'' s) = Inr (c, s')"
      show ?thesis
      proof (cases "length as = 9")
        case True
        with r show ?thesis
          using add_employee_args [OF sc True assms(3)] assms(2,4)
          by (auto simp: served_eq intro!: move_snd elim!: add_employee_move)
      next
        case False
        with r show ?thesis by (auto simp: move.stay dest!: bad_payload_eq)
      qed
    qed
  next
    case modify
    have ne: "op \<noteq> ''ADD_EMPLOYEE''" using modify by simp
    from assms(1) [unfolded admin_routes_def if_not_P [OF ne] if_P [OF modify] option.inject]
    show ?thesis
    proof (rule with_argsE)
      fix as assume sc: "sscanf [Cu, Cd, Cs MAX_FNAME_LEN, Cs MAX_LNAME_LEN, Cs MAX_ADDR_LEN,
          Cs MAX_EMAIL_LEN, Cs MAX_PHONE_LEN] payload = Inr as"
        and r: "(if length as = 6 then
            served (modify_user e (arg_u e as 0 ''userId'') (arg_s e as 2 ''fname'')
                      (arg_s e as 3 ''lname'') (arg_d as 1) (arg_s e as 4 ''address'')
                      (arg_s e as 5 ''email'') (arg_s e as 6 ''phone'') s)
          else bad_payload ''MODIFY_USER'' s) = Inr (c, s')"
      show ?thesis
      proof (cases "length as = 6")
        case True
        have "\<not> chk"
          using assms(5) True modify sc [folded details_format_def] by (auto simp: roomy_request_def)
        with True r show ?thesis
          by (auto simp: served_eq intro!: move_snd elim!: modify_user_move)
      next
        case False
        with r show ?thesis by (auto simp: move.stay dest!: bad_payload_eq)
      qed
    qed
  next
    case other
    with assms(1,2) show ?thesis
      by (auto simp del: sscanf.simps simp: admin_routes_def served_eq frame_simps move.stay
          split: if_splits elim!: with_argsE intro!: move_snd intro: route_moves)
  qed
qed

lemma dispatch_move:
  assumes "dispatch e op payload s = Inr (c, s')" "io_ok e" "clean payload"
    "fresh_uid (tables_of (disk s))" "chk \<Longrightarrow> roomy_request op payload"
  shows "move chk (tables_of (disk s)) (tables_of (disk s'))"
  using assms(1) customer_routes_move [of e op payload s c s'] employee_routes_move [of e op payload s c s']
    manager_routes_move [of e op payload s c s'] admin_routes_move [of e op payload s c s'] assms(2-)
  by (auto simp: dispatch_def move.stay split: option.splits)

end
