(* ===== verification/Invariants.thy ===== *)
theory Invariants
  imports Router
begin

text \<open>
  The invariants of the database and their preservation by every move: sequential
  identifiers, one account per customer, unique contacts, an audit log that replays to the
  balances, and loans that are paid out exactly when they are approved. Every request keeps
  \<open>books_inv\<close>; unique contacts are kept by the moves whose contact data was checked as it is
  stored.
\<close>

section \<open>Sequential identifiers\<close>

definition numbered :: "('r \<Rightarrow> 'a::len word) \<Rightarrow> nat \<Rightarrow> 'r list \<Rightarrow> bool" where
  "numbered f b rs \<longleftrightarrow> map f rs = map (\<lambda>i. of_nat (b + i)) [0..<length rs]"

lemma numbered_nth: "numbered f b rs \<Longrightarrow> i < length rs \<Longrightarrow> f (rs ! i) = of_nat (b + i)"
  using nth_map [of i rs f] by (simp add: numbered_def)

lemma numbered_append:
  "numbered f b rs \<Longrightarrow> f r = of_nat (b + length rs) \<Longrightarrow> numbered f b (rs @ [r])"
  by (simp add: numbered_def)

lemma numbered_update:
  "numbered f b rs \<Longrightarrow> i < length rs \<Longrightarrow> f r = f (rs ! i) \<Longrightarrow> numbered f b (rs[i := r])"
  by (simp add: numbered_def)

lemma numbered_map: "numbered f b rs \<Longrightarrow> (\<And>r. f (g r) = f r) \<Longrightarrow> numbered f b (map g rs)"
  by (simp add: numbered_def comp_def)

lemma numbered_fresh:
  fixes f :: "'r \<Rightarrow> 'a::len word"
  assumes "numbered f b rs" "b + length rs < 2 ^ LENGTH('a)"
  shows "of_nat (b + length rs) \<notin> f ` set rs"
proof
  assume "of_nat (b + length rs) \<in> f ` set rs"
  then obtain i where i: "i < length rs" "f (rs ! i) = of_nat (b + length rs)"
    by (auto simp: in_set_conv_nth)
  then have "(of_nat (b + i) :: 'a word) = of_nat (b + length rs)"
    using numbered_nth [OF assms(1)] by simp
  then have "b + i = b + length rs"
    by (rule word_of_nat_less_inj) (use assms(2) i in auto)
  with i show False by simp
qed

lemma numbered_distinct:
  fixes f :: "'r \<Rightarrow> 'a::len word"
  assumes "numbered f b rs" "b + length rs < 2 ^ LENGTH('a)"
  shows "distinct (map f rs)"
proof (rule distinct_conv_nth [THEN iffD2], clarsimp)
  fix i j assume ij: "i < length rs" "j < length rs" "i \<noteq> j" "f (rs ! i) = f (rs ! j)"
  then have "(of_nat (b + i) :: 'a word) = of_nat (b + j)"
    using numbered_nth [OF assms(1)] by simp
  then have "b + i = b + j"
    by (rule word_of_nat_less_inj) (use assms(2) ij in auto)
  with ij show False by simp
qed

text \<open>No identifier is below the first one.\<close>

lemma numbered_zero:
  fixes f :: "'r \<Rightarrow> 'a::len word"
  assumes "numbered f b rs" "b + length rs < 2 ^ LENGTH('a)" "0 < b"
  shows "0 \<notin> f ` set rs"
proof
  assume "0 \<in> f ` set rs"
  then obtain i where i: "i < length rs" "f (rs ! i) = 0" by (auto simp: in_set_conv_nth)
  then have "(of_nat (b + i) :: 'a word) = of_nat 0"
    using numbered_nth [OF assms(1)] by simp
  then have "b + i = 0"
    by (rule word_of_nat_less_inj) (use assms(2) i in auto)
  with assms(3) show False by simp
qed

section \<open>The invariants\<close>

definition ids_inv :: "tables \<Rightarrow> bool" where
  "ids_inv t \<longleftrightarrow> numbered u_user_id 1001 (t_users t) \<and> numbered txn_id 1 (t_txns t) \<and>
     numbered loan_id 1 (t_loans t) \<and> numbered fb_id 1 (t_fbs t)"

definition wf_inv :: "tables \<Rightarrow> bool" where
  "wf_inv t \<longleftrightarrow> (\<forall>u\<in>set (t_users t). user_wf u)"

definition accounts_inv :: "tables \<Rightarrow> bool" where
  \<comment> \<open>one account per customer, and accounts of customers only\<close>
  "accounts_inv t \<longleftrightarrow> distinct (map a_user_id (t_accounts t)) \<and>
     (\<forall>a\<in>set (t_accounts t). account_id a = a_user_id a) \<and>
     a_user_id ` set (t_accounts t) = u_user_id ` {u \<in> set (t_users t). u_role u = ROLE_CUSTOMER}"

definition contacts_inv :: "tables \<Rightarrow> bool" where
  "contacts_inv t \<longleftrightarrow> (\<forall>i<length (t_users t). \<forall>j<length (t_users t).
     i \<noteq> j \<longrightarrow> no_clash (t_users t ! i) (t_users t ! j))"

definition parties :: "txn_rec list \<Rightarrow> uid set" where
  "parties xs = from_account ` set xs \<union> to_account ` set xs"

definition parties_inv :: "tables \<Rightarrow> bool" where
  \<comment> \<open>the log names existing accounts, or 0 for the bank\<close>
  "parties_inv t \<longleftrightarrow> parties (t_txns t) \<subseteq> insert 0 (a_user_id ` set (t_accounts t))"

fun apply_movement :: "uid \<Rightarrow> movement \<Rightarrow> double \<Rightarrow> double" where
  "apply_movement k (Deposited j x) v = (if j = k then dadd v x else v)"
| "apply_movement k (Withdrawn j x) v = (if j = k then dsub v x else v)"
| "apply_movement k (Sent f j x) v = (if f = k then dsub v x else v)"
| "apply_movement k (Received f j x) v = (if j = k then dadd v x else v)"
| "apply_movement k (Loan_paid j x) v = (if j = k then dadd v x else v)"
| "apply_movement k Other_movement v = v"

definition replay :: "uid \<Rightarrow> movement list \<Rightarrow> double" where
  "replay k ms = foldl (\<lambda>v m. apply_movement k m v) dzero ms"

definition ledger_inv :: "tables \<Rightarrow> bool" where
  \<comment> \<open>replaying the log gives every balance, bit for bit\<close>
  "ledger_inv t \<longleftrightarrow> (\<forall>a\<in>set (t_accounts t).
     balance a = replay (a_user_id a) (map movement_of (t_txns t)))"

definition loans_inv :: "tables \<Rightarrow> bool" where
  "loans_inv t \<longleftrightarrow> (\<forall>l\<in>set (t_loans t).
     if l_status l = LOAN_PENDING then assigned_to l = 0
     else assigned_to l \<in> u_user_id ` set (t_users t))"

fun loan_paid :: "movement \<Rightarrow> (uid \<times> double) option" where
  "loan_paid (Loan_paid k x) = Some (k, x)"
| "loan_paid _ = None"

definition approved_loans :: "loan_rec list \<Rightarrow> (uid \<times> double) multiset" where
  "approved_loans ls =
     mset (map (\<lambda>l. (l_user_id l, l_amount l)) (filter (\<lambda>l. l_status l = LOAN_APPROVED) ls))"

definition paid_loans :: "txn_rec list \<Rightarrow> (uid \<times> double) multiset" where
  "paid_loans ts = mset (List.map_filter loan_paid (map movement_of ts))"

definition paid_inv :: "tables \<Rightarrow> bool" where
  \<comment> \<open>every approved loan was credited exactly once, and nothing else was\<close>
  "paid_inv t \<longleftrightarrow> approved_loans (t_loans t) = paid_loans (t_txns t)"

definition books_inv :: "tables \<Rightarrow> bool" where
  \<comment> \<open>what every request keeps\<close>
  "books_inv t \<longleftrightarrow> ids_inv t \<and> accounts_inv t \<and> parties_inv t \<and> ledger_inv t \<and> loans_inv t \<and>
     paid_inv t"

definition bank_inv :: "tables \<Rightarrow> bool" where
  "bank_inv t \<longleftrightarrow> ids_inv t \<and> wf_inv t \<and> accounts_inv t \<and> contacts_inv t \<and> parties_inv t \<and>
     ledger_inv t \<and> loans_inv t \<and> paid_inv t"

definition room :: "tables \<Rightarrow> bool" where
  \<comment> \<open>the next user identifier still fits the \<open>int\<close> that computes it\<close>
  "room t \<longleftrightarrow> 1001 + length (t_users t) < 2 ^ 31"

section \<open>Preservation\<close>

lemma move_users_length: "move chk t t' \<Longrightarrow> length (t_users t') \<le> Suc (length (t_users t))"
  by (induction rule: move.induct) simp_all

lemma move_ids: "move chk t t' \<Longrightarrow> ids_inv t \<Longrightarrow> ids_inv t'"
  by (induction rule: move.induct)
    (auto simp: ids_inv_def next_uid_def next_id_def numbered_update numbered_append
      intro!: numbered_map numbered_append [of _ _ "_ @ [_]", simplified])

lemma ids_fresh:
  assumes "ids_inv t" "room t" "accounts_inv t"
  shows "fresh_uid t"
proof -
  have n: "numbered u_user_id 1001 (t_users t)" using assms(1) by (simp add: ids_inv_def)
  have b: "1001 + length (t_users t) < 2 ^ LENGTH(32)" using assms(2) by (simp add: room_def)
  have "a_user_id ` set (t_accounts t) \<subseteq> u_user_id ` set (t_users t)"
    using assms(3) by (auto simp: accounts_inv_def)
  with numbered_fresh [OF n b] numbered_zero [OF n b] show ?thesis
    by (auto simp: fresh_uid_def next_uid_def)
qed

lemma next_uid_pos: "room t \<Longrightarrow> next_uid (t_users t) \<noteq> 0"
  using word_of_nat_less_inj [of "1001 + length (t_users t)" 0, where 'a = 32]
  by (auto simp: room_def next_uid_def)

lemma set_update_image:
  "i < length rs \<Longrightarrow> f r = f (rs ! i) \<Longrightarrow> f ` set (rs[i := r]) = f ` set rs"
  by (metis list.set_map map_update_same)

lemma customers_update:
  fixes us :: "user_rec list" and u :: user_rec
  assumes "i < length us" "u_user_id u = u_user_id (us ! i)"
    "(u_role u = ROLE_CUSTOMER) = (u_role (us ! i) = ROLE_CUSTOMER)"
  shows "u_user_id ` {v \<in> set (us[i := u]). u_role v = ROLE_CUSTOMER} =
    u_user_id ` {v \<in> set us. u_role v = ROLE_CUSTOMER}"
proof -
  let ?g = "\<lambda>u. (u_user_id u, u_role u = ROLE_CUSTOMER)"
  have "?g ` set (us[i := u]) = ?g ` set us"
    using assms by (simp add: set_update_image)
  moreover have "u_user_id ` {u \<in> A. u_role u = ROLE_CUSTOMER} = {k. (k, True) \<in> ?g ` A}"
    for A :: "user_rec set" by (auto simp: image_iff)
  ultimately show ?thesis by (simp only:)
qed

lemma accounts_inv_cong:
  "accounts_inv t \<Longrightarrow> t_users t' = t_users t \<Longrightarrow> t_accounts t' = t_accounts t \<Longrightarrow> accounts_inv t'"
  by (simp add: accounts_inv_def)

lemma accounts_inv_update:
  "accounts_inv t \<Longrightarrow> t_users t' = t_users t \<Longrightarrow> t_accounts t' = (t_accounts t)[i := a] \<Longrightarrow>
   i < length (t_accounts t) \<Longrightarrow> a_user_id a = a_user_id (t_accounts t ! i) \<Longrightarrow>
   account_id a = account_id (t_accounts t ! i) \<Longrightarrow> accounts_inv t'"
  by (auto simp: accounts_inv_def set_update_image dest!: set_update_cases)

lemma move_accounts:
  assumes "move chk t t'" "accounts_inv t" "fresh_uid t"
  shows "accounts_inv t'"
  using assms
proof (induction rule: move.induct)
  case (edit_user i t u u')
  have "u_user_id ` {v \<in> set ((t_users t)[i := u']). u_role v = ROLE_CUSTOMER} =
      u_user_id ` {v \<in> set (t_users t). u_role v = ROLE_CUSTOMER}"
    by (rule customers_update) (use edit_user in simp_all)
  with edit_user show ?case by (simp add: accounts_inv_def)
next
  case (hire u t)
  then have "{v \<in> set (t_users t @ [u]). u_role v = ROLE_CUSTOMER} =
      {v \<in> set (t_users t). u_role v = ROLE_CUSTOMER}" by auto
  with hire show ?case by (simp add: accounts_inv_def)
next
  case (enroll u t a)
  then have "{v \<in> set (t_users t @ [u]). u_role v = ROLE_CUSTOMER} =
      insert u {v \<in> set (t_users t). u_role v = ROLE_CUSTOMER}" by auto
  with enroll show ?case by (auto simp: accounts_inv_def fresh_uid_def)
next
  case (transfer i t j a b x tx1 tx2)
  let ?as = "(t_accounts t)[i := a\<lparr>balance := dsub (balance a) x\<rparr>]"
  have "accounts_inv (t\<lparr>t_accounts := ?as\<rparr>)"
    by (rule accounts_inv_update [where i = i and t = t and a = "a\<lparr>balance := dsub (balance a) x\<rparr>"]) (use transfer in simp_all)
  then show ?case
    by (rule accounts_inv_update [where i = j and t = "t\<lparr>t_accounts := ?as\<rparr>" and
          a = "b\<lparr>balance := dadd (balance b) x\<rparr>"]) (use transfer in simp_all)
qed (auto intro: accounts_inv_cong accounts_inv_update)

lemma no_clash_sym: "no_clash u v \<Longrightarrow> no_clash v u"
  by (auto simp: no_clash_def)

lemma contacts_append:
  assumes "contacts_inv t" "\<forall>v\<in>set (t_users t). no_clash u v" "t_users t' = t_users t @ [u]"
  shows "contacts_inv t'"
  using assms by (auto simp: contacts_inv_def nth_append less_Suc_eq intro: no_clash_sym)

lemma contacts_update:
  assumes "contacts_inv t" "i < length (t_users t)" "numbered u_user_id 1001 (t_users t)" "room t"
    "username u' = username (t_users t ! i)"
    "(email u' = email (t_users t ! i) \<and> phone u' = phone (t_users t ! i)) \<or>
     (\<forall>v\<in>set (t_users t). u_user_id v \<noteq> u_user_id (t_users t ! i) \<longrightarrow> no_clash u' v)"
  shows "contacts_inv (t\<lparr>t_users := (t_users t)[i := u']\<rparr>)"
proof -
  have dist: "distinct (map u_user_id (t_users t))"
    using numbered_distinct [OF assms(3)] assms(4) by (simp add: room_def)
  have "no_clash u' (t_users t ! j)" if "j < length (t_users t)" "j \<noteq> i" for j
  proof -
    have ids: "u_user_id (t_users t ! j) \<noteq> u_user_id (t_users t ! i)"
      using nth_eq_iff_index_eq [OF dist, of j i] that assms(2) by simp
    have old: "no_clash (t_users t ! i) (t_users t ! j)"
      using assms(1,2) that by (auto simp: contacts_inv_def)
    from assms(6) show ?thesis
      using old ids that assms(5) by (auto simp: no_clash_def)
  qed
  note new = this
  show ?thesis
    unfolding contacts_inv_def
  proof (simp, intro allI impI)
    fix a b assume ab: "a < length (t_users t)" "b < length (t_users t)" "a \<noteq> b"
    consider "a = i" | "b = i" | "a \<noteq> i" "b \<noteq> i" by blast
    then show "no_clash ((t_users t)[i := u'] ! a) ((t_users t)[i := u'] ! b)"
      using ab assms(1,2) new [of a] new [of b] no_clash_sym
      by cases (auto simp: contacts_inv_def)
  qed
qed

lemma move_contacts:
  assumes "move chk t t'" "chk" "contacts_inv t" "ids_inv t" "room t"
  shows "contacts_inv t'"
  using assms
proof (induction rule: move.induct)
  case (edit_user i t u u')
  then show ?case
    by (intro contacts_update) (auto simp: ids_inv_def)
next
  case (hire u t)
  then show ?case by - (rule contacts_append [of t u], simp_all)
next
  case (enroll u t a)
  then show ?case by - (rule contacts_append [of t u], simp_all)
qed (auto simp: contacts_inv_def)

lemma parties_append:
  assumes "parties_inv t" "a_user_id ` set (t_accounts t) \<subseteq> a_user_id ` set (t_accounts t')"
    "t_txns t' = t_txns t @ xs" "parties xs \<subseteq> insert 0 (a_user_id ` set (t_accounts t))"
  shows "parties_inv t'"
proof -
  have "parties (t_txns t') = parties (t_txns t) \<union> parties xs"
    by (auto simp: parties_def assms(3))
  also have "\<dots> \<subseteq> insert 0 (a_user_id ` set (t_accounts t))"
    using assms(1,4) by (simp only: parties_inv_def Un_subset_iff)
  also have "\<dots> \<subseteq> insert 0 (a_user_id ` set (t_accounts t'))"
    using assms(2) by (rule insert_mono)
  finally show ?thesis by (simp only: parties_inv_def)
qed

lemma parties_simps [simp]: "parties [] = {}" "parties (x # xs) = {from_account x, to_account x} \<union> parties xs"
  by (auto simp: parties_def)

lemma account_id_in: "i < length (t_accounts t) \<Longrightarrow>
  a_user_id (t_accounts t ! i) \<in> a_user_id ` set (t_accounts t)"
  by simp

lemma move_parties: "move chk t t' \<Longrightarrow> parties_inv t \<Longrightarrow> parties_inv t'"
proof (induction rule: move.induct)
  case (enroll u t a)
  then show ?case by - (rule parties_append [of t _ "[]"], simp_all add: subset_insertI)
next
  case (set_status i t v)
  then show ?case by - (rule parties_append [of t _ "[]"], simp_all add: set_update_image)
next
  case (deposit i t a x tx)
  with account_id_in [of i t] show ?case
    by - (rule parties_append [of t _ "[tx]"], simp_all add: set_update_image)
next
  case (withdraw i t a x tx)
  with account_id_in [of i t] show ?case
    by - (rule parties_append [of t _ "[tx]"], simp_all add: set_update_image)
next
  case (transfer i t j a b x tx1 tx2)
  let ?as = "(t_accounts t)[i := a\<lparr>balance := dsub (balance a) x\<rparr>]"
  have "a_user_id ` set (?as[j := b\<lparr>balance := dadd (balance b) x\<rparr>]) = a_user_id ` set ?as"
    by (rule set_update_image) (use transfer in simp_all)
  also have "a_user_id ` set ?as = a_user_id ` set (t_accounts t)"
    by (rule set_update_image) (use transfer in simp_all)
  finally show ?case
    using transfer account_id_in [of i t] account_id_in [of j t]
    by - (rule parties_append [of t _ "[tx1, tx2]"], simp_all)
next
  case (approve_loan i t l j a tx w)
  have "a_user_id a \<in> a_user_id ` set (t_accounts t)"
    using account_id_in [OF approve_loan(4)] by (simp only: approve_loan(5))
  then have "l_user_id l \<in> a_user_id ` set (t_accounts t)"
    by (simp only: approve_loan(6))
  then have "parties [tx] \<subseteq> insert 0 (a_user_id ` set (t_accounts t))"
    by (simp add: approve_loan(10,11))
  with approve_loan(4-6,12) show ?case
    by - (rule parties_append [of t _ "[tx]"], simp_all add: set_update_image)
qed (simp_all add: parties_inv_def)

section \<open>The audit log replays to the balances\<close>

lemma replay_snoc [simp]: "replay k (ms @ [m]) = apply_movement k m (replay k ms)"
  by (simp add: replay_def)

lemma replay_others:
  "k \<noteq> 0 \<Longrightarrow> k \<notin> parties xs \<Longrightarrow> replay k (map movement_of xs) = dzero"
proof (induction xs rule: rev_induct)
  case Nil
  then show ?case by (simp add: replay_def)
next
  case (snoc x xs)
  then have "k \<notin> parties xs" "k \<noteq> from_account x" "k \<noteq> to_account x" by (auto simp: parties_def)
  with snoc show ?case by (simp add: movement_of_def Let_def)
qed

lemma ledger_cong:
  "ledger_inv t \<Longrightarrow> t_txns t' = t_txns t \<Longrightarrow> t_accounts t' = t_accounts t \<Longrightarrow> ledger_inv t'"
  by (simp add: ledger_inv_def)

lemma ledger_update:
  assumes "ledger_inv t" "distinct (map a_user_id (t_accounts t))"
    "i < length (t_accounts t)" "t_accounts t ! i = a"
    "\<And>k v. apply_movement k (movement_of tx) v = (if k = a_user_id a then f v else v)"
    "t_accounts t' = (t_accounts t)[i := a\<lparr>balance := f (balance a)\<rparr>]"
    "t_txns t' = t_txns t @ [tx]"
  shows "ledger_inv t'"
  unfolding ledger_inv_def assms(6,7)
proof
  fix b assume b: "b \<in> set ((t_accounts t)[i := a\<lparr>balance := f (balance a)\<rparr>])"
  have a: "balance a = replay (a_user_id a) (map movement_of (t_txns t))"
    using assms(1,3,4) nth_mem by (force simp: ledger_inv_def)
  from b obtain j where j: "j < length (t_accounts t)"
    "b = (t_accounts t)[i := a\<lparr>balance := f (balance a)\<rparr>] ! j" by (auto simp: in_set_conv_nth)
  show "balance b = replay (a_user_id b) (map movement_of (t_txns t @ [tx]))"
  proof (cases "j = i")
    case True
    with j a assms(3,5) show ?thesis by simp
  next
    case False
    with j assms(2-4) have "a_user_id b \<noteq> a_user_id a"
      using nth_eq_iff_index_eq [OF assms(2), of j i] by simp
    moreover have "b \<in> set (t_accounts t)" using j False by simp
    ultimately show ?thesis using assms(1,5) by (simp add: ledger_inv_def)
  qed
qed

lemma accounts_distinct: "accounts_inv t \<Longrightarrow> distinct (map a_user_id (t_accounts t))"
  by (simp add: accounts_inv_def)

lemma move_ledger:
  assumes "move chk t t'" "ledger_inv t" "accounts_inv t" "parties_inv t" "fresh_uid t"
    "next_uid (t_users t) \<noteq> 0"
  shows "ledger_inv t'"
  using assms
proof (induction rule: move.induct)
  case (enroll u t a)
  then have "a_user_id a \<noteq> 0" "a_user_id a \<notin> parties (t_txns t)"
    using subsetD [of "parties (t_txns t)" _ "next_uid (t_users t)"]
    by (simp_all add: fresh_uid_def parties_inv_def) blast
  with enroll replay_others show ?case by (auto simp: ledger_inv_def)
next
  case (set_status i t v)
  then show ?case by (auto simp: ledger_inv_def dest!: set_update_cases)
next
  case (deposit i t a x tx)
  show ?case
    by (rule ledger_update [where t = t and tx = tx and a = a and f = "\<lambda>v. dadd v x"])
      (use deposit in \<open>simp_all add: accounts_distinct\<close>)
next
  case (withdraw i t a x tx)
  show ?case
    by (rule ledger_update [where t = t and tx = tx and a = a and f = "\<lambda>v. dsub v x"])
      (use withdraw in \<open>simp_all add: accounts_distinct\<close>)
next
  case (transfer i t j a b x tx1 tx2)
  let ?t = "t\<lparr>t_accounts := (t_accounts t)[i := a\<lparr>balance := dsub (balance a) x\<rparr>],
    t_txns := t_txns t @ [tx1]\<rparr>"
  have "ledger_inv ?t"
    by (rule ledger_update [where t = t and tx = tx1 and a = a and f = "\<lambda>v. dsub v x"])
      (use transfer in \<open>simp_all add: accounts_distinct\<close>)
  then show ?case
    by (rule ledger_update [where tx = tx2 and a = b and f = "\<lambda>v. dadd v x"])
      (use transfer in \<open>simp_all add: accounts_distinct\<close>)
next
  case (approve_loan i t l j a tx w)
  show ?case
    by (rule ledger_update [where t = t and tx = tx and a = a and f = "\<lambda>v. dadd v (l_amount l)"])
      (use approve_loan in \<open>simp_all add: accounts_distinct\<close>)
qed (simp_all add: ledger_inv_def)

section \<open>Loans\<close>

lemma loans_update:
  assumes "loans_inv t" "t_loans t' = (t_loans t)[i := l]" "t_users t' = t_users t"
    "if l_status l = LOAN_PENDING then assigned_to l = 0
     else assigned_to l \<in> u_user_id ` set (t_users t)"
  shows "loans_inv t'"
  unfolding loans_inv_def assms(2,3)
  using assms(1,4) by (blast dest: set_update_cases intro: loans_inv_def [THEN iffD1, THEN bspec])

lemma loan_assigned:
  "loans_inv t \<Longrightarrow> i < length (t_loans t) \<Longrightarrow> l_status (t_loans t ! i) \<noteq> LOAN_PENDING \<Longrightarrow>
   assigned_to (t_loans t ! i) \<in> u_user_id ` set (t_users t)"
  using nth_mem by (fastforce simp: loans_inv_def)

lemma loans_mono:
  assumes "loans_inv t" "t_loans t' = t_loans t"
    "u_user_id ` set (t_users t) \<subseteq> u_user_id ` set (t_users t')"
  shows "loans_inv t'"
  using assms unfolding loans_inv_def by (metis subsetD)

lemma move_loans: "move chk t t' \<Longrightarrow> loans_inv t \<Longrightarrow> loans_inv t'"
proof (induction rule: move.induct)
  case (edit_user i t u u')
  show ?case by (rule loans_mono [of t]) (use edit_user in \<open>simp_all add: set_update_image\<close>)
next
  case (hire u t)
  show ?case by (rule loans_mono [of t]) (use hire in \<open>simp_all add: subset_insertI\<close>)
next
  case (enroll u t a)
  show ?case by (rule loans_mono [of t]) (use enroll in \<open>simp_all add: subset_insertI\<close>)
next
  case (assign_loan i t l u k)
  show ?case
    by (rule loans_update [of t _ i "l\<lparr>assigned_to := k, l_status := LOAN_ASSIGNED\<rparr>"])
      (use assign_loan in auto)
next
  case (reject_loan i t l w)
  show ?case
    by (rule loans_update [of t _ i "l\<lparr>l_status := LOAN_REJECTED, processed_at := w\<rparr>"])
      (use reject_loan loan_assigned [of t i] in auto)
next
  case (approve_loan i t l j a tx w)
  show ?case
    by (rule loans_update [of t _ i "l\<lparr>l_status := LOAN_APPROVED, processed_at := w\<rparr>"])
      (use approve_loan loan_assigned [of t i] in auto)
qed (auto simp: loans_inv_def)

lemma paid_cong:
  "paid_inv t \<Longrightarrow> approved_loans (t_loans t') = approved_loans (t_loans t) \<Longrightarrow>
   paid_loans (t_txns t') = paid_loans (t_txns t) \<Longrightarrow> paid_inv t'"
  by (simp add: paid_inv_def)

lemma paid_loans_append [simp]: "paid_loans (xs @ ys) = paid_loans xs + paid_loans ys"
  by (simp add: paid_loans_def map_filter_def)

lemma paid_loans_one [simp]: "paid_loans (x # xs) =
  (case loan_paid (movement_of x) of None \<Rightarrow> {#} | Some p \<Rightarrow> {#p#}) + paid_loans xs"
  by (simp add: paid_loans_def map_filter_def split: option.splits)

lemma paid_loans_none [simp]: "paid_loans [] = {#}"
  by (simp add: paid_loans_def map_filter_def)

lemma approved_append [simp]: "approved_loans (xs @ ys) = approved_loans xs + approved_loans ys"
  by (simp add: approved_loans_def)

lemma approved_one [simp]: "approved_loans [l] =
  (if l_status l = LOAN_APPROVED then {#(l_user_id l, l_amount l)#} else {#})"
  by (simp add: approved_loans_def)

lemma approved_update:
  assumes "i < length ls" "l_status (ls ! i) \<noteq> LOAN_APPROVED"
  shows "approved_loans (ls[i := l]) = approved_loans ls +
    (if l_status l = LOAN_APPROVED then {#(l_user_id l, l_amount l)#} else {#})"
  using mset_filter_map_update [OF assms(1), of "\<lambda>l. (l_user_id l, l_amount l)"
      "\<lambda>l. l_status l = LOAN_APPROVED" l] assms(2)
  by (simp add: approved_loans_def)

lemma move_paid: "move chk t t' \<Longrightarrow> paid_inv t \<Longrightarrow> paid_inv t'"
  by (induction rule: move.induct) (simp_all add: paid_inv_def approved_update)

section \<open>The invariant of the bank\<close>

lemma bank_inv_iff: "bank_inv t \<longleftrightarrow> books_inv t \<and> wf_inv t \<and> contacts_inv t"
  by (auto simp: bank_inv_def books_inv_def)

lemma books_fresh: "books_inv t \<Longrightarrow> room t \<Longrightarrow> fresh_uid t"
  by (simp add: books_inv_def ids_fresh)

lemma move_books_inv:
  assumes "move chk t t'" "books_inv t" "room t"
  shows "books_inv t'"
  using assms ids_fresh [of t] next_uid_pos [of t] move_ids [OF assms(1)]
    move_accounts [OF assms(1)] move_parties [OF assms(1)]
    move_ledger [OF assms(1)] move_loans [OF assms(1)] move_paid [OF assms(1)]
  by (simp add: books_inv_def)

lemma move_contacts_inv:
  assumes "move True t t'" "books_inv t" "contacts_inv t" "room t"
  shows "contacts_inv t'"
  using move_contacts [OF assms(1) TrueI assms(3) _ assms(4)] assms(2) by (simp add: books_inv_def)

end
