(* ===== verification/History.thy ===== *)
theory History
  imports Moves
begin

text \<open>
  What no request can undo: the audit log only grows, records keep their place and their
  identity, a loan only moves forward through its states and a reviewed feedback stays as
  it is. \<open>history t t'\<close> is reflexive and transitive, so that it holds along every run.
\<close>

section \<open>Tables that grow in place\<close>

definition grows :: "('r \<Rightarrow> 'r \<Rightarrow> bool) \<Rightarrow> 'r list \<Rightarrow> 'r list \<Rightarrow> bool" where
  "grows R xs ys \<longleftrightarrow> length xs \<le> length ys \<and> (\<forall>i<length xs. R (xs ! i) (ys ! i))"

lemma grows_refl [intro, simp]: "(\<And>x. R x x) \<Longrightarrow> grows R xs xs"
  by (simp add: grows_def)

lemma grows_append [intro]: "(\<And>x. R x x) \<Longrightarrow> grows R xs (xs @ ys)"
  by (simp add: grows_def nth_append)

lemma grows_update [intro]: "(\<And>x. R x x) \<Longrightarrow> R (xs ! i) x \<Longrightarrow> grows R xs (xs[i := x])"
  unfolding grows_def by (simp, metis nth_list_update_eq nth_list_update_neq)

lemma grows_map [intro]: "(\<And>x. R x (f x)) \<Longrightarrow> grows R xs (map f xs)"
  by (simp add: grows_def)

lemma grows_trans:
  assumes "\<And>x y z. R x y \<Longrightarrow> R y z \<Longrightarrow> R x z" "grows R xs ys" "grows R ys zs"
  shows "grows R xs zs"
  unfolding grows_def
proof (intro conjI allI impI)
  show "length xs \<le> length zs" using assms(2,3) by (simp add: grows_def)
  fix i assume "i < length xs"
  with assms(2,3) show "R (xs ! i) (zs ! i)"
    by (intro assms(1) [of "xs ! i" "ys ! i" "zs ! i"]) (simp_all add: grows_def)
qed

section \<open>Records\<close>

definition loan_reaches :: "loan_status_t \<Rightarrow> loan_status_t \<Rightarrow> bool" where
  \<comment> \<open>pending, then assigned, then approved or rejected for good\<close>
  "loan_reaches p q \<longleftrightarrow> p = q \<or> p = LOAN_PENDING \<or> (p = LOAN_ASSIGNED \<and> q \<noteq> LOAN_PENDING)"

definition loan_evolves :: "loan_rec \<Rightarrow> loan_rec \<Rightarrow> bool" where
  "loan_evolves l m \<longleftrightarrow> loan_id m = loan_id l \<and> l_user_id m = l_user_id l \<and>
     l_amount m = l_amount l \<and> applied_at m = applied_at l \<and> remarks m = remarks l \<and>
     loan_reaches (l_status l) (l_status m) \<and>
     (l_status m = l_status l \<longrightarrow> m = l)"

definition user_evolves :: "user_rec \<Rightarrow> user_rec \<Rightarrow> bool" where
  "user_evolves u v \<longleftrightarrow> u_user_id v = u_user_id u \<and> username v = username u \<and>
     u_active v = u_active u \<and> (u_role v = ROLE_CUSTOMER) = (u_role u = ROLE_CUSTOMER)"

definition account_evolves :: "account_rec \<Rightarrow> account_rec \<Rightarrow> bool" where
  "account_evolves a b \<longleftrightarrow> account_id b = account_id a \<and> a_user_id b = a_user_id a"

definition feedback_evolves :: "feedback_rec \<Rightarrow> feedback_rec \<Rightarrow> bool" where
  "feedback_evolves f g \<longleftrightarrow> g = f \<or> (reviewed f = 0 \<and> g = f\<lparr>reviewed := 1\<rparr>)"

lemmas evolves_defs = loan_evolves_def loan_reaches_def user_evolves_def account_evolves_def
  feedback_evolves_def

lemma evolves_refl [simp]:
  "loan_evolves l l" "user_evolves u u" "account_evolves a a" "feedback_evolves f f"
  by (simp_all add: evolves_defs)

lemma loan_evolves_trans: "loan_evolves l m \<Longrightarrow> loan_evolves m n \<Longrightarrow> loan_evolves l n"
  by (cases "l_status l"; cases "l_status m"; cases "l_status n") (auto simp: evolves_defs)

lemma user_evolves_trans: "user_evolves u v \<Longrightarrow> user_evolves v w \<Longrightarrow> user_evolves u w"
  by (simp add: evolves_defs)

lemma account_evolves_trans: "account_evolves u v \<Longrightarrow> account_evolves v w \<Longrightarrow> account_evolves u w"
  by (simp add: evolves_defs)

lemma feedback_evolves_trans: "feedback_evolves f g \<Longrightarrow> feedback_evolves g h \<Longrightarrow> feedback_evolves f h"
  by (auto simp: evolves_defs)

section \<open>The history of the database\<close>

definition history :: "tables \<Rightarrow> tables \<Rightarrow> bool" where
  "history t t' \<longleftrightarrow> prefix (t_txns t) (t_txns t') \<and> grows user_evolves (t_users t) (t_users t') \<and>
     grows account_evolves (t_accounts t) (t_accounts t') \<and>
     grows loan_evolves (t_loans t) (t_loans t') \<and> grows feedback_evolves (t_fbs t) (t_fbs t')"

lemma history_refl [simp]: "history t t"
  by (simp add: history_def)

lemma history_trans: "history t t1 \<Longrightarrow> history t1 t2 \<Longrightarrow> history t t2"
  unfolding history_def
  by (meson prefix_order.trans grows_trans loan_evolves_trans user_evolves_trans
      account_evolves_trans feedback_evolves_trans)

lemma move_history: "move chk t t' \<Longrightarrow> history t t'"
proof (induction rule: move.induct)
  case (transfer i t j a b x tx1 tx2)
  have "grows account_evolves (t_accounts t) ((t_accounts t)[i := a\<lparr>balance := dsub (balance a) x\<rparr>])"
    using transfer by (intro grows_update) (simp_all add: account_evolves_def)
  moreover have "grows account_evolves ((t_accounts t)[i := a\<lparr>balance := dsub (balance a) x\<rparr>])
      ((t_accounts t)[i := a\<lparr>balance := dsub (balance a) x\<rparr>, j := b\<lparr>balance := dadd (balance b) x\<rparr>])"
    using transfer by (intro grows_update) (simp_all add: account_evolves_def)
  ultimately show ?case
    using grows_trans [OF account_evolves_trans] by (auto simp: history_def)
qed (auto simp: history_def evolves_defs intro!: grows_update grows_append grows_map)

text \<open>Feedback and users keep their number or grow, loans keep their owner and amount.\<close>

lemma history_loan:
  "history t t' \<Longrightarrow> i < length (t_loans t) \<Longrightarrow>
   i < length (t_loans t') \<and> loan_evolves (t_loans t ! i) (t_loans t' ! i)"
  by (simp add: history_def grows_def)

lemma history_users_length: "history t t' \<Longrightarrow> length (t_users t) \<le> length (t_users t')"
  by (simp add: history_def grows_def)

end
