(* ===== verification/Sessions.thy ===== *)
theory Sessions
  imports Server
begin

text \<open>
  The session table of \<^verbatim>\<open>server.c\<close>. The locale \<open>session_table\<close> states what the connections
  rely on; \<open>active_sessions\<close> with the two loops of the server is its implementation. The
  invariant gives exclusive login; a second \<open>LOGIN\<close> on one connection leaves a session that
  no connection can ever close.
\<close>

section \<open>What the connections rely on\<close>

type_synonym connections = "nat \<Rightarrow> uid option"

definition exclusive :: "(uid \<Rightarrow> bool) \<Rightarrow> connections \<Rightarrow> bool" where
  \<comment> \<open>a connection's user is in the table, and no other connection has the same user\<close>
  "exclusive h cs \<longleftrightarrow> (\<forall>fd k. cs fd = Some k \<longrightarrow> k \<noteq> 0 \<longrightarrow>
     h k \<and> (\<forall>fd'. cs fd' = Some k \<longrightarrow> fd' = fd))"

definition orphan :: "uid \<Rightarrow> (uid \<Rightarrow> bool) \<Rightarrow> connections \<Rightarrow> bool" where
  \<comment> \<open>a session in the table that belongs to no connection\<close>
  "orphan k h cs \<longleftrightarrow> k \<noteq> 0 \<and> h k \<and> (\<forall>fd. cs fd \<noteq> Some k)"

locale session_table =
  fixes valid :: "'t \<Rightarrow> bool"
    and holds :: "'t \<Rightarrow> uid \<Rightarrow> bool"
    and enter :: "uid \<Rightarrow> uid \<Rightarrow> 't \<Rightarrow> bool \<times> uid \<times> 't"
    and leave :: "uid \<Rightarrow> 't \<Rightarrow> 't"
  assumes enter_taken: "valid t \<Longrightarrow> k \<noteq> 0 \<Longrightarrow> holds t k \<Longrightarrow> enter k c t = (False, c, t)"
    and enter_refused: "valid t \<Longrightarrow> enter k c t = (False, c', t') \<Longrightarrow> c' = c \<and> t' = t"
    and enter_done: "valid t \<Longrightarrow> enter k c t = (True, c', t') \<Longrightarrow>
      (c' = c \<and> t' = t) \<or>
      (k \<noteq> 0 \<and> \<not> holds t k \<and> c' = k \<and> valid t' \<and> holds t' = (holds t)(k := True))"
    and leave_valid: "valid t \<Longrightarrow> valid (leave k t)"
    and leave_holds: "valid t \<Longrightarrow> k \<noteq> 0 \<Longrightarrow> holds (leave k t) = (holds t)(k := False)"
    and leave_zero: "leave 0 t = t"
begin

lemma accept_exclusive:
  "exclusive (holds t) cs \<Longrightarrow> cs fd = None \<Longrightarrow> exclusive (holds t) (cs(fd \<mapsto> 0))"
  by (simp add: exclusive_def)

lemma enter_exclusive:
  assumes "valid t" "exclusive (holds t) cs" "cs fd = Some c" "enter k c t = (ok, c', t')"
  shows "valid t' \<and> exclusive (holds t') (cs(fd \<mapsto> c'))"
proof (cases "c' = c \<and> t' = t")
  case True
  with assms show ?thesis by (simp add: fun_upd_idem)
next
  case False
  with enter_refused [OF assms(1)] assms(4) have ok by (cases ok) auto
  with False enter_done [OF assms(1)] assms(4)
  have *: "k \<noteq> 0" "\<not> holds t k" "c' = k" "valid t'" "holds t' = (holds t)(k := True)"
    by (metis (full_types))+
  have "cs fd' \<noteq> Some k" for fd'
    using assms(2) *(1,2) by (auto simp: exclusive_def)
  with * assms(2) show ?thesis by (auto simp: exclusive_def)
qed

lemma leave_drop:
  assumes "valid t" "exclusive (holds t) cs" "cs fd = Some c"
  shows "valid (leave c t)" "exclusive (holds (leave c t)) (cs(fd \<mapsto> 0))"
    "exclusive (holds (leave c t)) (cs(fd := None))"
proof -
  show "valid (leave c t)" using assms(1) by (rule leave_valid)
  show "exclusive (holds (leave c t)) (cs(fd \<mapsto> 0))"
    "exclusive (holds (leave c t)) (cs(fd := None))"
    using assms leave_holds [OF assms(1), of c] leave_zero
    by (cases "c = 0"; auto simp: exclusive_def)+
qed

lemma enter_orphan:
  assumes "valid t" "orphan j (holds t) cs" "cs fd = Some c" "enter k c t = (ok, c', t')"
  shows "orphan j (holds t') (cs(fd \<mapsto> c'))"
proof (cases "c' = c \<and> t' = t")
  case True
  with assms show ?thesis by (simp add: fun_upd_idem)
next
  case False
  with enter_refused [OF assms(1)] assms(4) have ok by (cases ok) auto
  with False enter_done [OF assms(1)] assms(4)
  have *: "\<not> holds t k" "c' = k" "holds t' = (holds t)(k := True)"
    by (metis (full_types))+
  with assms(2) show ?thesis by (auto simp: orphan_def)
qed

lemma leave_orphan:
  assumes "valid t" "orphan j (holds t) cs" "cs fd = Some c"
  shows "orphan j (holds (leave c t)) (cs(fd \<mapsto> 0))" "orphan j (holds (leave c t)) (cs(fd := None))"
  using assms leave_holds [OF assms(1), of c] leave_zero
  by (cases "c = 0"; auto simp: orphan_def)+

text \<open>Entering a second user on a connection orphans the first one.\<close>

lemma enter_twice:
  assumes "valid t" "exclusive (holds t) cs" "cs fd = Some c" "c \<noteq> 0"
    "enter k c t = (True, k, t')" "k \<noteq> c"
  shows "orphan c (holds t') (cs(fd \<mapsto> k))"
proof -
  from enter_done [OF assms(1,5)] assms(6) have "holds t' = (holds t)(k := True)" by auto
  with assms show ?thesis by (auto simp: orphan_def exclusive_def)
qed

end

section \<open>The table of the server\<close>

definition sessions_valid :: "sessions \<Rightarrow> bool" where
  \<comment> \<open>\<open>MAX_SESSIONS\<close> slots, no user twice\<close>
  "sessions_valid ss \<longleftrightarrow> length ss = MAX_CLIENTS \<and>
     (\<forall>i<length ss. \<forall>j<length ss. ss ! i = ss ! j \<longrightarrow> ss ! i \<noteq> 0 \<longrightarrow> i = j)"

definition has_session :: "sessions \<Rightarrow> uid \<Rightarrow> bool" where
  "has_session ss k \<longleftrightarrow> k \<noteq> 0 \<and> k \<in> set ss"

lemma replace_first_cases:
  "a \<in> set xs \<Longrightarrow> \<exists>i<length xs. xs ! i = a \<and> replace_first a b xs = xs[i := b]"
  using scan_offset_ex [of a xs "\<lambda>x. x = a"] scan_offset_SomeD
  by (fastforce simp: replace_first_def)

lemma replace_first_none: "a \<notin> set xs \<Longrightarrow> replace_first a b xs = xs"
  using scan_offset_None [of "\<lambda>x. x = a" xs] by (auto simp: replace_first_def)

lemma replace_first_same: "replace_first a a xs = xs"
proof (cases "a \<in> set xs")
  case True
  then obtain i where "xs ! i = a" "replace_first a a xs = xs[i := a]"
    using replace_first_cases by metis
  then show ?thesis by (metis list_update_id)
qed (simp add: replace_first_none)

lemma sessions_put:
  assumes "sessions_valid ss" "k = 0 \<or> k \<notin> set ss"
  shows "sessions_valid (ss[i := k])"
  unfolding sessions_valid_def
proof (intro conjI allI impI)
  show "length (ss[i := k]) = MAX_CLIENTS" using assms(1) by (simp add: sessions_valid_def)
  fix a b assume ab: "a < length (ss[i := k])" "b < length (ss[i := k])"
    "ss[i := k] ! a = ss[i := k] ! b" "ss[i := k] ! a \<noteq> 0"
  then have "ss ! a \<in> set ss" "ss ! b \<in> set ss" by simp_all
  then show "a = b"
    using ab assms by (cases "a = i"; cases "b = i") (auto simp: sessions_valid_def)
qed

lemma sessions_enter:
  assumes "sessions_valid ss" "0 \<in> set ss" "k \<notin> set ss" "k \<noteq> 0"
  shows "sessions_valid (replace_first 0 k ss)"
    "has_session (replace_first 0 k ss) = (has_session ss)(k := True)"
proof -
  from replace_first_cases [OF assms(2)] obtain i where
    i: "i < length ss" "ss ! i = 0" "replace_first 0 k ss = ss[i := k]" by metis
  have nk: "ss ! j \<noteq> k" if "j < length ss" for j using that assms(3) by auto
  show "sessions_valid (replace_first 0 k ss)"
    using sessions_put assms(1,3) by (simp add: i(3))
  have "j \<in> set (ss[i := k]) \<longleftrightarrow> j = k \<or> j \<in> set ss" if "j \<noteq> 0" for j
    using i that by (auto simp: in_set_conv_nth nth_list_update)
  then show "has_session (replace_first 0 k ss) = (has_session ss)(k := True)"
    using assms(4) by (auto simp: has_session_def i(3) fun_eq_iff)
qed

lemma sessions_leave:
  assumes "sessions_valid ss" "k \<noteq> 0"
  shows "sessions_valid (remove_active_session k ss)"
    "has_session (remove_active_session k ss) = (has_session ss)(k := False)"
proof -
  have "sessions_valid (remove_active_session k ss) \<and>
    has_session (remove_active_session k ss) = (has_session ss)(k := False)"
  proof (cases "k \<in> set ss")
    case True
    from replace_first_cases [OF this] obtain i where
      i: "i < length ss" "ss ! i = k" "replace_first k 0 ss = ss[i := 0]" by metis
    have only: "ss ! j = k \<longleftrightarrow> j = i" if "j < length ss" for j
      using assms i that by (auto simp: sessions_valid_def)
    have "sessions_valid (ss[i := 0])"
      using sessions_put assms(1) by simp
    moreover have "j \<in> set (ss[i := 0]) \<longleftrightarrow> j \<noteq> k \<and> j \<in> set ss" if "j \<noteq> 0" for j
      using i that assms(2) only by (auto simp: in_set_conv_nth nth_list_update) metis+
    ultimately show ?thesis
      by (auto simp: has_session_def remove_active_session_def i(3) fun_eq_iff)
  next
    case False
    with assms show ?thesis
      by (auto simp: has_session_def remove_active_session_def replace_first_none fun_eq_iff)
  qed
  then show "sessions_valid (remove_active_session k ss)"
    "has_session (remove_active_session k ss) = (has_session ss)(k := False)" by auto
qed

lemma sessions_leave_zero: "remove_active_session 0 ss = ss"
  by (simp add: remove_active_session_def replace_first_same)

interpretation slots: session_table sessions_valid has_session open_session remove_active_session
proof unfold_locales
  show "sessions_valid (remove_active_session k t)" if "sessions_valid t" for t k
    using that sessions_leave(1) sessions_leave_zero by (cases "k = 0") auto
next
  fix t k c c' t'
  assume t: "sessions_valid t" "open_session k c t = (True, c', t')"
  show "(c' = c \<and> t' = t) \<or> (k \<noteq> 0 \<and> \<not> has_session t k \<and> c' = k \<and> sessions_valid t' \<and>
      has_session t' = (has_session t)(k := True))"
  proof (cases "k \<notin> set t \<and> 0 \<in> set t")
    case True
    then have "k \<noteq> 0" by auto
    with True t sessions_enter [OF t(1)] show ?thesis
      by (auto simp: open_session_def has_session_def)
  next
    case False
    with t show ?thesis by (auto simp: open_session_def split: if_splits)
  qed
qed (auto simp: open_session_def has_session_def sessions_leave_zero sessions_leave split: if_splits)

end
