(* ===== verification/Service.thy ===== *)
theory Service
  imports Invariants History Sessions
begin

text \<open>
  The server as a whole: a run is a sequence of connections, requests and disconnections,
  each request with its own environment. Every step in which no creation,
  lock or write fails makes one move of the bank, so the invariant of the books and the history
  hold along every run of such steps, unique contacts when the requests leave room for them; the
  session table keeps logins
  exclusive whatever the environment does.
\<close>

section \<open>Runs\<close>

definition bank_tables :: "bank \<Rightarrow> tables" where
  "bank_tables b = tables_of (srv_store (server b))"

definition quiet_step :: "bank \<Rightarrow> bank \<Rightarrow> bool" where
  \<comment> \<open>an event of the server in which no creation, lock or write fails, whatever the
     uninitialised memory, the clock and \<^verbatim>\<open>crypt\<close> hold; a request is served whole\<close>
  "quiet_step b b' \<longleftrightarrow> (\<exists>e. io_ok e \<and> server_step e b b')"

text \<open>Events whose requests satisfy a condition.\<close>

inductive server_step_on :: "(string \<Rightarrow> string \<Rightarrow> bool) \<Rightarrow> env \<Rightarrow> bank \<Rightarrow> bank \<Rightarrow> bool"
  for P :: "string \<Rightarrow> string \<Rightarrow> bool" and e :: env where
  accept_on: "conns b fd = None \<Longrightarrow> server_step_on P e b (b\<lparr>conns := (conns b)(fd \<mapsto> 0)\<rparr>)"
| request_on: "conns b fd = Some cur \<Longrightarrow>
     P (cstr (req_op (req :: request_t))) (cstr (req_payload req)) \<Longrightarrow>
     handle_request e (cstr (req_op req)) (cstr (req_payload req)) cur (server b)
       = Inr (resp, cur', v') \<Longrightarrow>
     server_step_on P e b (b\<lparr>server := v', conns := (conns b)(fd \<mapsto> cur')\<rparr>)"
| disconnect_on: "conns b fd = Some cur \<Longrightarrow>
     server_step_on P e b
       (b\<lparr>server := close_client cur (server b), conns := (conns b)(fd := None)\<rparr>)"

lemma server_step_iff_on: "server_step e b b' \<longleftrightarrow> server_step_on (\<lambda>_ _. True) e b b'"
  by (auto elim!: server_step.cases server_step_on.cases intro: server_step.intros server_step_on.intros)

definition roomy_step :: "bank \<Rightarrow> bank \<Rightarrow> bool" where
  \<comment> \<open>such an event whose request leaves a byte to spare after the contact data it stores\<close>
  "roomy_step b b' \<longleftrightarrow> (\<exists>e. io_ok e \<and> server_step_on roomy_request e b b')"

lemma start_st_simps [simp]:
  "disk (start_st v) = srv_store v" "tick (start_st v) = srv_tick v" "resp_msg (start_st v) = []"
  by (simp_all add: start_st_def)

lemma handle_login_store:
  "handle_login e payload cur v = Inr (r, cur', v') \<Longrightarrow> srv_store v' = srv_store v"
  by (auto simp: handle_login_def Let_def split: sum.splits login_result.splits prod.splits if_splits)

lemma handle_request_move:
  assumes "handle_request e op payload cur v = Inr (r, cur', v')" "io_ok e" "clean payload"
    "fresh_uid (tables_of (srv_store v))" "chk \<Longrightarrow> roomy_request op payload"
  shows "move chk (tables_of (srv_store v)) (tables_of (srv_store v'))"
proof -
  consider (login) "op = ''LOGIN''" | (logout) "op = ''LOGOUT''"
    | (other) c s where "dispatch e op payload (start_st v) = Inr (c, s)" "srv_store v' = disk s"
    using assms(1) by (auto simp: handle_request_def split: if_splits sum.splits)
  then show ?thesis
  proof cases
    case login
    with assms(1) show ?thesis by (auto simp: handle_request_def move.stay dest: handle_login_store)
  next
    case logout
    with assms(1) show ?thesis by (auto simp: handle_request_def move.stay)
  next
    case other
    with dispatch_move [OF other(1) assms(2,3) _ assms(5)] assms(4) show ?thesis
      by simp
  qed
qed

lemma close_client_store [simp]: "srv_store (close_client cur v) = srv_store v"
  by (simp add: close_client_def)

lemma step_move:
  assumes "server_step_on P e b b'" "io_ok e" "books_inv (bank_tables b)" "room (bank_tables b)"
    "\<And>op payload. chk \<Longrightarrow> P op payload \<Longrightarrow> roomy_request op payload"
  shows "move chk (bank_tables b) (bank_tables b')"
  using assms(1)
proof cases
  case (request_on fd cur req resp cur' v')
  have "chk \<Longrightarrow> roomy_request (cstr (req_op req)) (cstr (req_payload req))"
    using assms(5) request_on(3) by simp
  from handle_request_move [OF request_on(4) assms(2) _ _ this] request_on(1) books_fresh [OF assms(3,4)]
  show ?thesis by (simp add: bank_tables_def)
qed (simp_all add: bank_tables_def move.stay)

lemma quiet_step_move:
  assumes "quiet_step b b'" "books_inv (bank_tables b)" "room (bank_tables b)"
  shows "move False (bank_tables b) (bank_tables b')"
  using assms(1) step_move [OF _ _ assms(2,3)] by (auto simp: quiet_step_def server_step_iff_on)

lemma roomy_step_move:
  assumes "roomy_step b b'" "books_inv (bank_tables b)" "room (bank_tables b)"
  shows "move True (bank_tables b) (bank_tables b')"
  using assms(1) step_move [OF _ _ assms(2,3)] by (auto simp: roomy_step_def)

lemma quiet_run:
  assumes "(quiet_step ^^ n) b b'" "books_inv (bank_tables b)"
    "1001 + length (t_users (bank_tables b)) + n < 2 ^ 31"
  shows "books_inv (bank_tables b') \<and> history (bank_tables b) (bank_tables b') \<and>
    length (t_users (bank_tables b')) \<le> length (t_users (bank_tables b)) + n"
  using assms(1,3)
proof (induction n arbitrary: b')
  case 0
  with assms(2) show ?case by simp
next
  case (Suc n)
  then obtain c where c: "(quiet_step ^^ n) b c" "quiet_step c b'" by auto
  with Suc have IH: "books_inv (bank_tables c)" "history (bank_tables b) (bank_tables c)"
    "length (t_users (bank_tables c)) \<le> length (t_users (bank_tables b)) + n" by simp_all
  then have r: "room (bank_tables c)" using Suc.prems(2) by (simp add: room_def)
  from quiet_step_move [OF c(2) IH(1) r] have m: "move False (bank_tables c) (bank_tables b')" .
  from move_books_inv [OF m IH(1) r] move_history [OF m] move_users_length [OF m] IH
  show ?case by (auto intro: history_trans)
qed

lemma roomy_run:
  assumes "(roomy_step ^^ n) b b'" "books_inv (bank_tables b)" "contacts_inv (bank_tables b)"
    "1001 + length (t_users (bank_tables b)) + n < 2 ^ 31"
  shows "books_inv (bank_tables b') \<and> contacts_inv (bank_tables b') \<and>
    length (t_users (bank_tables b')) \<le> length (t_users (bank_tables b)) + n"
  using assms(1,4)
proof (induction n arbitrary: b')
  case 0
  with assms(2,3) show ?case by simp
next
  case (Suc n)
  then obtain c where c: "(roomy_step ^^ n) b c" "roomy_step c b'" by auto
  with Suc have IH: "books_inv (bank_tables c)" "contacts_inv (bank_tables c)"
    "length (t_users (bank_tables c)) \<le> length (t_users (bank_tables b)) + n" by simp_all
  then have r: "room (bank_tables c)" using Suc.prems(2) by (simp add: room_def)
  from roomy_step_move [OF c(2) IH(1) r] have m: "move True (bank_tables c) (bank_tables b')" .
  from move_books_inv [OF m IH(1) r] move_contacts_inv [OF m IH(1,2) r] move_users_length [OF m] IH
  show ?case by simp
qed

section \<open>Sessions along a run\<close>

definition sessions_inv :: "bank \<Rightarrow> bool" where
  "sessions_inv b \<longleftrightarrow> sessions_valid (active_sessions (server b)) \<and>
     exclusive (has_session (active_sessions (server b))) (conns b)"

definition leaked :: "uid \<Rightarrow> bank \<Rightarrow> bool" where
  \<comment> \<open>a session that no connection owns\<close>
  "leaked k b \<longleftrightarrow> orphan k (has_session (active_sessions (server b))) (conns b)"

lemma handle_login_sessions:
  assumes "handle_login e payload cur v = Inr (r, cur', v')"
  shows "(cur' = cur \<and> active_sessions v' = active_sessions v) \<or>
    (\<exists>k. open_session k cur (active_sessions v) = (True, cur', active_sessions v'))"
  using assms
  by (auto simp: handle_login_def Let_def split: sum.splits login_result.splits prod.splits if_splits)

lemma handle_request_sessions:
  assumes "handle_request e op payload cur v = Inr (r, cur', v')"
  shows "(cur' = cur \<and> active_sessions v' = active_sessions v) \<or>
    (\<exists>k. open_session k cur (active_sessions v) = (True, cur', active_sessions v')) \<or>
    (cur' = 0 \<and> active_sessions v' = remove_active_session cur (active_sessions v))"
proof (cases "op = ''LOGIN''")
  case True
  with assms handle_login_sessions [of e payload cur v r cur' v'] show ?thesis
    by (auto simp: handle_request_def)
next
  case False
  with assms show ?thesis by (auto simp: handle_request_def split: if_splits sum.splits)
qed

lemma close_client_sessions:
  "active_sessions (close_client cur v) = remove_active_session cur (active_sessions v)"
  by (simp add: close_client_def sessions_leave_zero)

lemma server_step_sessions:
  assumes "server_step e b b'" "sessions_inv b"
  shows "sessions_inv b'"
  using assms
proof cases
  case (accept fd)
  with assms(2) slots.accept_exclusive show ?thesis by (simp add: sessions_inv_def)
next
  case (request fd cur req resp cur' v')
  from assms(2) have v: "sessions_valid (active_sessions (server b))"
    "exclusive (has_session (active_sessions (server b))) (conns b)"
    by (simp_all add: sessions_inv_def)
  from handle_request_sessions [OF request(3)] show ?thesis
  proof (elim disjE exE conjE)
    assume "cur' = cur" "active_sessions v' = active_sessions (server b)"
    with v request show ?thesis by (simp add: sessions_inv_def fun_upd_idem)
  next
    fix k assume "open_session k cur (active_sessions (server b)) = (True, cur', active_sessions v')"
    from slots.enter_exclusive [OF v request(2) this] request(1) show ?thesis
      by (simp add: sessions_inv_def)
  next
    assume "cur' = 0" "active_sessions v' = remove_active_session cur (active_sessions (server b))"
    with slots.leave_drop [OF v request(2)] request(1) show ?thesis
      by (simp add: sessions_inv_def)
  qed
next
  case (disconnect fd cur)
  with assms(2) slots.leave_drop [of "active_sessions (server b)" "conns b" fd cur] show ?thesis
    by (simp add: sessions_inv_def close_client_sessions)
qed

lemma server_step_leaked:
  assumes "server_step e b b'" "sessions_inv b" "leaked j b"
  shows "leaked j b'"
  using assms(1)
proof cases
  case (accept fd)
  with assms(3) show ?thesis by (auto simp: leaked_def orphan_def)
next
  case (request fd cur req resp cur' v')
  from assms(2,3) have v: "sessions_valid (active_sessions (server b))"
    "orphan j (has_session (active_sessions (server b))) (conns b)"
    by (simp_all add: sessions_inv_def leaked_def)
  from handle_request_sessions [OF request(3)] show ?thesis
  proof (elim disjE exE conjE)
    assume "cur' = cur" "active_sessions v' = active_sessions (server b)"
    with v request show ?thesis by (simp add: leaked_def fun_upd_idem)
  next
    fix k assume "open_session k cur (active_sessions (server b)) = (True, cur', active_sessions v')"
    from slots.enter_orphan [OF v request(2) this] request(1) show ?thesis
      by (simp add: leaked_def)
  next
    assume "cur' = 0" "active_sessions v' = remove_active_session cur (active_sessions (server b))"
    with slots.leave_orphan [OF v request(2)] request(1) show ?thesis
      by (simp add: leaked_def)
  qed
next
  case (disconnect fd cur)
  with assms(2,3) slots.leave_orphan [of "active_sessions (server b)" j "conns b" fd cur] show ?thesis
    by (simp add: leaked_def sessions_inv_def close_client_sessions)
qed

lemma sessions_init: "sessions_inv (server_init d)"
  by (auto simp: sessions_inv_def server_init_def sessions_valid_def exclusive_def)

definition any_step :: "bank \<Rightarrow> bank \<Rightarrow> bool" where
  \<comment> \<open>an event of the server in any environment\<close>
  "any_step b b' \<longleftrightarrow> (\<exists>e. server_step e b b')"

lemma run_sessions: "any_step\<^sup>*\<^sup>* b b' \<Longrightarrow> sessions_inv b \<Longrightarrow> sessions_inv b'"
  by (induction rule: rtranclp_induct) (auto simp: any_step_def dest: server_step_sessions)

lemma run_leaked:
  "any_step\<^sup>*\<^sup>* b b' \<Longrightarrow> sessions_inv b \<Longrightarrow> leaked k b \<Longrightarrow> sessions_inv b' \<and> leaked k b'"
  by (induction rule: rtranclp_induct)
    (auto simp: any_step_def dest: server_step_sessions server_step_leaked)

text \<open>A login of a user who is in the table changes nothing and is refused.\<close>

lemma handle_login_taken:
  assumes "handle_login e payload cur v = Inr (r, cur', v')"
    "sscanf [Cs MAX_USERNAME_LEN, Cs MAX_PASSWORD_LEN] payload = Inr as"
    "login_user e (arg_s e as 0 ''username'') (arg_s e as 1 ''password'') (start_st v) = Login_ok k role nm"
    "has_session (active_sessions v) k"
  shows "resp_message r = ''FAILURE User is already logged in elsewhere.'' \<and> cur' = cur \<and> v' = v"
  using assms
  by (auto simp: handle_login_def open_session_def has_session_def snprintf_def size_defs)

end
