(* ===== verification/Safety.thy ===== *)
theory Safety
  imports Service
begin

text \<open>
  Money along a run: the balance invariant every move keeps, the transfer of whole amounts,
  and the amounts that are no numbers.
\<close>

section \<open>No balance falls below zero\<close>

definition not_below_zero :: "double \<Rightarrow> bool" where
  "not_below_zero v \<longleftrightarrow> \<not> dlt v dzero"

lemma not_below_zero_iff: "not_below_zero v \<longleftrightarrow> v = NaN \<or> dnonneg v"
  by (cases v) (auto simp: not_below_zero_def)

lemma not_below_zero_credit:
  assumes "not_below_zero v" "\<not> dle x dzero"
  shows "not_below_zero (dadd v x)"
proof (cases "v = NaN \<or> x = NaN")
  case True
  then show ?thesis by (auto simp: not_below_zero_iff)
next
  case False
  with assms have "dnonneg v" "dnonneg x"
    using not_dle_zero [OF assms(2)] by (auto simp: not_below_zero_iff)
  then show ?thesis by (simp add: not_below_zero_iff dnonneg_dadd)
qed

lemma not_below_zero_debit:
  assumes "not_below_zero v" "\<not> dle x dzero" "\<not> dlt v x"
  shows "not_below_zero (dsub v x)"
proof -
  from not_dle_zero [OF assms(2)] consider "v = NaN \<or> x = NaN" | "dnonneg v" "x = PInf"
    | "dnonneg v" "dfinite x"
    using assms(1) by (auto simp: not_below_zero_iff)
  then show ?thesis
  proof cases
    case 2
    with assms(3) show ?thesis by (cases v) (auto simp: not_below_zero_iff dsub_def)
  next
    case 3
    with assms(3) show ?thesis by (simp add: not_below_zero_iff dnonneg_dsub)
  qed (auto simp: not_below_zero_iff)
qed

definition funds_inv :: "tables \<Rightarrow> bool" where
  \<comment> \<open>no negative balance, no loan over a non-positive amount\<close>
  "funds_inv t \<longleftrightarrow> (\<forall>a\<in>set (t_accounts t). not_below_zero (balance a)) \<and>
     (\<forall>l\<in>set (t_loans t). \<not> dle (l_amount l) dzero)"

lemma funds_account:
  "funds_inv t \<Longrightarrow> i < length (t_accounts t) \<Longrightarrow> not_below_zero (balance (t_accounts t ! i))"
  by (simp add: funds_inv_def)

lemma funds_loan:
  "funds_inv t \<Longrightarrow> i < length (t_loans t) \<Longrightarrow> \<not> dle (l_amount (t_loans t ! i)) dzero"
  by (simp add: funds_inv_def)

lemma funds_set_account:
  assumes "funds_inv t" "t_accounts t' = (t_accounts t)[i := a]" "t_loans t' = t_loans t"
    "not_below_zero (balance a)"
  shows "funds_inv t'"
  using assms by (auto simp: funds_inv_def dest!: set_update_cases)

lemma funds_set_loan:
  assumes "funds_inv t" "t_accounts t' = t_accounts t" "t_loans t' = (t_loans t)[i := l]"
    "\<not> dle (l_amount l) dzero"
  shows "funds_inv t'"
  using assms by (auto simp: funds_inv_def dest!: set_update_cases)

lemma move_funds:
  assumes "move chk t t'" "funds_inv t"
  shows "funds_inv t'"
  using assms
proof (induction rule: move.induct)
  case (enroll u t a)
  then show ?case by (simp add: funds_inv_def not_below_zero_def)
next
  case (set_status i t v)
  show ?case by (rule funds_set_account [of t _ i "(t_accounts t ! i)\<lparr>a_active := v\<rparr>"]) (use set_status funds_account [of t i] in simp_all)
next
  case (deposit i t a x tx)
  show ?case
    by (rule funds_set_account [of t _ i "a\<lparr>balance := dadd (balance a) x\<rparr>"])
      (use deposit funds_account [of t i] in \<open>simp_all add: not_below_zero_credit\<close>)
next
  case (withdraw i t a x tx)
  show ?case
    by (rule funds_set_account [of t _ i "a\<lparr>balance := dsub (balance a) x\<rparr>"])
      (use withdraw funds_account [of t i] in \<open>simp_all add: not_below_zero_debit\<close>)
next
  case (transfer i t j a b x tx1 tx2)
  let ?t = "t\<lparr>t_accounts := (t_accounts t)[i := a\<lparr>balance := dsub (balance a) x\<rparr>]\<rparr>"
  have "funds_inv ?t"
    by (rule funds_set_account [of t _ i "a\<lparr>balance := dsub (balance a) x\<rparr>"])
      (use transfer funds_account [of t i] in \<open>simp_all add: not_below_zero_debit\<close>)
  then show ?case
    by (rule funds_set_account [of ?t _ j "b\<lparr>balance := dadd (balance b) x\<rparr>"])
      (use transfer funds_account [of t j] in \<open>simp_all add: not_below_zero_credit\<close>)
next
  case (apply_for_loan l t)
  then show ?case by (simp add: funds_inv_def)
next
  case (assign_loan i t l u k)
  show ?case by (rule funds_set_loan [of t _ i "l\<lparr>assigned_to := k, l_status := LOAN_ASSIGNED\<rparr>"])
      (use assign_loan funds_loan [of t i] in simp_all)
next
  case (reject_loan i t l w)
  show ?case by (rule funds_set_loan [of t _ i "l\<lparr>l_status := LOAN_REJECTED, processed_at := w\<rparr>"])
      (use reject_loan funds_loan [of t i] in simp_all)
next
  case (approve_loan i t l j a tx w)
  let ?t = "t\<lparr>t_loans := (t_loans t)[i := l\<lparr>l_status := LOAN_APPROVED, processed_at := w\<rparr>]\<rparr>"
  have "funds_inv ?t"
    by (rule funds_set_loan [of t _ i "l\<lparr>l_status := LOAN_APPROVED, processed_at := w\<rparr>"])
      (use approve_loan funds_loan [of t i] in simp_all)
  then show ?case
    by (rule funds_set_account [of ?t _ j "a\<lparr>balance := dadd (balance a) (l_amount l)\<rparr>"])
      (use approve_loan funds_account [of t j] funds_loan [of t i] in
        \<open>simp_all add: not_below_zero_credit\<close>)
qed (simp_all add: funds_inv_def)

lemma run_moves:
  \<comment> \<open>what every move keeps holds along every run\<close>
  assumes "(quiet_step ^^ n) b b'" "books_inv (bank_tables b)"
    "1001 + length (t_users (bank_tables b)) + n < 2 ^ 31"
    "\<And>t t'. move False t t' \<Longrightarrow> P t \<Longrightarrow> P t'" "P (bank_tables b)"
  shows "P (bank_tables b')"
  using assms(1,3)
proof (induction n arbitrary: b')
  case 0
  with assms(5) show ?case by simp
next
  case (Suc n)
  then obtain c where c: "(quiet_step ^^ n) b c" "quiet_step c b'" by auto
  from quiet_run [OF c(1) assms(2)] Suc.prems(2) have "books_inv (bank_tables c)" "room (bank_tables c)"
    by (simp_all add: room_def)
  with quiet_step_move [OF c(2)] Suc.IH [OF c(1)] Suc.prems(2) assms(4) show ?case by simp
qed

section \<open>A balance that is no number\<close>

definition nan_account :: "uid \<Rightarrow> tables \<Rightarrow> bool" where
  "nan_account k t \<longleftrightarrow> (\<exists>a\<in>set (t_accounts t). a_user_id a = k \<and> balance a = NaN)"

lemma nan_account_mono: "nan_account k t \<Longrightarrow> set (t_accounts t) \<subseteq> set (t_accounts t') \<Longrightarrow> nan_account k t'"
  by (auto simp: nan_account_def)

lemma nan_account_set:
  assumes "nan_account k t" "t_accounts t' = (t_accounts t)[i := b]" "i < length (t_accounts t)"
    "a_user_id b = a_user_id (t_accounts t ! i)" "balance (t_accounts t ! i) = NaN \<Longrightarrow> balance b = NaN"
  shows "nan_account k t'"
proof -
  obtain j where j: "j < length (t_accounts t)" "a_user_id (t_accounts t ! j) = k" "balance (t_accounts t ! j) = NaN"
    using assms(1) by (auto simp: nan_account_def in_set_conv_nth)
  then have "a_user_id (t_accounts t' ! j) = k" "balance (t_accounts t' ! j) = NaN"
    using assms(2-5) by (cases "j = i"; simp)+
  moreover have "t_accounts t' ! j \<in> set (t_accounts t')" using j(1) assms(2) by (intro nth_mem) simp
  ultimately show ?thesis unfolding nan_account_def by blast
qed

text \<open>Nothing the server does to it makes it a number again.\<close>

lemma move_nan: "move chk t t' \<Longrightarrow> nan_account k t \<Longrightarrow> nan_account k t'"
proof (induction rule: move.induct)
  case (enroll u t a)
  then show ?case by (auto intro: nan_account_mono)
next
  case (set_status i t v)
  show ?case
    by (rule nan_account_set [where t = t and i = i and b = "(t_accounts t ! i)\<lparr>a_active := v\<rparr>"])
      (use set_status in simp_all)
next
  case (deposit i t a x tx)
  show ?case by (rule nan_account_set [where t = t and i = i and b = "a\<lparr>balance := dadd (balance a) x\<rparr>"])
      (use deposit in simp_all)
next
  case (withdraw i t a x tx)
  show ?case by (rule nan_account_set [where t = t and i = i and b = "a\<lparr>balance := dsub (balance a) x\<rparr>"])
      (use withdraw in simp_all)
next
  case (transfer i t j a b x tx1 tx2)
  let ?t = "t\<lparr>t_accounts := (t_accounts t)[i := a\<lparr>balance := dsub (balance a) x\<rparr>]\<rparr>"
  have "nan_account k ?t"
    by (rule nan_account_set [where t = t and i = i and b = "a\<lparr>balance := dsub (balance a) x\<rparr>"])
      (use transfer in simp_all)
  then show ?case
    by (rule nan_account_set [where t = ?t and i = j and b = "b\<lparr>balance := dadd (balance b) x\<rparr>"])
      (use transfer in simp_all)
next
  case (approve_loan i t l j a tx w)
  show ?case
    by (rule nan_account_set [where t = t and i = j and b = "a\<lparr>balance := dadd (balance a) (l_amount l)\<rparr>"])
      (use approve_loan in simp_all)
qed (simp_all add: nan_account_def)

lemma nan_account_read:
  assumes "nan_account k (tables_of (disk s))" "accounts_inv (tables_of (disk s))" "read_account k s = Some a"
  shows "balance a = NaN"
proof -
  from assms(1) obtain b where b: "b \<in> set (accounts (disk s))" "a_user_id b = k" "balance b = NaN"
    by (auto simp: nan_account_def)
  have a: "a \<in> set (accounts (disk s))" "a_user_id a = k" using read_account_in [OF assms(3)] by simp_all
  have "distinct (map a_user_id (accounts (disk s)))" using assms(2) by (simp add: accounts_inv_def)
  then have "inj_on a_user_id (set (accounts (disk s)))" by (simp add: distinct_map)
  with a b have "a = b" by (metis inj_onD)
  with b(3) show ?thesis by simp
qed

lemma read_account_nan:
  "read_account k s = Some a \<Longrightarrow> balance a = NaN \<Longrightarrow> nan_account k (tables_of (disk s))"
  using read_account_in [of k s a] by (auto simp: nan_account_def)

section \<open>Transfers move whole amounts\<close>

definition whole_balances :: "int \<Rightarrow> store \<Rightarrow> int list \<Rightarrow> bool" where
  \<comment> \<open>the balances are the integers of the list, none beyond the bound\<close>
  "whole_balances m d vs \<longleftrightarrow> map balance (accounts d) = map dbl vs \<and> (\<forall>v\<in>set vs. \<bar>v\<bar> \<le> m)"

lemma whole_nth:
  assumes "whole_balances m d vs" "i < length (accounts d)"
  shows "balance (accounts d ! i) = dbl (vs ! i)" "\<bar>vs ! i\<bar> \<le> m" "i < length vs"
proof -
  from assms(1) have b: "map balance (accounts d) = map dbl vs" "\<forall>v\<in>set vs. \<bar>v\<bar> \<le> m"
    by (simp_all add: whole_balances_def)
  show i: "i < length vs" using arg_cong [OF b(1), of length] assms(2) by simp
  show "balance (accounts d ! i) = dbl (vs ! i)"
    using arg_cong [OF b(1), of "\<lambda>xs. xs ! i"] assms(2) i by simp
  show "\<bar>vs ! i\<bar> \<le> m" using b(2) i by simp
qed

lemma sum_list_set: "i < length vs \<Longrightarrow> sum_list (vs[i := v]) = sum_list vs - vs ! i + v" for vs :: "int list"
  using sum_list_map_update [of i vs id] by simp

lemma transfer_whole:
  assumes "io_ok e" "transfer_funds e f t (dbl x) s = (ok, s')" "whole_balances (2 ^ 52) (disk s) vs"
    "\<bar>x\<bar> \<le> 2 ^ 52"
  shows "\<exists>vs'. map balance (accounts (disk s')) = map dbl vs' \<and> sum_list vs' = sum_list vs"
  using assms(1,2)
proof (cases rule: transfer_funds_cases)
  case refused
  with assms(3) show ?thesis by (auto simp: whole_balances_def)
next
  case (moved i j a b tx1 tx2)
  note wi = whole_nth [OF assms(3) moved(2)]
  note wj = whole_nth [OF assms(3) moved(3)]
  let ?vs = "vs[i := vs ! i - x, j := vs ! j + x]"
  have "dsub (balance a) (dbl x) = dbl (vs ! i - x)" "dadd (balance b) (dbl x) = dbl (vs ! j + x)"
    using moved(5,6) wi wj assms(4) by (simp_all add: dsub_dbl dadd_dbl abs_le_iff)
  then have "map balance (accounts (disk s')) = map dbl ?vs"
    using moved assms(3) by (simp add: map_update whole_balances_def)
  moreover have "sum_list ?vs = sum_list vs"
    using wi wj moved(4) by (simp add: sum_list_set)
  ultimately show ?thesis by blast
qed

end
