(* ===== verification/Faults.thy ===== *)
theory Faults
  imports Safety
begin

text \<open>
  The operations when a \<open>write\<close> fails. \<open>wr_ok e n\<close> decides the fate of write number \<open>n\<close>;
  an operation that starts at \<open>tick s\<close> makes its writes in order, so the position of the
  fault in the operation is the offset from \<open>tick s\<close>.
\<close>

section \<open>One update, step by step\<close>

lemma scan_from_key: "scan_from (\<lambda>r. key r = k) rs n = scan_from (\<lambda>x. x = k) (map key rs) n"
  by (induction rs arbitrary: n) auto

lemma find_account_offset_Some:
  "find_account_offset k d = Some i \<Longrightarrow>
     accounts_db d = Some (accounts d) \<and> i < length (accounts d) \<and> a_user_id (accounts d ! i) = k"
  by (auto simp: find_account_offset_def find_offset_def dest: scan_offset_SomeD split: option.splits)

lemma read_account_at:
  "find_account_offset k (disk s) = Some i \<Longrightarrow> read_account k s = Some (accounts (disk s) ! i)"
  by (auto simp: find_account_offset_def find_offset_def read_account_def read_rec_def find_scan_offset
      split: option.splits)

lemma find_account_offset_update:
  assumes "find_account_offset k d = Some j" "i < length (accounts d)"
    "a_user_id r = a_user_id (accounts d ! i)"
  shows "find_account_offset k (d\<lparr>accounts_db := Some ((accounts d)[i := r])\<rparr>) = Some j"
proof -
  obtain as where as: "accounts_db d = Some as" "accounts d = as"
    using find_account_offset_Some [OF assms(1)] by metis
  have "scan_from (\<lambda>x. x = k) (map a_user_id as) 0 = Some j"
    using assms(1) as(1)
    by (simp add: find_account_offset_def find_offset_def scan_offset_def
        scan_from_key [where key = a_user_id])
  moreover have "map a_user_id (as[i := r]) = map a_user_id as"
    using assms(2,3) as by simp
  ultimately show ?thesis
    using as by (simp add: find_account_offset_def find_offset_def scan_offset_def
        scan_from_key [where key = a_user_id])
qed

lemma account_update_step:
  assumes "find_account_offset k (disk s) = Some i" "lock_ok e (tick s)"
    "m (accounts (disk s) ! i) s = (True, r, s)"
  shows "atomic_update_account e k m s = (wr_ok e (tick s),
    s\<lparr>disk := if wr_ok e (tick s) then (disk s)\<lparr>accounts_db := Some ((accounts (disk s))[i := r])\<rparr> else disk s,
      tick := Suc (tick s)\<rparr>)"
proof -
  obtain as where as: "accounts_db (disk s) = Some as" "i < length as" "accounts (disk s) = as"
    using find_account_offset_Some [OF assms(1)] by metis
  then have "accounts_db_update (map_option (put_rec i r)) (disk s) =
      (disk s)\<lparr>accounts_db := Some (as[i := r])\<rparr>"
    using accts.upd_get [OF as(1), of "map_option (put_rec i r)"] by simp
  with assms as show ?thesis
    by (simp add: atomic_update_account_def atomic_update_def pwrite_def)
qed

lemma deposit_step:
  assumes "find_account_offset k (disk s) = Some i" "lock_ok e (tick s)"
    "a_active (accounts (disk s) ! i) = STATUS_ACTIVE"
  shows "atomic_update_account e k (deposit_modifier x) s = (wr_ok e (tick s),
    s\<lparr>disk := if wr_ok e (tick s) then (disk s)\<lparr>accounts_db := Some ((accounts (disk s))
         [i := (accounts (disk s) ! i)\<lparr>balance := dadd (balance (accounts (disk s) ! i)) x\<rparr>])\<rparr> else disk s,
      tick := Suc (tick s)\<rparr>)"
  by (rule account_update_step) (use assms in \<open>simp_all add: deposit_modifier_def\<close>)

lemma withdraw_step:
  assumes "find_account_offset k (disk s) = Some i" "lock_ok e (tick s)"
    "a_active (accounts (disk s) ! i) = STATUS_ACTIVE" "\<not> dlt (balance (accounts (disk s) ! i)) x"
  shows "atomic_update_account e k (withdraw_modifier x) s = (wr_ok e (tick s),
    s\<lparr>disk := if wr_ok e (tick s) then (disk s)\<lparr>accounts_db := Some ((accounts (disk s))
         [i := (accounts (disk s) ! i)\<lparr>balance := dsub (balance (accounts (disk s) ! i)) x\<rparr>])\<rparr> else disk s,
      tick := Suc (tick s)\<rparr>)"
  by (rule account_update_step) (use assms in \<open>simp_all add: withdraw_modifier_def\<close>)

lemma log_fails:
  assumes "append_transaction e tx s = (ok, tx', s')" "\<not> wr_ok e (tick s)"
  shows "txns (disk s') = txns (disk s)" "accounts_db (disk s') = accounts_db (disk s)"
    "loans_db (disk s') = loans_db (disk s)" "tick s' \<le> Suc (tick s)"
  using txns.append_recD [OF assms(1) [unfolded append_transaction_def]] assms(2)
  by (cases ok; auto)+

lemma log_works:
  assumes "append_transaction e tx s = (ok, tx', s')" "wr_ok e (tick s)" "creat_ok e"
  shows "ok" "tick s' = Suc (tick s)"
    "disk s' = (disk s)\<lparr>txns_db := Some (txns (disk s) @ [tx\<lparr>txn_id := next_id (txns (disk s))\<rparr>])\<rparr>"
proof -
  note d = txns.append_recD [OF assms(1) [unfolded append_transaction_def]]
  show ok using d assms(3) by auto
  with d assms(2) show "tick s' = Suc (tick s)"
    "disk s' = (disk s)\<lparr>txns_db := Some (txns (disk s) @ [tx\<lparr>txn_id := next_id (txns (disk s))\<rparr>])\<rparr>"
    by (simp_all add: next_id_def)
qed

section \<open>Lost log entries\<close>

definition credited :: "nat \<Rightarrow> double \<Rightarrow> account_rec list \<Rightarrow> account_rec list" where
  "credited i x as = as[i := (as ! i)\<lparr>balance := dadd (balance (as ! i)) x\<rparr>]"

lemma deposit_log_fails:
  assumes "find_account_offset k (disk s) = Some i" "a_active (accounts (disk s) ! i) = STATUS_ACTIVE"
    "\<not> dle x dzero" "lock_ok e (tick s)" "wr_ok e (tick s)" "\<not> wr_ok e (Suc (tick s))"
    "deposit_money e k x s = (ok, s')"
  shows "ok \<and> txns (disk s') = txns (disk s) \<and> accounts (disk s') = credited i x (accounts (disk s))"
proof -
  note d = deposit_step [OF assms(1,4,2), of x, unfolded if_P [OF assms(5)]]
  let ?s1 = "s\<lparr>disk := (disk s)\<lparr>accounts_db := Some (credited i x (accounts (disk s)))\<rparr>, tick := Suc (tick s)\<rparr>"
  have d: "atomic_update_account e k (deposit_modifier x) s = (True, ?s1)"
    using d assms(5) by (simp add: credited_def)
  obtain a t s2 where l: "append_transaction e (mk_txn 0 k x (now e (tick ?s1)) ''deposit'') ?s1 = (a, t, s2)"
    by (metis surj_pair)
  have "ok" "disk s' = disk s2" using assms(3,7) d l by (auto simp: deposit_money_def)
  with log_fails [OF l] assms(6) show ?thesis by simp
qed

lemma deposit_log_works:
  assumes "find_account_offset k (disk s) = Some i" "a_active (accounts (disk s) ! i) = STATUS_ACTIVE"
    "\<not> dle x dzero" "io_ok e" "deposit_money e k x s = (ok, s')"
  obtains tx where "ok" "movement_of tx = Deposited k x"
    "disk s' = (disk s)\<lparr>accounts_db := Some (credited i x (accounts (disk s))),
       txns_db := Some (txns (disk s) @ [tx])\<rparr>"
proof -
  let ?s1 = "s\<lparr>disk := (disk s)\<lparr>accounts_db := Some (credited i x (accounts (disk s)))\<rparr>, tick := Suc (tick s)\<rparr>"
  have d: "atomic_update_account e k (deposit_modifier x) s = (True, ?s1)"
    using deposit_step [OF assms(1) _ assms(2), of e x] assms(4) by (simp add: credited_def)
  obtain a t s2 where l: "append_transaction e (mk_txn 0 k x (now e (tick ?s1)) ''deposit'') ?s1 = (a, t, s2)"
    by (metis surj_pair)
  have "ok" "disk s' = disk s2" using assms(3,5) d l by (auto simp: deposit_money_def)
  with log_tables [OF assms(4) l] show thesis
    by (intro that [of "(mk_txn 0 k x (now e (Suc (tick s))) ''deposit'')\<lparr>txn_id := next_id (txns (disk s))\<rparr>"])
      simp_all
qed

section \<open>The roll-back of a transfer\<close>

definition rolled_back :: "bool \<Rightarrow> double \<Rightarrow> double \<Rightarrow> double" where
  \<comment> \<open>the sender's balance after a failed transfer: given back, unless that write fails too\<close>
  "rolled_back restored v x = (if restored then dadd (dsub v x) x else dsub v x)"

lemma transfer_second_write_fails:
  assumes "find_account_offset f (disk s) = Some i" "find_account_offset t (disk s) = Some j" "f \<noteq> t"
    "a = accounts (disk s) ! i" "a_active a = STATUS_ACTIVE"
    "a_active (accounts (disk s) ! j) = STATUS_ACTIVE" "\<not> dle x dzero" "\<not> dlt (balance a) x"
    "\<forall>n. lock_ok e n" "wr_ok e (tick s)" "\<not> wr_ok e (Suc (tick s))"
    "transfer_funds e f t x s = (ok, s')"
  shows "\<not> ok \<and> disk s' = (disk s)\<lparr>accounts_db := Some ((accounts (disk s))[i := a\<lparr>balance :=
      rolled_back (wr_ok e (Suc (Suc (tick s)))) (balance a) x\<rparr>])\<rparr> \<and>
    resp_msg s' = ''CRITICAL ERROR: Transfer failed after withdrawal. Contact support.''"
proof -
  note oi = find_account_offset_Some [OF assms(1)]
  note oj = find_account_offset_Some [OF assms(2)]
  have ij: "i \<noteq> j" using oi oj assms(3) by auto
  let ?a1 = "a\<lparr>balance := dsub (balance a) x\<rparr>"
  let ?d1 = "(disk s)\<lparr>accounts_db := Some ((accounts (disk s))[i := ?a1])\<rparr>"
  let ?s1 = "s\<lparr>disk := ?d1, tick := Suc (tick s)\<rparr>"
  have w: "atomic_update_account e f (withdraw_modifier x) s = (True, ?s1)"
    using withdraw_step [OF assms(1), of e x] assms(4-10) by simp
  have f1: "find_account_offset f ?d1 = Some i" "find_account_offset t ?d1 = Some j"
    by (rule find_account_offset_update [OF assms(1)]; use oi assms(4) in simp)
      (rule find_account_offset_update [OF assms(2)]; use oi assms(4) in simp)
  let ?s2 = "?s1\<lparr>tick := Suc (Suc (tick s))\<rparr>"
  have d: "atomic_update_account e t (deposit_modifier x) ?s1 = (False, ?s2)"
    using deposit_step [of t ?s1 j e x] f1 assms(6,9,11) ij by simp
  let ?s2' = "say ''CRITICAL ERROR: Transfer failed after withdrawal. Contact support.'' ?s2"
  obtain ok3 s3 where r: "atomic_update_account e f (deposit_modifier x) ?s2' = (ok3, s3)" by fastforce
  have r3: "disk s3 = (disk s)\<lparr>accounts_db := Some ((accounts (disk s))[i := a\<lparr>balance :=
      rolled_back (wr_ok e (Suc (Suc (tick s)))) (balance a) x\<rparr>])\<rparr>" "resp_msg s3 = resp_msg ?s2'"
    using r deposit_step [of f ?s2' i e x] f1 oi assms(4,5,9)
    by (auto simp: rolled_back_def split: if_splits)
  have "read_account t s = Some (accounts (disk s) ! j)" by (rule read_account_at [OF assms(2)])
  then have "\<not> ok" "s' = s3"
    using assms(3,6,7,12) w d r by (simp_all add: transfer_funds_def)
  with r3 show ?thesis by (simp add: snprintf_def size_defs)
qed

section \<open>A loan paid and not recorded\<close>

lemma loan_write_fails:
  assumes "find_loan_offset lid (disk s) = Some n" "l = loans (disk s) ! n"
    "l_status l = LOAN_ASSIGNED" "assigned_to l = k"
    "find_account_offset (l_user_id l) (disk s) = Some j"
    "a_active (accounts (disk s) ! j) = STATUS_ACTIVE"
    "\<forall>n. lock_ok e n" "creat_ok e" "wr_ok e (tick s)" "wr_ok e (Suc (tick s))"
    "\<not> wr_ok e (Suc (Suc (tick s)))" "approve_reject_loan e lid ''approve'' k s = (ok, s')"
  shows "\<not> ok \<and> loans (disk s') = loans (disk s) \<and>
    accounts (disk s') = credited j (l_amount l) (accounts (disk s)) \<and>
    (\<exists>tx. txns (disk s') = txns (disk s) @ [tx] \<and> movement_of tx = Loan_paid (l_user_id l) (l_amount l))"
proof -
  obtain ls where ls: "loans_db (disk s) = Some ls" "n < length ls" "l = ls ! n"
    using assms(1,2) by (auto simp: find_loan_offset_def find_offset_def dest: scan_offset_SomeD
        split: option.splits)
  let ?as = "credited j (l_amount l) (accounts (disk s))"
  let ?s1 = "s\<lparr>disk := (disk s)\<lparr>accounts_db := Some ?as\<rparr>, tick := Suc (tick s)\<rparr>"
  let ?l1 = "l\<lparr>l_status := LOAN_APPROVED\<rparr>"
  have d: "atomic_update_account e (l_user_id l) (deposit_modifier (l_amount l)) s = (True, ?s1)"
    using deposit_step [OF assms(5) _ assms(6), of e "l_amount l"] assms(7,9) by (simp add: credited_def)
  let ?tx = "mk_txn 0 (l_user_id l) (l_amount l) (now e (tick ?s1)) ''loan_deposit''"
  obtain b t s2 where app: "append_transaction e ?tx ?s1 = (b, t, s2)" by (metis surj_pair)
  note log = log_works [OF app, simplified, OF assms(10,8)]
  obtain m where m: "approve_reject_loan_modifier e ''approve'' k l s =
      (True, ?l1\<lparr>processed_at := now e (tick s2)\<rparr>, say m s2)"
    using assms(3,4,6) d app read_account_at [OF assms(5)]
    by (simp add: approve_reject_loan_modifier_def Let_def)
  have "atomic_update_loan e lid (approve_reject_loan_modifier e ''approve'' k) s =
      (False, (say m s2)\<lparr>tick := Suc (tick s2)\<rparr>)"
    using m ls assms(1,7,11) log(2) by (simp add: atomic_update_loan_def atomic_update_def pwrite_def)
  then have "\<not> ok" "disk s' = disk s2"
    using assms(12) by (auto simp: approve_reject_loan_def split: if_splits)
  with log(3) show ?thesis by (auto intro!: exI [of _ "?tx\<lparr>txn_id := next_id (txns (disk s))\<rparr>"])
qed

section \<open>Users that are not stored\<close>

lemma write_user_fails:
  assumes "write_user e u s = (ok, s')" "users_db (disk s) = Some us" "\<not> wr_ok e (tick s)"
  shows "ok" "disk s' = disk s" "tick s' = Suc (tick s)"
  using assms by (auto simp: write_user_def write_rec_def open_creat_def pwrite_def Let_def)

lemma write_account_fails:
  assumes "write_account e a s = (ok, s')" "accounts_db (disk s) = Some as" "\<not> wr_ok e (tick s)"
  shows "ok" "disk s' = disk s"
  using assms by (auto simp: write_account_def write_rec_def open_creat_def pwrite_def Let_def)

lemma add_customer_writes_fail:
  assumes "users_db (disk s) = Some us" "accounts_db (disk s) = Some as" "\<forall>n. \<not> wr_ok e n"
    "fst (check_uniqueness un (cstr (email usr)) (cstr (phone usr)) 0 s)"
    "add_new_customer e usr acc un p s = (ok, s')"
  shows "ok \<and> disk s' = disk s"
proof -
  obtain s1 where c: "check_uniqueness un (cstr (email usr)) (cstr (phone usr)) 0 s = (True, s1)"
    using assms(4) by (metis (full_types) prod.collapse)
  from check_uniquenessD(3) [OF c] have s1: "s1 = s" by simp
  obtain k where g: "generate_new_userId e s = (k, s)"
    using assms(1) by (simp add: generate_new_userId_def open_creat_def)
  define u where "u = usr\<lparr>u_user_id := k, u_role := ROLE_CUSTOMER, u_active := STATUS_ACTIVE,
    created_at := now e (tick s), username := strncpy (username usr) un (MAX_USERNAME_LEN - 1),
    password_hash := generate_password_hash e p (password_hash usr)\<rparr>"
  define a where "a = acc\<lparr>a_user_id := k, account_id := k, balance := dzero, a_active := STATUS_ACTIVE\<rparr>"
  obtain wu s3 where wu: "write_user e u s = (wu, s3)" by fastforce
  obtain wa s4 where wa: "write_account e a s3 = (wa, s4)" by fastforce
  have w: "wu" "disk s3 = disk s" using write_user_fails [OF wu assms(1)] assms(3) by simp_all
  have v: "wa" "disk s4 = disk s" using write_account_fails [OF wa] w assms(2,3) by simp_all
  show ?thesis
    using assms(5) c s1 g wu [unfolded u_def] wa [unfolded a_def] w v
    by (auto simp: add_new_customer_def Let_def)
qed

end
