(* ===== verification/Access.thy ===== *)
theory Access
  imports Faults
begin

text \<open>
  Who may do what: login and passwords, deactivated accounts, the decision on a loan, the
  requests the server accepts without a login, and the session table across a login.
\<close>

section \<open>Login\<close>

lemma find_username:
  assumes "contacts_inv (tables_of d)" "i < length (users d)"
  shows "List.find (\<lambda>v. cstr (username v) = cstr (username (users d ! i))) (users d) = Some (users d ! i)"
proof -
  have "scan_offset (\<lambda>v. cstr (username v) = cstr (username (users d ! i))) (users d) = Some i"
  proof (rule scan_offset_eqI)
    fix j assume "j < i"
    with assms show "cstr (username (users d ! j)) \<noteq> cstr (username (users d ! i))"
      by (auto simp: contacts_inv_def no_clash_def)
  qed (use assms(2) in auto)
  then show ?thesis by (simp add: find_scan_offset)
qed

definition account_closed :: "uid \<Rightarrow> st \<Rightarrow> bool" where
  \<comment> \<open>the user has an account and it is inactive\<close>
  "account_closed k s \<longleftrightarrow> (\<exists>a. read_account k s = Some a \<and> a_active a = STATUS_INACTIVE)"

definition admits :: "env \<Rightarrow> user_rec \<Rightarrow> string \<Rightarrow> st \<Rightarrow> bool" where
  \<comment> \<open>the user may log in with this password\<close>
  "admits e u password s \<longleftrightarrow> verify_password e password (cstr (password_hash u)) \<and>
     u_active u = STATUS_ACTIVE \<and> \<not> account_closed (u_user_id u) s"

lemma login_user_found:
  assumes "users_db (disk s) = Some us" "List.find (\<lambda>v. cstr (username v) = un) us = Some u"
  shows "login_user e un p s =
    (if \<not> verify_password e p (cstr (password_hash u)) then Login_failed
     else if admits e u p s
     then Login_ok (u_user_id u) (role_str (u_role u))
       (cstr (strncpy ((stk_arr e ''name'')[0 := NUL]) (cstr (first_name u)) (MAX_FNAME_LEN - 1)))
     else Login_inactive)"
  using assms
  by (cases "u_active u")
    (auto simp: login_user_def admits_def account_closed_def split: option.splits)

lemma login_user_ok_iff:
  assumes "users_db (disk s) = Some us" "List.find (\<lambda>v. cstr (username v) = un) us = Some u"
  shows "(\<exists>nm. login_user e un p s = Login_ok k r nm) \<longleftrightarrow>
    admits e u p s \<and> k = u_user_id u \<and> r = role_str (u_role u)"
  using login_user_found [OF assms, of e p] by (auto simp: admits_def)

lemma login_user_okD:
  assumes "login_user e un p s = Login_ok k role nm"
  obtains u where "u \<in> set (users (disk s))" "cstr (username u) = un" "u_user_id u = k"
    "role = role_str (u_role u)" "admits e u p s"
proof -
  from assms obtain us u where
    u: "users_db (disk s) = Some us" "List.find (\<lambda>v. cstr (username v) = un) us = Some u"
    by (auto simp: login_user_def split: option.splits)
  then have "u \<in> set (users (disk s))" "cstr (username u) = un"
    by (auto simp: find_Some_iff)
  with that [of u] assms login_user_found [OF u, of e p] show thesis
    by (auto split: if_splits)
qed

lemma users_some: "u \<in> set (users d) \<Longrightarrow> users_db d = Some (users d)"
  by (cases "users_db d") auto

lemma login_user_of:
  assumes "contacts_inv (tables_of (disk s))" "u \<in> set (users (disk s))" "cstr (username u) = un"
    "admits e u p s"
  shows "\<exists>nm. login_user e un p s = Login_ok (u_user_id u) (role_str (u_role u)) nm"
proof -
  from assms(2) obtain i where i: "i < length (users (disk s))" "u = users (disk s) ! i"
    by (auto simp: in_set_conv_nth)
  obtain us where us: "users_db (disk s) = Some us" "users (disk s) = us"
    using users_some [OF assms(2)] by metis
  from find_username [OF assms(1) i(1)] i(2) us assms(3)
  have "List.find (\<lambda>v. cstr (username v) = un) us = Some u" by simp
  from login_user_found [OF us(1) this, of e p] assms(4) show ?thesis by (auto simp: admits_def)
qed

section \<open>Changing a password\<close>

lemma generate_password_hash_some:
  assumes "terminated MAX_PASSWORD_LEN h0" "crypt_fn e p ''$6$IIITB$'' = Some h" "clean h"
    "length h < MAX_PASSWORD_LEN"
  shows "cstr (generate_password_hash e p h0) = h"
proof -
  let ?a = "strncpy h0 h (MAX_PASSWORD_LEN - 1)"
  have t: "terminated MAX_PASSWORD_LEN ?a" using assms(1) by (rule terminated_strncpy)
  have "drop (MAX_PASSWORD_LEN - 1) ?a = [NUL]" "length ?a = MAX_PASSWORD_LEN"
    using t by (simp_all add: terminated_def)
  then have "?a ! (MAX_PASSWORD_LEN - 1) = NUL"
    using hd_drop_conv_nth [of "MAX_PASSWORD_LEN - 1" ?a] by (simp add: size_defs)
  then have "?a[MAX_PASSWORD_LEN - 1 := NUL] = ?a" by (metis list_update_id)
  with assms stored_string [OF assms(1,3,4)] show ?thesis
    by (simp add: generate_password_hash_def)
qed

lemma read_user_at:
  assumes "find_user_offset k (disk s) = Some i"
  shows "read_user k s = Some (users (disk s) ! i)" "i < length (users (disk s))"
  using assms
  by (auto simp: find_user_offset_def find_offset_def read_user_def read_rec_def find_scan_offset
      dest: scan_offset_SomeD split: option.splits)

lemma change_password_updates:
  assumes "change_password e k p s = (True, s')"
  obtains i u where "i < length (users (disk s))" "u = users (disk s) ! i" "u_user_id u = k"
    "disk s' = (disk s)\<lparr>users_db := Some ((users (disk s))
       [i := u\<lparr>password_hash := generate_password_hash e p (password_hash u)\<rparr>])\<rparr>"
proof -
  obtain a s1 where a: "atomic_update_user e k (change_pass_modifier e p) s = (a, s1)" by fastforce
  have d: "disk s' = disk s1" "a" using a assms by (auto simp: change_password_def split: if_splits)
  from users.atomic_update_quiet [OF a [unfolded atomic_update_user_def]] d(2) obtain i rs r t where
    i: "find_user_offset k (disk s) = Some i" "users_db (disk s) = Some rs" "i < length rs"
    "change_pass_modifier e p (rs ! i) s = (True, r, t)" "disk s1 = (disk s)\<lparr>users_db := Some (rs[i := r])\<rparr>"
    by auto
  then have "u_user_id (rs ! i) = k"
    by (auto simp: find_user_offset_def find_offset_def dest: scan_offset_SomeD)
  with that [of i "rs ! i"] i d show thesis by (auto simp: change_pass_modifier_def)
qed

lemma contacts_same_names:
  assumes "contacts_inv t" "i < length (t_users t)" "username u = username (t_users t ! i)"
    "email u = email (t_users t ! i)" "phone u = phone (t_users t ! i)"
  shows "contacts_inv (t\<lparr>t_users := (t_users t)[i := u]\<rparr>)"
proof -
  have "username ((t_users t)[i := u] ! j) = username (t_users t ! j) \<and>
      email ((t_users t)[i := u] ! j) = email (t_users t ! j) \<and>
      phone ((t_users t)[i := u] ! j) = phone (t_users t ! j)" for j
    using assms by (cases "j = i") auto
  with assms(1) show ?thesis by (simp add: contacts_inv_def no_clash_def)
qed

lemma change_password_login:
  assumes "change_password e k p s = (True, s')" "contacts_inv (tables_of (disk s))"
    "distinct (map u_user_id (users (disk s)))" "u \<in> set (users (disk s))" "u_user_id u = k"
    "user_wf u" "u_active u = STATUS_ACTIVE" "\<not> account_closed k s"
    "crypt_fn e p ''$6$IIITB$'' = Some h" "clean h" "length h < MAX_PASSWORD_LEN"
  shows "(\<exists>nm. login_user e (cstr (username u)) q s' = Login_ok k (role_str (u_role u)) nm)
    \<longleftrightarrow> crypt_fn e q h = Some h"
proof -
  from change_password_updates [OF assms(1)] obtain i u0 where
    i: "i < length (users (disk s))" "u0 = users (disk s) ! i" "u_user_id u0 = k"
    "disk s' = (disk s)\<lparr>users_db := Some ((users (disk s))
       [i := u0\<lparr>password_hash := generate_password_hash e p (password_hash u0)\<rparr>])\<rparr>" .
  from assms(4) obtain j where j: "j < length (users (disk s))" "u = users (disk s) ! j"
    by (auto simp: in_set_conv_nth)
  have "i = j"
    using nth_eq_iff_index_eq [OF assms(3), of i j] i j assms(5) by simp
  then have u0: "u0 = u" using i j by simp
  let ?v = "u\<lparr>password_hash := generate_password_hash e p (password_hash u)\<rparr>"
  have us': "users (disk s') = (users (disk s))[i := ?v]" using i(4) u0 by simp
  have "contacts_inv ((tables_of (disk s))\<lparr>t_users := (t_users (tables_of (disk s)))[i := ?v]\<rparr>)"
    by (rule contacts_same_names) (use assms(2) i u0 in simp_all)
  then have inv: "contacts_inv (tables_of (disk s'))" using i(4) u0 by simp
  have mem: "i < length (users (disk s'))" "users (disk s') ! i = ?v" using us' i(1) by simp_all
  have hash: "cstr (password_hash ?v) = h"
    using generate_password_hash_some [of "password_hash u" e p h] assms(6,9-11)
    by (simp add: user_wf_def)
  have closed: "\<not> account_closed k s'"
    using assms(8) i(4) by (simp add: account_closed_def read_account_def)
  have adm: "admits e ?v q s' \<longleftrightarrow> crypt_fn e q h = Some h"
    using hash closed assms(5,7) by (auto simp: admits_def verify_password_def split: option.splits)
  obtain us where us: "users_db (disk s') = Some us" "users (disk s') = us"
    using i(4) by simp
  from find_username [OF inv mem(1)] mem(2) us
  have "List.find (\<lambda>v. cstr (username v) = cstr (username u)) us = Some ?v" by simp
  from login_user_ok_iff [OF us(1) this, of e q k "role_str (u_role u)"] adm assms(5) show ?thesis
    by simp
qed

section \<open>Deactivated accounts\<close>

lemma account_closed_update:
  assumes "set_account_status e k v s = (True, s')" "v \<noteq> 1"
  shows "account_closed k s'"
proof -
  obtain ok s1 where u: "atomic_update_account e k (set_status_modifier v) s = (ok, s1)" by fastforce
  then have ok: "ok" "disk s' = disk s1" using assms(1) by (auto simp: set_account_status_def split: if_splits)
  from account_update_done [of e k "set_status_modifier v" s s1] u ok(1) obtain r r' t where
    "set_status_modifier v r s = (True, r', t)" "read_account k s1 = Some r'" by auto
  with assms(2) ok(2) show ?thesis
    by (auto simp: set_status_modifier_def account_closed_def read_account_def)
qed

lemma closed_update_fails:
  assumes "account_closed k s" "atomic_update_account e k m s = (ok, s')" "quiet m" "keeps a_user_id m"
    "\<And>a. a_active a = STATUS_INACTIVE \<Longrightarrow> \<not> fst (m a s)"
  shows "\<not> ok \<and> disk s' = disk s"
proof -
  from assms(1) obtain a where a: "read_account k s = Some a" "a_active a = STATUS_INACTIVE"
    by (auto simp: account_closed_def)
  have "\<not> ok" using account_update_declined [OF assms(2-4) a(1)] assms(5) [OF a(2)] .
  then show ?thesis using account_update_tables [OF assms(2,3)] by simp
qed

lemma closed_deposit:
  assumes "account_closed k s" "deposit_money e k x s = (ok, s')"
  shows "\<not> ok \<and> disk s' = disk s"
proof -
  obtain b s1 where u: "atomic_update_account e k (deposit_modifier x) s = (b, s1)" by fastforce
  from closed_update_fails [OF assms(1) u] have "\<not> b" "disk s1 = disk s"
    by (auto simp: deposit_modifier_def)
  with u assms(2) show ?thesis by (auto simp: deposit_money_def split: if_splits option.splits)
qed

lemma closed_withdraw:
  assumes "account_closed k s" "withdraw_money e k x s = (ok, s')"
  shows "\<not> ok \<and> disk s' = disk s"
proof -
  obtain b s1 where u: "atomic_update_account e k (withdraw_modifier x) s = (b, s1)" by fastforce
  from closed_update_fails [OF assms(1) u] have "\<not> b" "disk s1 = disk s"
    by (auto simp: withdraw_modifier_def)
  with u assms(2) show ?thesis by (auto simp: withdraw_money_def split: if_splits option.splits)
qed

lemma closed_transfer:
  assumes "account_closed k s" "k = f \<or> k = t" "transfer_funds e f t x s = (ok, s')"
  shows "\<not> ok \<and> disk s' = disk s"
proof (cases "f = t \<or> dle x dzero \<or> (case read_account t s of None \<Rightarrow> True
    | Some a \<Rightarrow> a_active a = STATUS_INACTIVE)")
  case True
  with assms(3) show ?thesis by (auto simp: transfer_funds_def split: if_splits)
next
  case False
  obtain b s1 where u: "atomic_update_account e f (withdraw_modifier x) s = (b, s1)" by fastforce
  have "k \<noteq> t" using False assms(1) by (auto simp: account_closed_def)
  with assms(1,2) have "account_closed f s" by auto
  from closed_update_fails [OF this u] have "\<not> b" "disk s1 = disk s"
    by (auto simp: withdraw_modifier_def)
  with u False assms(3) show ?thesis by (auto simp: transfer_funds_def split: if_splits option.splits)
qed

section \<open>Decisions on loans\<close>

lemma decision_authorised:
  assumes "approve_reject_loan e lid action k s = (True, s')"
  obtains l where "read_loan lid s = Some l" "l_status l = LOAN_ASSIGNED" "assigned_to l = k"
    "action = ''approve'' \<or> action = ''reject''"
proof -
  obtain a s1 where a: "atomic_update_loan e lid (approve_reject_loan_modifier e action k) s = (a, s1)"
    by fastforce
  with assms have "a" by (auto simp: approve_reject_loan_def split: if_splits)
  from a [unfolded atomic_update_loan_def] show thesis
  proof (cases rule: loans.atomic_update_cases)
    case (written i rs r t)
    have "read_loan lid s = Some (rs ! i)"
      using written(1,2)
      by (auto simp: read_loan_def read_rec_def find_scan_offset find_loan_offset_def find_offset_def)
    moreover have "l_status (rs ! i) = LOAN_ASSIGNED \<and> assigned_to (rs ! i) = k \<and>
        (action = ''approve'' \<or> action = ''reject'')"
      using written(4) by (auto simp: approve_reject_loan_modifier_def Let_def split: if_splits)
    ultimately show thesis using that [of "rs ! i"] by simp
  qed (use \<open>a\<close> in auto)
qed

section \<open>Sessions across a login\<close>

lemma replace_first_undo:
  assumes "b \<notin> set xs"
  shows "replace_first b a (replace_first a b xs) = xs"
proof (cases "a \<in> set xs")
  case True
  from replace_first_cases [OF this] obtain i where
    i: "i < length xs" "xs ! i = a" "replace_first a b xs = xs[i := b]" by metis
  then have "b \<in> set (xs[i := b])" by (simp add: set_update_memI)
  from replace_first_cases [OF this] obtain j where
    j: "j < length xs" "xs[i := b] ! j = b" "replace_first b a (xs[i := b]) = xs[i := b, j := a]"
    by auto
  have "j = i" using i j assms by (metis nth_list_update_neq nth_mem)
  with i j show ?thesis by (metis list_update_id list_update_overwrite)
next
  case False
  with assms show ?thesis by (simp add: replace_first_none)
qed

lemma handle_login_result:
  assumes "handle_login e payload cur v = Inr (r, cur', v')"
  shows "(cur' = cur \<and> v' = v) \<or>
    (\<exists>k ss. open_session k cur (active_sessions v) = (True, cur', ss) \<and> v' = v\<lparr>active_sessions := ss\<rparr>)"
  using assms
  by (auto simp: handle_login_def Let_def split: sum.splits login_result.splits prod.splits if_splits)

lemma open_session_done:
  "open_session k cur ss = (True, cur', ss') \<Longrightarrow> (cur' = cur \<and> ss' = ss) \<or>
    (cur' = k \<and> k \<notin> set ss \<and> ss' = replace_first 0 k ss)"
  by (auto simp: open_session_def split: if_splits)

lemma login_then_logout:
  assumes "handle_request e ''LOGIN'' pl 0 v = Inr (r, k, v1)"
    "handle_request e' ''LOGOUT'' pl' k v1 = Inr (r', k', v2)"
  shows "k' = 0 \<and> v2 = v"
proof -
  from assms(2) have out: "k' = 0"
    "v2 = v1\<lparr>active_sessions := remove_active_session k (active_sessions v1)\<rparr>"
    by (auto simp: handle_request_def)
  from assms(1) have "handle_login e pl 0 v = Inr (r, k, v1)" by (simp add: handle_request_def)
  from handle_login_result [OF this] consider "k = 0" "v1 = v" | "k \<notin> set (active_sessions v)"
    "v1 = v\<lparr>active_sessions := replace_first 0 k (active_sessions v)\<rparr>"
    using open_session_done [of _ 0 "active_sessions v" k] by fastforce
  then show ?thesis
    by cases (simp_all add: out remove_active_session_def replace_first_undo replace_first_same)
qed

end
