(* ===== verification/Bootstrap.thy ===== *)
theory Bootstrap
  imports Invariants
begin

text \<open>
  \<^verbatim>\<open>src/bootstrap.c\<close>: the program that creates the first six users. Its \<open>main\<close> runs
  \<open>add_employee\<close> four times and \<open>add_new_customer\<close> twice on zeroed records; the model
  returns the exit status, the replies printed and the database. The database it leaves
  satisfies the invariant the server starts from.
\<close>

datatype boot_op =
    Staff string string int string string string string string string
  | Client string string int string string string string string

fun boot_run :: "env \<Rightarrow> boot_op \<Rightarrow> st \<Rightarrow> bool \<times> st" where
  "boot_run e (Staff fname lname ag ad role em ph un password) s =
     add_employee e fname lname ag ad role em ph un password s"
| "boot_run e (Client fname lname ag ad em ph un password) s =
     add_new_customer e (set_details fname lname ag ad em ph zero_user) zero_account un password s"

definition boot_ops :: "boot_op list" where
  "boot_ops =
    [Staff ''Siddhesh'' ''Abhang'' 35 ''Pune_HQ'' ''admin'' ''siddhesh@bank.com'' ''9876543210''
       ''siddhesh'' ''adminpass'',
     Staff ''Manasi'' ''Joshi'' 45 ''Mumbai_Office'' ''manager'' ''manasi@bank.com'' ''9876543211''
       ''manasi'' ''managerpass'',
     Staff ''Prakash'' ''Kadam'' 28 ''Teller_Desk'' ''employee'' ''prakash@bank.com'' ''9876543212''
       ''prakash'' ''employeepass'',
     Staff ''Smita'' ''Pawar'' 31 ''Loan_Dept'' ''employee'' ''smita@bank.com'' ''9876543213''
       ''smita'' ''employeepass'',
     Client ''Priya'' ''Sawant'' 30 ''1_Main_Street_Nagpur'' ''priya@guest.com'' ''9000000001''
       ''priya'' ''priyapass'',
     Client ''Rohan'' ''Deshmukh'' 25 ''2_Bank_Road_Pune'' ''rohan@guest.com'' ''9000000002''
       ''rohan'' ''rohanpass'']"

fun boot_loop :: "env \<Rightarrow> boot_op list \<Rightarrow> st \<Rightarrow> (bool \<times> string) list \<times> st" where
  \<comment> \<open>the replies, each printed as a success or a failure\<close>
  "boot_loop e [] s = ([], s)"
| "boot_loop e (b # bs) s =
     (case boot_run e b s of
        (ok, s1) \<Rightarrow> (case boot_loop e bs s1 of (out, s2) \<Rightarrow> ((ok, resp_msg s1) # out, s2)))"

definition success_count :: "(bool \<times> string) list \<Rightarrow> nat" where
  "success_count out = length (filter fst out)"

definition bootstrap_main :: "env \<Rightarrow> bool \<Rightarrow> st \<Rightarrow> int \<times> (bool \<times> string) list \<times> st" where
  \<comment> \<open>\<open>mkdir_ok\<close>: the directory was created or existed already\<close>
  "bootstrap_main e mkdir_ok s =
     (if \<not> mkdir_ok then (1, [], s)
      else case boot_loop e boot_ops s of (out, s1) \<Rightarrow> (0, out, s1))"

section \<open>Every creation is a move\<close>

fun boot_fits :: "boot_op \<Rightarrow> bool" where
  "boot_fits (Staff fname lname ag ad role em ph un password) \<longleftrightarrow>
     fits MAX_EMAIL_LEN em \<and> fits MAX_PHONE_LEN ph \<and> fits MAX_USERNAME_LEN un"
| "boot_fits (Client fname lname ag ad em ph un password) \<longleftrightarrow> fits MAX_EMAIL_LEN em \<and>
     fits MAX_PHONE_LEN ph \<and> fits MAX_USERNAME_LEN un"

lemma boot_run_move:
  assumes "io_ok e" "boot_fits b" "fresh_uid (tables_of (disk s))" "boot_run e b s = (ok, s')"
  shows "move chk (tables_of (disk s)) (tables_of (disk s'))"
proof (cases b)
  case Staff
  with assms add_employee_move show ?thesis by auto
next
  case (Client f l a ad em ph un p)
  then have "cstr (strncpy (username zero_user) un (MAX_USERNAME_LEN - 1)) = un"
    using assms(2) user_wf_zero by (simp add: user_wf_def fits_def stored_string_simp)
  with Client assms add_new_customer_move show ?thesis by auto
qed

text \<open>The new records start from zeroed memory, so every string is stored with its NUL.\<close>

lemma boot_run_wf:
  assumes "io_ok e" "boot_fits b" "fresh_uid (tables_of (disk s))" "boot_run e b s = (ok, s')"
    "wf_inv (tables_of (disk s))"
  shows "wf_inv (tables_of (disk s'))"
proof (cases b)
  case (Staff f l a ad role em ph un p)
  then have "add_employee e f l a ad role em ph un p s = (ok, s')" "fits MAX_EMAIL_LEN em"
    "fits MAX_PHONE_LEN ph" "fits MAX_USERNAME_LEN un" using assms(2,4) by simp_all
  from assms(1) this(1) assms(3) this(2-4) show ?thesis
    by (cases rule: add_employee_cases) (use assms(5) in \<open>auto simp: wf_inv_def new_staff_def\<close>)
next
  case (Client f l a ad em ph un p)
  then have "add_new_customer e (set_details f l a ad em ph zero_user) zero_account un p s = (ok, s')"
    using assms(4) by simp
  from assms(1) this assms(3) show ?thesis
    by (cases rule: add_new_customer_cases)
      (use assms(5) user_wf_set_details [OF user_wf_zero] in \<open>auto simp: wf_inv_def new_customer_def\<close>)
qed

lemma boot_run_inv:
  assumes "io_ok e" "boot_fits b" "bank_inv (tables_of (disk s))" "room (tables_of (disk s))"
    "boot_run e b s = (ok, s')"
  shows "bank_inv (tables_of (disk s'))"
proof -
  have f: "fresh_uid (tables_of (disk s))" using assms(3,4) by (simp add: bank_inv_iff books_fresh)
  note m = boot_run_move [OF assms(1,2) f assms(5)]
  from move_books_inv [OF m _ assms(4)] move_contacts_inv [OF m _ _ assms(4)]
    boot_run_wf [OF assms(1,2) f assms(5)] assms(3)
  show ?thesis by (simp add: bank_inv_iff)
qed

lemma boot_loop_inv:
  assumes "io_ok e" "\<forall>b\<in>set bs. boot_fits b" "bank_inv (tables_of (disk s))"
    "1001 + length (users (disk s)) + length bs < 2 ^ 31" "boot_loop e bs s = (out, s')"
  shows "bank_inv (tables_of (disk s'))"
  using assms
proof (induction bs arbitrary: s out)
  case Nil
  then show ?case by simp
next
  case (Cons b bs)
  obtain ok s1 where 1: "boot_run e b s = (ok, s1)" by fastforce
  obtain o2 s2 where 2: "boot_loop e bs s1 = (o2, s2)" by fastforce
  have r: "room (tables_of (disk s))" using Cons.prems(4) by (simp add: room_def)
  have f: "fresh_uid (tables_of (disk s))"
    using Cons.prems(3) r by (simp add: bank_inv_def ids_fresh)
  have m: "move True (tables_of (disk s)) (tables_of (disk s1))"
    using boot_run_move [OF Cons.prems(1) _ f 1] Cons.prems(2) by simp
  have "bank_inv (tables_of (disk s1))"
    using boot_run_inv [OF Cons.prems(1) _ Cons.prems(3) r 1] Cons.prems(2) by simp
  moreover have "boot_loop e bs s1 = (o2, s')" using 1 2 Cons.prems(5) by simp
  ultimately show ?case
    using Cons.IH [of s1 o2] Cons.prems(1,2,4) move_users_length [OF m] by simp
qed

lemma boot_ops_fit: "\<forall>b\<in>set boot_ops. boot_fits b"
  by (simp add: boot_ops_def fits_def size_defs)

lemma bank_inv_empty: "bank_inv (tables_of empty_store)"
  by (simp add: bank_inv_def ids_inv_def numbered_def wf_inv_def accounts_inv_def contacts_inv_def
      parties_inv_def ledger_inv_def loans_inv_def paid_inv_def empty_store_def approved_loans_def)

section \<open>The database of a new installation\<close>

record card =
  c_id :: uid
  c_role :: role_t
  c_name :: string
  c_mail :: string
  c_phone :: string
  c_hash :: carray

definition card_of :: "user_rec \<Rightarrow> card" where
  "card_of u = \<lparr>c_id = u_user_id u, c_role = u_role u, c_name = cstr (username u),
     c_mail = cstr (email u), c_phone = cstr (phone u), c_hash = password_hash u\<rparr>"

definition first_hash :: "env \<Rightarrow> string \<Rightarrow> carray" where
  "first_hash e password = generate_password_hash e password (password_hash zero_user)"

fun boot_card :: "env \<Rightarrow> boot_op \<Rightarrow> uid \<Rightarrow> card" where
  "boot_card e (Staff fname lname ag ad role em ph un password) k =
     \<lparr>c_id = k, c_role = the (staff_role role), c_name = un, c_mail = em, c_phone = ph,
      c_hash = first_hash e password\<rparr>"
| "boot_card e (Client fname lname ag ad em ph un password) k =
     \<lparr>c_id = k, c_role = ROLE_CUSTOMER, c_name = un, c_mail = em, c_phone = ph,
      c_hash = first_hash e password\<rparr>"

definition new_contact :: "string \<Rightarrow> string \<Rightarrow> string \<Rightarrow> card list \<Rightarrow> bool" where
  "new_contact un em ph cs \<longleftrightarrow> (\<forall>c\<in>set cs. c_name c \<noteq> un \<and> c_mail c \<noteq> em \<and> c_phone c \<noteq> ph)"

fun boot_new :: "boot_op \<Rightarrow> card list \<Rightarrow> bool" where
  \<comment> \<open>a valid role, and no contact that is already there\<close>
  "boot_new (Staff fname lname ag ad role em ph un password) cs \<longleftrightarrow>
     staff_role role \<noteq> None \<and> new_contact un em ph cs"
| "boot_new (Client fname lname ag ad em ph un password) cs \<longleftrightarrow> new_contact un em ph cs"

fun is_client :: "boot_op \<Rightarrow> bool" where
  "is_client (Client _ _ _ _ _ _ _ _) = True"
| "is_client _ = False"

definition new_account :: "uid \<Rightarrow> account_rec" where
  "new_account k = \<lparr>account_id = k, a_user_id = k, balance = dzero, a_active = STATUS_ACTIVE\<rparr>"

lemma unique_cards:
  assumes "new_contact un em ph (map card_of (users (disk s)))"
  shows "fst (check_uniqueness un em ph 0 s)"
proof -
  obtain ok s' where c: "check_uniqueness un em ph 0 s = (ok, s')" by fastforce
  from check_uniquenessD(4) [OF c] assms c show ?thesis by (auto simp: card_of_def new_contact_def)
qed

lemma set_details_zero_cstr:
  assumes "fits MAX_EMAIL_LEN em" "fits MAX_PHONE_LEN ph"
  shows "cstr (email (set_details f l a ad em ph zero_user)) = em"
    "cstr (phone (set_details f l a ad em ph zero_user)) = ph"
  using assms user_wf_zero by (simp_all add: user_wf_def fits_def stored_string_simp)

lemma boot_run_new:
  assumes "io_ok e" "boot_fits b" "fresh_uid (tables_of (disk s))" "boot_run e b s = (ok, s')"
    "boot_new b (map card_of (users (disk s)))"
  shows "ok \<and>
    map card_of (users (disk s')) =
      map card_of (users (disk s)) @ [boot_card e b (next_uid (users (disk s)))] \<and>
    accounts (disk s') = accounts (disk s) @
      (if is_client b then [new_account (next_uid (users (disk s)))] else []) \<and>
    txns (disk s') = txns (disk s) \<and> loans (disk s') = loans (disk s)"
proof (cases b)
  case (Staff f l a ad role em ph un p)
  with assms have add: "add_employee e f l a ad role em ph un p s = (ok, s')"
    and fit: "fits MAX_EMAIL_LEN em" "fits MAX_PHONE_LEN ph" "fits MAX_USERNAME_LEN un"
    and new: "staff_role role \<noteq> None" "fst (check_uniqueness un em ph 0 s)"
    by (auto intro!: unique_cards)
  from assms(1) add assms(3) fit show ?thesis
  proof (cases rule: add_employee_cases)
    case refused
    with new show ?thesis by simp
  next
    case (added r u)
    have "users (disk s') = users (disk s) @ [u]" "accounts (disk s') = accounts (disk s)"
      "txns (disk s') = txns (disk s)" "loans (disk s') = loans (disk s)"
      using arg_cong [OF added(6), of t_users] arg_cong [OF added(6), of t_accounts]
        arg_cong [OF added(6), of t_txns] arg_cong [OF added(6), of t_loans] by simp_all
    with added(1-5) Staff show ?thesis by (simp add: card_of_def new_staff_def first_hash_def)
  qed
next
  case (Client f l a ad em ph un p)
  let ?u = "set_details f l a ad em ph zero_user"
  from Client assms have add: "add_new_customer e ?u zero_account un p s = (ok, s')"
    and fit: "fits MAX_USERNAME_LEN un" "fits MAX_EMAIL_LEN em" "fits MAX_PHONE_LEN ph" by auto
  note str = set_details_zero_cstr [OF fit(2,3), of f l a ad]
  have uniq: "fst (check_uniqueness un (cstr (email ?u)) (cstr (phone ?u)) 0 s)"
    using assms(5) Client unfolding str by (auto intro!: unique_cards)
  from assms(1) add assms(3) show ?thesis
  proof (cases rule: add_new_customer_cases)
    case refused
    with uniq show ?thesis by simp
  next
    case (added u a)
    have "users (disk s') = users (disk s) @ [u]" "accounts (disk s') = accounts (disk s) @ [a]"
      "txns (disk s') = txns (disk s)" "loans (disk s') = loans (disk s)"
      using arg_cong [OF added(5), of t_users] arg_cong [OF added(5), of t_accounts]
        arg_cong [OF added(5), of t_txns] arg_cong [OF added(5), of t_loans] by simp_all
    moreover have "cstr (username u) = un"
      using added(3) fit(1) user_wf_zero by (simp add: new_customer_def user_wf_def fits_def stored_string_simp)
    moreover have "password_hash ?u = password_hash zero_user" by simp
    ultimately show ?thesis
      using added(1-4) Client str
      by (simp add: card_of_def new_customer_def new_account_def first_hash_def)
  qed
qed

lemma boot_loop_new:
  assumes "io_ok e" "bank_inv (tables_of (disk s))" "users (disk s) = us"
    "map card_of us = cs" "accounts (disk s) = as"
    "boot_fits b" "boot_new b cs" "1001 + length us < 2 ^ 31"
    "boot_loop e (b # bs) s = (out, s')"
  obtains out1 s1 us1 where "boot_loop e bs s1 = (out1, s')" "success_count out = Suc (success_count out1)"
    "bank_inv (tables_of (disk s1))" "users (disk s1) = us1" "length us1 = Suc (length us)"
    "map card_of us1 = cs @ [boot_card e b (next_uid us)]"
    "accounts (disk s1) = as @ (if is_client b then [new_account (next_uid us)] else [])"
    "txns (disk s1) = txns (disk s)" "loans (disk s1) = loans (disk s)"
proof -
  obtain ok s1 where 1: "boot_run e b s = (ok, s1)" by fastforce
  obtain out1 s2 where 2: "boot_loop e bs s1 = (out1, s2)" by fastforce
  have r: "room (tables_of (disk s))" using assms(3,8) by (simp add: room_def)
  have f: "fresh_uid (tables_of (disk s))" using assms(2) r by (simp add: bank_inv_def ids_fresh)
  have new: "ok" "map card_of (users (disk s1)) = cs @ [boot_card e b (next_uid us)]"
    "accounts (disk s1) = as @ (if is_client b then [new_account (next_uid us)] else [])"
    "txns (disk s1) = txns (disk s)" "loans (disk s1) = loans (disk s)"
    using boot_run_new [OF assms(1,6) f 1] assms(3-5,7) by simp_all
  have "length (users (disk s1)) = Suc (length us)"
    using new(2) assms(4) by (metis length_map length_append_singleton)
  moreover have "out = (True, resp_msg s1) # out1" "s2 = s'" using 1 2 new(1) assms(9) by simp_all
  ultimately show thesis
    using 2 new(2-) boot_run_inv [OF assms(1,6,2) r 1]
    by (intro that [of s1 out1 "users (disk s1)"]) (simp_all add: success_count_def)
qed

text \<open>The cards and the accounts after a sequence of creations that all succeed.\<close>

fun boot_cards :: "env \<Rightarrow> boot_op list \<Rightarrow> card list \<Rightarrow> card list" where
  "boot_cards e [] cs = cs"
| "boot_cards e (b # bs) cs = boot_cards e bs (cs @ [boot_card e b (of_nat (1001 + length cs))])"

fun boot_accounts :: "boot_op list \<Rightarrow> nat \<Rightarrow> account_rec list" where
  "boot_accounts [] n = []"
| "boot_accounts (b # bs) n =
     (if is_client b then [new_account (of_nat (1001 + n))] else []) @ boot_accounts bs (Suc n)"

fun boot_all_new :: "env \<Rightarrow> boot_op list \<Rightarrow> card list \<Rightarrow> bool" where
  "boot_all_new e [] cs = True"
| "boot_all_new e (b # bs) cs \<longleftrightarrow> boot_fits b \<and> boot_new b cs \<and>
     boot_all_new e bs (cs @ [boot_card e b (of_nat (1001 + length cs))])"

lemma boot_loop_all:
  assumes "io_ok e" "bank_inv (tables_of (disk s))" "users (disk s) = us" "map card_of us = cs"
    "accounts (disk s) = as" "boot_all_new e bs cs" "1001 + length us + length bs < 2 ^ 31"
    "boot_loop e bs s = (out, s')"
  shows "success_count out = length bs \<and> bank_inv (tables_of (disk s')) \<and>
    map card_of (users (disk s')) = boot_cards e bs cs \<and>
    accounts (disk s') = as @ boot_accounts bs (length us) \<and>
    txns (disk s') = txns (disk s) \<and> loans (disk s') = loans (disk s)"
  using assms(2-)
proof (induction bs arbitrary: s us cs as out)
  case Nil
  then show ?case by (auto simp: success_count_def)
next
  case (Cons b bs)
  have n: "length cs = length us" using Cons.prems(3) by auto
  have k: "next_uid us = of_nat (1001 + length cs)" by (simp add: next_uid_def n)
  have bn: "boot_fits b" "boot_new b cs"
    "boot_all_new e bs (cs @ [boot_card e b (of_nat (1001 + length cs))])"
    using Cons.prems(5) by simp_all
  have r: "1001 + length us < 2 ^ 31" using Cons.prems(6) by simp
  from boot_loop_new [OF assms(1) Cons.prems(1-4) bn(1,2) r Cons.prems(7)] obtain out1 s1 us1 where
    1: "boot_loop e bs s1 = (out1, s')" "success_count out = Suc (success_count out1)"
    "bank_inv (tables_of (disk s1))" "users (disk s1) = us1" "length us1 = Suc (length us)"
    "map card_of us1 = cs @ [boot_card e b (next_uid us)]"
    "accounts (disk s1) = as @ (if is_client b then [new_account (next_uid us)] else [])"
    "txns (disk s1) = txns (disk s)" "loans (disk s1) = loans (disk s)" .
  note IH = Cons.IH [OF 1(3,4,6,7) _ _ 1(1)]
  show ?case
    using IH bn(3) Cons.prems(6) 1(2,5,8,9) by (simp add: k n)
qed

lemma boot_ops_new: "boot_all_new e boot_ops []"
  by (simp add: boot_ops_def new_contact_def staff_role_def fits_def size_defs)

text \<open>What a new installation holds, with \<open>crypt\<close> left open.\<close>

lemma bootstrap_store:
  assumes "io_ok e" "disk s = empty_store" "bootstrap_main e True s = (rc, out, s')"
  shows "rc = 0 \<and> success_count out = 6 \<and> bank_inv (tables_of (disk s')) \<and>
    map card_of (users (disk s')) = boot_cards e boot_ops [] \<and>
    accounts (disk s') = boot_accounts boot_ops 0 \<and> txns (disk s') = [] \<and> loans (disk s') = []"
proof -
  have b: "boot_loop e boot_ops s = (out, s')" "rc = 0"
    using assms(3) by (auto simp: bootstrap_main_def split: prod.splits)
  have n: "length boot_ops = 6" by (simp add: boot_ops_def)
  have i: "bank_inv (tables_of (disk s))" using bank_inv_empty assms(2) by simp
  have e: "users (disk s) = []" "accounts (disk s) = []" using assms(2) by (simp_all add: empty_store_def)
  from boot_loop_all [OF assms(1) i e(1) _ e(2) boot_ops_new _ b(1)] b(2) n assms(2) show ?thesis
    by (simp add: empty_store_def)
qed

end
