(* ===== verification/Replies.thy ===== *)
theory Replies
  imports Service
begin

text \<open>
  What the server answers: every reply fits the \<open>MAX_MSG_LEN\<close> bytes of the response with its
  NUL, whatever the request and whatever fails; the lists answer with the lines of the matching
  records, cut off at that size.
\<close>

section \<open>Replies that fit\<close>

definition short :: "st \<Rightarrow> bool" where
  "short s \<longleftrightarrow> length (resp_msg s) < MAX_MSG_LEN"

named_theorems short_rules \<open>operations that leave a reply that fits\<close>

lemma short_say [simp]: "short (say m s)"
  using length_snprintf [of MAX_MSG_LEN m] by (simp add: short_def size_defs)

lemma short_snprintf [simp]: "length (snprintf MAX_MSG_LEN m) < MAX_MSG_LEN"
  using length_snprintf [of MAX_MSG_LEN m] by (simp add: size_defs)

lemma append_resp_short: "length msg < MAX_MSG_LEN \<Longrightarrow> length (append_resp msg x) < MAX_MSG_LEN"
  unfolding append_resp_def by (rule length_strncat)

lemma list_loop_short:
  "length msg < MAX_MSG_LEN \<Longrightarrow> list_loop p line rs (msg, found) = (msg', found') \<Longrightarrow>
   length msg' < MAX_MSG_LEN"
  by (induction rs arbitrary: msg found) (auto split: if_splits intro: append_resp_short)

lemma back_loop_short:
  "length msg < MAX_MSG_LEN \<Longrightarrow> back_loop entry rs n (msg, found) = (msg', found') \<Longrightarrow>
   length msg' < MAX_MSG_LEN"
  by (induction n arbitrary: msg found)
    (auto split: if_splits option.splits intro: append_resp_short)

lemma user_list_loop_short:
  "length msg < MAX_MSG_LEN \<Longrightarrow> user_list_loop us (msg, found) = (msg', found') \<Longrightarrow>
   length msg' < MAX_MSG_LEN"
proof (induction us arbitrary: msg found)
  case (Cons u us)
  note fits = Cons.prems(1) append_resp_short [OF Cons.prems(1)]
  show ?case
    using Cons.prems(2) fits
    by (auto simp: Let_def split: if_splits intro: Cons.IH [rotated])
qed simp

lemma review_loop_short:
  "length msg < MAX_MSG_LEN \<Longrightarrow> review_loop e fs n (msg, cnt) s = ((msg', cnt'), s') \<Longrightarrow>
   length msg' < MAX_MSG_LEN"
  by (induction fs arbitrary: msg cnt n s) (auto split: if_splits, metis append_resp_short)

section \<open>The routines keep the reply\<close>

lemma pwrite_resp: "resp_msg (snd (pwrite e upd i r s)) = resp_msg s"
  by (simp add: pwrite_def)

lemma pwrite_short: "pwrite e upd i r s = (ok, s') \<Longrightarrow> short s \<Longrightarrow> short s'"
  using pwrite_resp [of e upd i r s] by (simp add: short_def)

lemma atomic_update_short:
  assumes "atomic_update e get upd off m s = (ok, s')" "short s"
    "\<And>r b r' s1. m r s = (b, r', s1) \<Longrightarrow> short s1"
  shows "short s'"
  using assms
  by (fastforce simp: atomic_update_def split: option.splits if_splits prod.splits dest: pwrite_short)

lemma open_creat_short: "open_creat e get upd s = (ok, s') \<Longrightarrow> short s \<Longrightarrow> short s'"
  by (auto simp: open_creat_def short_def split: option.splits if_splits)

lemma write_rec_short: "write_rec e get upd same r s = (ok, s') \<Longrightarrow> short s \<Longrightarrow> short s'"
  by (auto simp: write_rec_def Let_def short_def pwrite_resp split: prod.splits if_splits
      dest!: open_creat_short [unfolded short_def])

lemma append_rec_short: "append_rec e get upd set_id r s = (ok, r', s') \<Longrightarrow> short s \<Longrightarrow> short s'"
  by (auto simp: append_rec_def Let_def short_def pwrite_resp split: prod.splits if_splits
      dest!: open_creat_short [unfolded short_def])

lemma check_uniqueness_short: "check_uniqueness un em ph k s = (ok, s') \<Longrightarrow> short s \<Longrightarrow> short s'"
  by (auto simp: check_uniqueness_def split: option.splits)

lemma generate_new_userId_short: "generate_new_userId e s = (k, s') \<Longrightarrow> short s \<Longrightarrow> short s'"
  by (auto simp: generate_new_userId_def split: prod.splits if_splits dest: open_creat_short)

lemmas routine_short = append_rec_short write_rec_short check_uniqueness_short generate_new_userId_short

lemmas update_short = atomic_update_short [where get = accounts_db and upd = accounts_db_update]
  atomic_update_short [where get = users_db and upd = users_db_update]
  atomic_update_short [where get = loans_db and upd = loans_db_update]

section \<open>The operations\<close>

lemma modifier_short:
  "deposit_modifier x a s = (b, a', s1) \<Longrightarrow> short s \<Longrightarrow> short s1"
  "withdraw_modifier x a s = (b, a', s1) \<Longrightarrow> short s \<Longrightarrow> short s1"
  "set_status_modifier v a s = (b, a', s1) \<Longrightarrow> short s \<Longrightarrow> short s1"
  "change_pass_modifier e p u s = (b, u', s1) \<Longrightarrow> short s \<Longrightarrow> short s1"
  "modify_customer_modifier f l ag ad em ph u s = (b, u', s1) \<Longrightarrow> short s \<Longrightarrow> short s1"
  "modify_user_modifier f l ag ad em ph u s = (b, u', s1) \<Longrightarrow> short s \<Longrightarrow> short s1"
  "change_role_modifier r u s = (b, u', s1) \<Longrightarrow> short s \<Longrightarrow> short s1"
  "assign_loan_modifier k lo s = (b, lo', s1) \<Longrightarrow> short s \<Longrightarrow> short s1"
  by (auto simp: deposit_modifier_def withdraw_modifier_def set_status_modifier_def
      change_pass_modifier_def modify_customer_modifier_def modify_user_modifier_def
      change_role_modifier_def assign_loan_modifier_def Let_def
      split: if_splits prod.splits option.splits dest: check_uniqueness_short)

lemma account_update_short:
  "atomic_update_account e k (deposit_modifier x) s = (ok, s') \<Longrightarrow> short s \<Longrightarrow> short s'"
  "atomic_update_account e k (withdraw_modifier x) s = (ok, s') \<Longrightarrow> short s \<Longrightarrow> short s'"
  "atomic_update_account e k (set_status_modifier v) s = (ok, s') \<Longrightarrow> short s \<Longrightarrow> short s'"
  unfolding atomic_update_account_def
  by (blast intro: atomic_update_short modifier_short)+

lemma user_update_short:
  "atomic_update_user e k (change_pass_modifier e p) s = (ok, s') \<Longrightarrow> short s \<Longrightarrow> short s'"
  "atomic_update_user e k (modify_customer_modifier f l ag ad em ph) s = (ok, s') \<Longrightarrow> short s \<Longrightarrow> short s'"
  "atomic_update_user e k (modify_user_modifier f l ag ad em ph) s = (ok, s') \<Longrightarrow> short s \<Longrightarrow> short s'"
  "atomic_update_user e k (change_role_modifier r) s = (ok, s') \<Longrightarrow> short s \<Longrightarrow> short s'"
  unfolding atomic_update_user_def
  by (blast intro: atomic_update_short modifier_short)+

lemma append_short:
  "append_transaction e tx s = (ok, tx', s') \<Longrightarrow> short s \<Longrightarrow> short s'"
  "append_loan e lo s = (ok, lo', s') \<Longrightarrow> short s \<Longrightarrow> short s'"
  "append_feedback e fb s = (ok, fb', s') \<Longrightarrow> short s \<Longrightarrow> short s'"
  unfolding append_transaction_def append_loan_def append_feedback_def
  by (blast intro: append_rec_short)+

lemma approve_modifier_short:
  assumes "approve_reject_loan_modifier e action k lo s = (b, lo', s1)" "short s"
  shows "short s1"
  using assms
  by (auto simp: approve_reject_loan_modifier_def Let_def split: if_splits prod.splits option.splits)

lemma loan_update_short:
  "atomic_update_loan e k (assign_loan_modifier m) s = (ok, s') \<Longrightarrow> short s \<Longrightarrow> short s'"
  "atomic_update_loan e k (approve_reject_loan_modifier e action m) s = (ok, s') \<Longrightarrow> short s \<Longrightarrow> short s'"
  unfolding atomic_update_loan_def
  by (blast intro: atomic_update_short modifier_short approve_modifier_short)+

lemma customer_short [short_rules]:
  assumes "short s"
  shows "short (snd (change_password e k p s))" "short (snd (view_personal_details k s))"
    "short (snd (view_balance k s))" "short (snd (deposit_money e k x s))"
    "short (snd (withdraw_money e k x s))" "short (snd (apply_loan e k x s))"
    "short (snd (add_feedback e k m s))"
  using assms
  by (auto simp: change_password_def view_personal_details_def view_balance_def deposit_money_def
      withdraw_money_def apply_loan_def add_feedback_def Let_def split: prod.splits option.splits if_splits
      dest: user_update_short account_update_short append_short)

lemma transfer_short [short_rules]:
  assumes "short s" shows "short (snd (transfer_funds e f t x s))"
  using assms
  by (auto simp: transfer_funds_def Let_def split: prod.splits option.splits if_splits
      dest: account_update_short)

lemma short_resp: "length m < MAX_MSG_LEN \<Longrightarrow> short (s\<lparr>resp_msg := m\<rparr>)"
  by (simp add: short_def)

lemma views_short [short_rules]:
  assumes "short s"
  shows "short (snd (view_loan_status k s))" "short (snd (view_feedback_status k s))"
    "short (snd (view_transaction_history e k s))" "short (snd (view_assigned_loans k s))"
    "short (snd (process_loans s))" "short (snd (view_non_assigned_loans s))" "short (snd (list_all_users s))"
  using assms
  by (auto simp: view_loan_status_def view_feedback_status_def view_transaction_history_def
      view_assigned_loans_def process_loans_def view_non_assigned_loans_def list_all_users_def
      history_header_def size_defs
      split: prod.splits option.splits intro!: short_resp
      elim!: list_loop_short back_loop_short user_list_loop_short
        list_loop_short [rotated] back_loop_short [rotated] user_list_loop_short [rotated])

lemma staff_short [short_rules]:
  assumes "short s"
  shows "short (snd (set_account_status e k v s))" "short (snd (assign_loan_to_employee e n k s))"
    "short (snd (approve_reject_loan e lid action k s))"
    "short (snd (modify_customer e k f l ag ad em ph s))" "short (snd (modify_user e k f l ag ad em ph s))"
    "short (snd (change_user_role e k r s))"
  using assms
  by (auto simp: set_account_status_def assign_loan_to_employee_def approve_reject_loan_def
      modify_customer_def modify_user_def change_user_role_def split: prod.splits
      dest: user_update_short account_update_short loan_update_short)

lemma adds_short [short_rules]:
  assumes "short s"
  shows "short (snd (add_new_customer e u a un p s))"
    "short (snd (add_employee e f l ag ad role em ph un p s))"
  using assms
  by (auto simp: add_new_customer_def add_employee_def Let_def write_user_def write_account_def
      split: prod.splits option.splits if_splits dest!: routine_short)

lemma review_short [short_rules]:
  assumes "short s" shows "short (snd (review_feedbacks e s))"
proof (cases "feedback_db (disk s)")
  case None
  then show ?thesis by (simp add: review_feedbacks_def)
next
  case (Some fs)
  let ?h = "''--- Unreviewed Feedback ---'' @ NL"
  obtain msg cnt s1 where l: "review_loop e fs 0 (?h, 0) s = ((msg, cnt), s1)"
    by (metis surj_pair)
  have "length ?h < MAX_MSG_LEN" by (simp add: size_defs)
  from review_loop_short [OF this l] show ?thesis
    using l Some
    by (auto simp: review_feedbacks_def simp del: append_Cons intro: short_resp append_resp_short)
qed

lemma customer_history_short [short_rules]:
  assumes "short s" shows "short (snd (view_customer_transactions e k s))"
proof -
  have "length (''--- Transaction History for Customer '' @ fmt_u k @ '' ---'' @ NL @ history_header)
      < MAX_MSG_LEN"
    using length_fmt_u [of k] by (simp add: history_header_def size_defs)
  then show ?thesis
    by (auto simp: view_customer_transactions_def split: prod.splits option.splits
        intro!: short_resp elim!: back_loop_short [rotated] simp del: length_append append_Cons)
qed

section \<open>Every reply of the router\<close>

lemma with_args_short:
  assumes "with_args cs payload k = Inr (c, s')" "\<And>as r. k as = Inr (c, s') \<Longrightarrow> short s'"
  shows "short s'"
  using assms by (auto simp: with_args_def split: sum.splits)

lemma served_short: "served r = Inr (c, s') \<Longrightarrow> short (snd r) \<Longrightarrow> short s'"
  by (auto simp: served_def)

lemma bad_payload_short: "bad_payload op s = Inr (c, s') \<Longrightarrow> short s'"
  by (auto simp: bad_payload_def)

lemma routes_short:
  assumes "short s"
  shows "customer_routes e op payload s = Some (Inr (c, s')) \<Longrightarrow> short s'"
    and "employee_routes e op payload s = Some (Inr (c, s')) \<Longrightarrow> short s'"
    and "manager_routes e op payload s = Some (Inr (c, s')) \<Longrightarrow> short s'"
    and "admin_routes e op payload s = Some (Inr (c, s')) \<Longrightarrow> short s'"
  using assms
  by (auto simp: customer_routes_def employee_routes_def manager_routes_def admin_routes_def
      split: if_splits list.splits
      elim!: with_args_short served_short bad_payload_short intro!: short_rules
      dest!: served_short bad_payload_short)

lemma dispatch_short:
  assumes "dispatch e op payload s = Inr (c, s')" "short s"
  shows "short s'"
  using assms routes_short [OF assms(2), of e op payload c s']
  by (auto simp: dispatch_def split: option.splits)

lemma handle_request_short:
  assumes "handle_request e op payload cur v = Inr (r, cur', v')"
  shows "length (resp_message r) < MAX_MSG_LEN"
proof -
  have s: "short (start_st v)" by (simp add: short_def size_defs)
  consider (login) "handle_login e payload cur v = Inr (r, cur', v')"
    | (logout) "resp_message r = ''Logged out successfully''"
    | (other) c t where "dispatch e op payload (start_st v) = Inr (c, t)" "resp_message r = resp_msg t"
    using assms by (auto simp: handle_request_def split: if_splits sum.splits)
  then show ?thesis
  proof cases
    case login
    then show ?thesis
      by (auto simp: handle_login_def Let_def split: sum.splits login_result.splits prod.splits if_splits)
  next
    case logout
    then show ?thesis by (simp add: size_defs)
  next
    case other
    with dispatch_short [OF other(1) s] show ?thesis by (simp add: short_def)
  qed
qed

section \<open>What the views show\<close>

lemma transaction_history_reply:
  assumes "txns_db (disk s) = Some ts"
  shows "view_transaction_history e k s = (True, s\<lparr>resp_msg :=
    snprintf MAX_MSG_LEN (if \<exists>tx\<in>set ts. txn_kind k tx \<noteq> None
      then history_header @ concat (List.map_filter (\<lambda>tx. map_option (txn_line e tx) (txn_kind k tx)) (rev ts))
      else ''No transaction history found for your ID.'')\<rparr>)"
proof -
  have "length history_header < MAX_MSG_LEN" by (simp add: history_header_def size_defs)
  from back_loop_hdr [OF this, of "\<lambda>tx. map_option (txn_line e tx) (txn_kind k tx)" ts False] assms
  show ?thesis
    by (simp add: view_transaction_history_def say_def split_beta del: not_None_eq)
qed

lemma loan_status_reply:
  assumes "loans_db (disk s) = Some ls"
  shows "view_loan_status k s = (True, s\<lparr>resp_msg :=
    snprintf MAX_MSG_LEN (if \<exists>l\<in>set ls. l_user_id l = k
      then concat (map loan_status_line (filter (\<lambda>l. l_user_id l = k) ls))
      else ''No loan applications found for your ID.'')\<rparr>)"
proof -
  have "length ([] :: string) < MAX_MSG_LEN" by (simp add: size_defs)
  from list_loop_hdr [OF this, of "\<lambda>l. l_user_id l = k" loan_status_line ls False] assms show ?thesis
    by (auto simp: view_loan_status_def say_def)
qed

text \<open>The batch review handles every feedback once.\<close>

lemma review_feedbacks_again:
  assumes "io_ok e" "review_feedbacks e s = (ok, s1)" "feedback_db (disk s) = Some fs"
    "io_ok e'" "review_feedbacks e' s1 = (ok', s2)"
  shows "feedbacks (disk s1) = map mark_reviewed fs \<and> feedbacks (disk s2) = feedbacks (disk s1) \<and>
    resp_msg s2 = ''No new feedback found to review.''"
proof -
  have mm: "mark_reviewed (mark_reviewed f) = mark_reviewed f" "reviewed (mark_reviewed f) \<noteq> 0" for f
    by (simp_all add: mark_reviewed_def)
  have f1: "feedbacks (disk s1) = map mark_reviewed fs"
    using arg_cong [OF review_feedbacks_tables [OF assms(1,2)], of t_fbs] assms(3) by simp
  have f2: "feedbacks (disk s2) = feedbacks (disk s1)"
    using arg_cong [OF review_feedbacks_tables [OF assms(4,5)], of t_fbs] f1 by (simp add: mm comp_def)
  have db: "feedback_db (disk s1) = Some (map mark_reviewed fs)"
  proof -
    obtain msg cnt t where
      l: "review_loop e fs 0 (''--- Unreviewed Feedback ---'' @ NL, 0) s = ((msg, cnt), t)"
      by (metis surj_pair)
    have "disk s1 = disk t"
      using l assms(2,3) by (auto simp: review_feedbacks_def simp del: append_Cons split: if_splits)
    with review_loop_disk [OF assms(1), of s "[]" fs] l assms(3) show ?thesis by simp
  qed
  obtain msg cnt t where
    l: "review_loop e' (map mark_reviewed fs) 0 (''--- Unreviewed Feedback ---'' @ NL, 0) s1 = ((msg, cnt), t)"
    by (metis surj_pair)
  have "cnt = length (filter (\<lambda>f. reviewed f = 0) (map mark_reviewed fs))"
    using review_loop_disk [OF assms(4), of s1 "[]" "map mark_reviewed fs" "''--- Unreviewed Feedback ---'' @ NL" 0 msg cnt t] l db
    by (simp del: append_Cons)
  also have "\<dots> = 0" using mm(2) by simp
  finally have "resp_msg s2 = snprintf MAX_MSG_LEN ''No new feedback found to review.''"
    using l db assms(5) by (auto simp: review_feedbacks_def simp del: append_Cons)
  then show ?thesis using f1 f2 by (simp add: snprintf_def size_defs)
qed

section \<open>Requests without a login\<close>

lemma handle_request_any_user:
  assumes "op \<noteq> ''LOGIN''" "op \<noteq> ''LOGOUT''"
  shows "handle_request e op payload cur v = Inr (r, cur, v') \<longleftrightarrow>
    handle_request e op payload 0 v = Inr (r, 0, v')"
  using assms by (auto simp: handle_request_def split: sum.splits prod.splits)

lemma modify_user_refused:
  assumes "sscanf [Cu, Cd, Cs MAX_FNAME_LEN, Cs MAX_LNAME_LEN, Cs MAX_ADDR_LEN, Cs MAX_EMAIL_LEN,
      Cs MAX_PHONE_LEN] payload = Inr as" "length as = 7"
  shows "dispatch e ''MODIFY_USER'' payload s = bad_payload ''MODIFY_USER'' s"
  using assms
  by (simp add: dispatch_def customer_routes_def employee_routes_def manager_routes_def
      admin_routes_def with_args_def del: sscanf.simps)

lemma full_table_login:
  assumes "sscanf [Cs MAX_USERNAME_LEN, Cs MAX_PASSWORD_LEN] payload = Inr as"
    "login_user e (arg_s e as 0 ''username'') (arg_s e as 1 ''password'') (start_st v) = Login_ok k role nm"
    "0 \<notin> set (active_sessions v)" "k \<notin> set (active_sessions v)"
  shows "\<exists>r. handle_request e ''LOGIN'' payload cur v = Inr (r, cur, v) \<and> take 8 (resp_message r) = ''SUCCESS ''"
  using assms
  by (simp add: handle_request_def handle_login_def open_session_def Let_def snprintf_def size_defs
      min_def del: sscanf.simps)

end
