(* ===== verification/Fixtures.thy ===== *)
theory Fixtures
  imports Access Bootstrap Replies
begin

text \<open>
  Concrete inputs: an environment, two databases and a server, on which the properties are
  applied. \<open>demo_env\<close> plays \<^verbatim>\<open>crypt\<close> by prefixing the salt, which is all the code needs to
  know about it; the installed database is the one \<open>bootstrap_main\<close> leaves.
\<close>

definition demo_env :: env where
  "demo_env = \<lparr>now = (\<lambda>_. 1700000000), wr_ok = (\<lambda>_. True), lock_ok = (\<lambda>_. True), creat_ok = True,
     crypt_fn = (\<lambda>p s. Some (take 9 s @ p)), time_str = (\<lambda>_. ''2023-11-14 22:13:20''),
     stk_u32 = (\<lambda>_. 0), stk_u64 = (\<lambda>_. 0), stk_f64 = (\<lambda>_. dzero),
     stk_arr = (\<lambda>v. init_array (if v = ''phone'' then 16 else 64) []),
     stk_user = zero_user, stk_account = zero_account\<rparr>"

definition failing :: "nat set \<Rightarrow> env" where
  \<comment> \<open>the writes of the set fail\<close>
  "failing ns = demo_env\<lparr>wr_ok := (\<lambda>n. n \<notin> ns)\<rparr>"

lemma demo_env_ok [simp]: "io_ok demo_env"
  by (simp add: io_ok_def demo_env_def)

definition holder :: "uid \<Rightarrow> int \<Rightarrow> account_rec" where
  "holder k v = \<lparr>account_id = k, a_user_id = k, balance = dbl v, a_active = STATUS_ACTIVE\<rparr>"

definition demo_user :: "uid \<Rightarrow> role_t \<Rightarrow> string \<Rightarrow> user_rec" where
  "demo_user k r un = zero_user\<lparr>u_user_id := k, u_role := r, u_active := STATUS_ACTIVE,
     username := init_array MAX_USERNAME_LEN un,
     password_hash := init_array MAX_PASSWORD_LEN ''$6$IIITB$pw'', email := init_array MAX_EMAIL_LEN un,
     phone := init_array MAX_PHONE_LEN un\<rparr>"

definition demo_loan :: loan_rec where
  "demo_loan = \<lparr>loan_id = 1, l_user_id = 1001, l_amount = dbl 900, l_status = LOAN_ASSIGNED,
     assigned_to = 1003, applied_at = 0, processed_at = 0, remarks = init_array 256 []\<rparr>"

definition demo_feedback :: feedback_rec where
  "demo_feedback = \<lparr>fb_id = 1, f_user_id = 1001, message = init_array 512 ''slow'', reviewed = 0,
     action_taken = init_array 256 [], submitted_at = 0\<rparr>"

definition demo_store :: store where
  "demo_store = \<lparr>
     users_db = Some [demo_user 1001 ROLE_CUSTOMER ''ann'', demo_user 1002 ROLE_CUSTOMER ''bob'',
                      demo_user 1003 ROLE_EMPLOYEE ''eve''],
     accounts_db = Some [holder 1001 500, holder 1002 40], txns_db = Some [],
     loans_db = Some [demo_loan], feedback_db = Some [demo_feedback]\<rparr>"

definition demo_st :: st where
  "demo_st = \<lparr>disk = demo_store, tick = 0, resp_msg = []\<rparr>"

text \<open>The password of every user of this database is \<^verbatim>\<open>pw\<close>.\<close>

lemmas demo_defs = demo_st_def demo_store_def demo_env_def demo_user_def demo_loan_def
  demo_feedback_def holder_def failing_def

lemma demo_sel [simp]:
  "disk demo_st = demo_store" "tick demo_st = 0" "resp_msg demo_st = []"
  "accounts demo_store = [holder 1001 500, holder 1002 40]" "txns demo_store = []"
  "loans demo_store = [demo_loan]" "feedbacks demo_store = [demo_feedback]"
  "users demo_store = [demo_user 1001 ROLE_CUSTOMER ''ann'', demo_user 1002 ROLE_CUSTOMER ''bob'',
     demo_user 1003 ROLE_EMPLOYEE ''eve'']"
  "balance (holder k v) = dbl v" "a_user_id (holder k v) = k" "a_active (holder k v) = STATUS_ACTIVE"
  "account_id (holder k v) = k"
  by (simp_all add: demo_defs)

lemma demo_offsets [simp]:
  "find_account_offset 1001 demo_store = Some 0" "find_account_offset 1002 demo_store = Some 1"
  "find_loan_offset 1 demo_store = Some 0"
  by (simp_all add: find_account_offset_def find_loan_offset_def find_offset_def scan_offset_def
      demo_defs)

lemma demo_read [simp]:
  "read_account 1001 demo_st = Some (holder 1001 500)" "read_account 1002 demo_st = Some (holder 1002 40)"
  by (simp_all add: read_account_at)

section \<open>Parsing concrete requests\<close>

lemmas scan_eval = scan_u_def scan_llu_def scan_d_def scan_s_def scan_int_def scan_sign_def
  skip_ws_def is_space_def is_digit_in_def digit_val_def num_val_def ulong_of_def long_of_def
  scan_lf_def scan_magnitude_def scan_mantissa_def scan_exponent_def to_lower_def

lemma dbl_scaled_whole: "int m \<le> 2 ^ 53 \<Longrightarrow> dbl_scaled 10 m 0 = dbl (int m)"
  using dbl_of_ratio_exact [of "int m"] by (simp add: dbl_scaled_def)

section \<open>The installed server\<close>

definition boot_st :: st where
  "boot_st = \<lparr>disk = empty_store, tick = 0, resp_msg = []\<rparr>"

definition installed :: store where
  "installed = disk (snd (snd (bootstrap_main demo_env True boot_st)))"

definition installed_server :: bank where
  "installed_server = server_init installed"

lemma installed_facts:
  "bank_inv (tables_of installed)" "length (users installed) = 6"
  "accounts installed = [new_account 1005, new_account 1006]"
  "txns installed = []" "loans installed = []"
proof -
  obtain rc out s' where b: "bootstrap_main demo_env True boot_st = (rc, out, s')"
    by (metis surj_pair)
  have i: "installed = disk s'" by (simp add: installed_def b)
  note f = bootstrap_store [OF demo_env_ok(1) _ b]
  show "bank_inv (tables_of installed)" using f i by (simp add: boot_st_def)
  show "accounts installed = [new_account 1005, new_account 1006]"
    using f i by (simp add: boot_st_def boot_ops_def)
  show "txns installed = []" "loans installed = []" using f i by (simp_all add: boot_st_def)
  have "map card_of (users installed) = boot_cards demo_env boot_ops []"
    using f i by (simp add: boot_st_def)
  then have "length (users installed) = length (boot_cards demo_env boot_ops [])"
    by (metis length_map)
  then show "length (users installed) = 6" by (simp add: boot_ops_def)
qed

lemma installed_cards: "map card_of (users installed) = boot_cards demo_env boot_ops []"
proof -
  obtain rc out s' where b: "bootstrap_main demo_env True boot_st = (rc, out, s')"
    by (metis surj_pair)
  have "installed = disk s'" by (simp add: installed_def b)
  with bootstrap_store [OF demo_env_ok _ b] show ?thesis by (simp add: boot_st_def)
qed

text \<open>A run of two steps: a connection, and a deposit of 250 for the first customer.\<close>

definition deposit_request :: request_t where
  "deposit_request = \<lparr>req_op = init_array 32 ''DEPOSIT'', req_payload = init_array 1024 ''1005 250''\<rparr>"

lemma deposit_request_args:
  "cstr (req_op deposit_request) = ''DEPOSIT''" "cstr (req_payload deposit_request) = ''1005 250''"
  by (simp_all add: deposit_request_def cstr_init_array)

lemma scan_deposit: "sscanf [Cu, Clf] ''1005 250'' = Inr [Au 1005, Alf (dbl 250)]"
  by (simp add: scan_eval dbl_scaled_whole)

definition after_deposit :: bank where
  \<comment> \<open>the state after both steps\<close>
  "after_deposit =
     (let s = snd (deposit_money demo_env 1005 (dbl 250) (start_st (server installed_server)))
      in installed_server\<lparr>server := (server installed_server)\<lparr>srv_store := disk s, srv_tick := tick s\<rparr>,
           conns := [7 \<mapsto> 0]\<rparr>)"

lemma deposit_handled:
  "handle_request demo_env ''DEPOSIT'' ''1005 250'' 0 v =
    Inr (\<lparr>status_code = 0, resp_message = resp_msg (snd (deposit_money demo_env 1005 (dbl 250) (start_st v)))\<rparr>, 0,
      v\<lparr>srv_store := disk (snd (deposit_money demo_env 1005 (dbl 250) (start_st v))),
        srv_tick := tick (snd (deposit_money demo_env 1005 (dbl 250) (start_st v)))\<rparr>)"
  by (simp add: handle_request_def dispatch_def customer_routes_def with_args_def scan_deposit
      served_def arg_u_def arg_lf_def del: sscanf.simps)

lemma demo_step: "server_step demo_env b b' \<Longrightarrow> quiet_step b b'"
  using demo_env_ok unfolding quiet_step_def by blast

lemma demo_run: "(quiet_step ^^ 2) installed_server after_deposit"
proof -
  let ?b = "installed_server\<lparr>conns := (conns installed_server)(7 \<mapsto> 0)\<rparr>"
  have c: "conns installed_server = Map.empty"
    by (simp add: installed_server_def server_init_def)
  have "server_step demo_env installed_server ?b"
    by (rule server_step.accept) (simp add: c)
  then have 1: "quiet_step installed_server ?b" by (rule demo_step)
  let ?v = "(server ?b)\<lparr>srv_store := disk (snd (deposit_money demo_env 1005 (dbl 250) (start_st (server ?b)))),
        srv_tick := tick (snd (deposit_money demo_env 1005 (dbl 250) (start_st (server ?b))))\<rparr>"
  have "server_step demo_env ?b (?b\<lparr>server := ?v, conns := (conns ?b)(7 \<mapsto> 0)\<rparr>)"
  proof (rule server_step.request [where req = deposit_request])
    show "conns ?b 7 = Some 0" by simp
    show "handle_request demo_env (cstr (req_op deposit_request)) (cstr (req_payload deposit_request)) 0
      (server ?b) = Inr (\<lparr>status_code = 0, resp_message =
        resp_msg (snd (deposit_money demo_env 1005 (dbl 250) (start_st (server ?b))))\<rparr>, 0, ?v)"
      unfolding deposit_request_args by (rule deposit_handled)
  qed
  moreover have "?b\<lparr>server := ?v, conns := (conns ?b)(7 \<mapsto> 0)\<rparr> = after_deposit"
    by (simp add: after_deposit_def Let_def c)
  ultimately have "quiet_step ?b after_deposit"
    using demo_step by simp
  with 1 show ?thesis by (auto simp: numeral_2_eq_2)
qed

lemma installed_tables [simp]: "bank_tables installed_server = tables_of installed"
  by (simp add: bank_tables_def installed_server_def server_init_def)

lemma installed_hyps:
  "books_inv (bank_tables installed_server)"
  "1001 + length (t_users (bank_tables installed_server)) + 2 < 2 ^ 31"
  using installed_facts by (simp_all add: bank_inv_iff)

lemma installed_disk [simp]:
  "srv_store (server installed_server) = installed" "srv_tick (server installed_server) = 0"
  by (simp_all add: installed_server_def server_init_def)

lemma installed_offset: "find_account_offset 1005 (disk (start_st (server installed_server))) = Some 0"
proof -
  have "accounts_db installed = Some [new_account 1005, new_account 1006]"
    using installed_facts(3) by (cases "accounts_db installed") auto
  then show ?thesis
    by (simp add: find_account_offset_def find_offset_def scan_offset_def new_account_def)
qed

lemma after_deposit_disk:
  obtains tx where "movement_of tx = Deposited 1005 (dbl 250)"
    "srv_store (server after_deposit) = installed\<lparr>
       accounts_db := Some [(new_account 1005)\<lparr>balance := dbl 250\<rparr>, new_account 1006],
       txns_db := Some [tx]\<rparr>"
proof -
  let ?s = "start_st (server installed_server)"
  obtain ok s' where d: "deposit_money demo_env 1005 (dbl 250) ?s = (ok, s')" by fastforce
  have a: "a_active (accounts (disk ?s) ! 0) = STATUS_ACTIVE" "\<not> dle (dbl 250) dzero"
    using installed_facts(3) by (simp_all add: new_account_def dzero_dbl dle_dbl)
  have v: "dadd dzero (dbl 250) = dbl 250" unfolding dzero_dbl by (subst dadd_dbl) simp_all
  from deposit_log_works [OF installed_offset a demo_env_ok(1) d] obtain tx where
    "movement_of tx = Deposited 1005 (dbl 250)"
    "disk s' = installed\<lparr>accounts_db := Some (credited 0 (dbl 250) (accounts installed)),
       txns_db := Some (txns installed @ [tx])\<rparr>" by auto
  with that [of tx] d show thesis
    using installed_facts(3,4) v by (simp add: after_deposit_def Let_def credited_def new_account_def)
qed

lemma after_deposit_users [simp]: "users (srv_store (server after_deposit)) = users installed"
  by (rule after_deposit_disk) simp

lemma after_deposit_accounts:
  "accounts (srv_store (server after_deposit)) =
     [(new_account 1005)\<lparr>balance := dbl 250\<rparr>, new_account 1006]"
  by (rule after_deposit_disk) simp

section \<open>A customer enrolled on the installed server\<close>

definition enroll_request :: request_t where
  "enroll_request = \<lparr>req_op = init_array 32 ''ADD_CUSTOMER'',
     req_payload = init_array 1024 ''Zoe Ray 41 Hill_4 z@b.in 5550009999 zoe pw''\<rparr>"

lemma enroll_request_args:
  "cstr (req_op enroll_request) = ''ADD_CUSTOMER''"
  "cstr (req_payload enroll_request) = ''Zoe Ray 41 Hill_4 z@b.in 5550009999 zoe pw''"
  by (simp_all add: enroll_request_def cstr_init_array)

lemma scan_enroll: "sscanf customer_format ''Zoe Ray 41 Hill_4 z@b.in 5550009999 zoe pw'' =
    Inr [As ''Zoe'', As ''Ray'', Ad 41, As ''Hill_4'', As ''z@b.in'', As ''5550009999'', As ''zoe'', As ''pw'']"
  by (simp add: customer_format_def scan_eval size_defs)

lemma enroll_roomy: "roomy_request ''ADD_CUSTOMER'' ''Zoe Ray 41 Hill_4 z@b.in 5550009999 zoe pw''"
  by (simp add: roomy_request_def scan_enroll roomy_arg_def size_defs del: sscanf.simps)

lemma demo_stack: "stk_user demo_env = zero_user" "stk_account demo_env = zero_account"
  by (simp_all add: demo_env_def)

definition after_enroll :: bank where
  "after_enroll =
     (let s = snd (boot_run demo_env (Client ''Zoe'' ''Ray'' 41 ''Hill_4'' ''z@b.in'' ''5550009999'' ''zoe'' ''pw'')
        (start_st (server installed_server)))
      in installed_server\<lparr>server := (server installed_server)\<lparr>srv_store := disk s, srv_tick := tick s\<rparr>,
           conns := [7 \<mapsto> 0]\<rparr>)"

lemma enroll_run: "(roomy_step ^^ 2) installed_server after_enroll"
proof -
  let ?b = "installed_server\<lparr>conns := (conns installed_server)(7 \<mapsto> 0)\<rparr>"
  let ?s = "snd (boot_run demo_env (Client ''Zoe'' ''Ray'' 41 ''Hill_4'' ''z@b.in'' ''5550009999'' ''zoe'' ''pw'')
        (start_st (server installed_server)))"
  let ?v = "(server installed_server)\<lparr>srv_store := disk ?s, srv_tick := tick ?s\<rparr>"
  have c: "conns installed_server = Map.empty"
    by (simp add: installed_server_def server_init_def)
  have 1: "roomy_step installed_server ?b"
    unfolding roomy_step_def using demo_env_ok c by (intro exI [of _ demo_env] conjI server_step_on.accept_on) simp_all
  have h: "handle_request demo_env ''ADD_CUSTOMER'' ''Zoe Ray 41 Hill_4 z@b.in 5550009999 zoe pw'' 0
      (server installed_server) = Inr (\<lparr>status_code = 0, resp_message = resp_msg ?s\<rparr>, 0, ?v)"
    by (simp add: handle_request_def dispatch_def customer_routes_def employee_routes_def with_args_def
        scan_enroll [unfolded customer_format_def] served_def arg_s_def arg_d_def demo_stack
        del: sscanf.simps)
  have "server_step_on roomy_request demo_env ?b (?b\<lparr>server := ?v, conns := (conns ?b)(7 \<mapsto> 0)\<rparr>)"
    by (rule server_step_on.request_on [where req = enroll_request and cur = 0 and
          resp = "\<lparr>status_code = 0, resp_message = resp_msg ?s\<rparr>"])
      (simp_all add: enroll_request_args enroll_roomy h del: boot_run.simps)
  moreover have "?b\<lparr>server := ?v, conns := (conns ?b)(7 \<mapsto> 0)\<rparr> = after_enroll"
    by (simp add: after_enroll_def Let_def c)
  ultimately have "server_step_on roomy_request demo_env ?b after_enroll" by simp
  then have "roomy_step ?b after_enroll" unfolding roomy_step_def using demo_env_ok by blast
  with 1 show ?thesis by (auto simp: numeral_2_eq_2)
qed

lemma after_enroll_users: "length (users (srv_store (server after_enroll))) = 7"
proof -
  let ?b = "Client ''Zoe'' ''Ray'' 41 ''Hill_4'' ''z@b.in'' ''5550009999'' ''zoe'' ''pw''"
  let ?s = "start_st (server installed_server)"
  have d: "disk ?s = installed" by (simp add: installed_server_def server_init_def)
  have f: "fresh_uid (tables_of (disk ?s))"
    using installed_facts(1,2) by (simp add: d bank_inv_iff books_fresh room_def)
  have fit: "boot_fits ?b" by (simp add: fits_def size_defs)
  have new: "boot_new ?b (map card_of (users (disk ?s)))"
    by (simp add: d installed_cards boot_ops_def new_contact_def)
  obtain ok s' where r: "boot_run demo_env ?b ?s = (ok, s')" by fastforce
  from boot_run_new [OF demo_env_ok fit f r new]
  have "map card_of (users (disk s')) =
      map card_of (users (disk ?s)) @ [boot_card demo_env ?b (next_uid (users (disk ?s)))]" by blast
  then have "length (users (disk s')) = length (users (disk ?s)) + 1"
    by (metis length_map length_append_singleton Suc_eq_plus1)
  with r d installed_facts(2) show ?thesis by (simp add: after_enroll_def Let_def)
qed

section \<open>Logins on the demo database\<close>

lemma demo_user_cstr [simp]:
  "length un < 16 \<Longrightarrow> clean un \<Longrightarrow> cstr (username (demo_user k r un)) = un"
  "cstr (password_hash (demo_user k r un)) = ''$6$IIITB$pw''"
  by (simp_all add: demo_user_def cstr_init_array size_defs)

lemma demo_users_db: "users_db demo_store = Some [demo_user 1001 ROLE_CUSTOMER ''ann'',
    demo_user 1002 ROLE_CUSTOMER ''bob'', demo_user 1003 ROLE_EMPLOYEE ''eve'']"
  by (simp add: demo_store_def)

lemma demo_user_sel [simp]: "u_user_id (demo_user k r un) = k" "u_role (demo_user k r un) = r"
  "u_active (demo_user k r un) = STATUS_ACTIVE"
  by (simp_all add: demo_user_def)

lemma demo_verify: "verify_password demo_env ''pw'' ''$6$IIITB$pw''"
  by (simp add: verify_password_def demo_env_def)

lemma demo_login:
  assumes "disk s = demo_store"
  shows "\<exists>nm. login_user demo_env ''ann'' ''pw'' s = Login_ok 1001 ''customer'' nm"
    and "\<exists>nm. login_user demo_env ''bob'' ''pw'' s = Login_ok 1002 ''customer'' nm"
proof -
  have db: "users_db (disk s) = Some [demo_user 1001 ROLE_CUSTOMER ''ann'',
    demo_user 1002 ROLE_CUSTOMER ''bob'', demo_user 1003 ROLE_EMPLOYEE ''eve'']"
    using assms demo_users_db by simp
  have active: "\<not> account_closed 1001 s" "\<not> account_closed 1002 s"
    using assms by (simp_all add: account_closed_def read_account_at)
  have "List.find (\<lambda>v. cstr (username v) = ''ann'') [demo_user 1001 ROLE_CUSTOMER ''ann'',
    demo_user 1002 ROLE_CUSTOMER ''bob'', demo_user 1003 ROLE_EMPLOYEE ''eve''] =
    Some (demo_user 1001 ROLE_CUSTOMER ''ann'')" by simp
  from login_user_ok_iff [OF db this, of demo_env "''pw''" 1001 "''customer''"] demo_verify active
  show "\<exists>nm. login_user demo_env ''ann'' ''pw'' s = Login_ok 1001 ''customer'' nm"
    by (simp add: admits_def)
  have "List.find (\<lambda>v. cstr (username v) = ''bob'') [demo_user 1001 ROLE_CUSTOMER ''ann'',
    demo_user 1002 ROLE_CUSTOMER ''bob'', demo_user 1003 ROLE_EMPLOYEE ''eve''] =
    Some (demo_user 1002 ROLE_CUSTOMER ''bob'')" by simp
  from login_user_ok_iff [OF db this, of demo_env "''pw''" 1002 "''customer''"] demo_verify active
  show "\<exists>nm. login_user demo_env ''bob'' ''pw'' s = Login_ok 1002 ''customer'' nm"
    by (simp add: admits_def)
qed

lemma scan_logins:
  "sscanf [Cs MAX_USERNAME_LEN, Cs MAX_PASSWORD_LEN] ''ann pw'' = Inr [As ''ann'', As ''pw'']"
  "sscanf [Cs MAX_USERNAME_LEN, Cs MAX_PASSWORD_LEN] ''bob pw'' = Inr [As ''bob'', As ''pw'']"
  by (simp_all add: scan_eval size_defs)

definition demo_server :: "sessions \<Rightarrow> srv" where
  "demo_server ss = \<lparr>srv_store = demo_store, srv_tick = 0, active_sessions = ss\<rparr>"

lemma demo_login_step:
  assumes "pl = ''ann pw'' \<and> k = 1001 \<or> pl = ''bob pw'' \<and> k = 1002" "k \<notin> set ss" "0 \<in> set ss"
  shows "\<exists>r. handle_request demo_env ''LOGIN'' pl c (demo_server ss) =
    Inr (r, k, demo_server (replace_first 0 k ss))"
proof -
  have d: "disk (start_st (demo_server ss)) = demo_store" by (simp add: demo_server_def)
  from assms(1) obtain nm where "sscanf [Cs MAX_USERNAME_LEN, Cs MAX_PASSWORD_LEN] pl = Inr [As (take 3 pl), As ''pw'']"
    "login_user demo_env (take 3 pl) ''pw'' (start_st (demo_server ss)) = Login_ok k ''customer'' nm"
    using demo_login [OF d] scan_logins by auto
  then show ?thesis
    using assms(2,3)
    by (simp add: handle_request_def handle_login_def arg_s_def open_session_def Let_def
        demo_server_def del: sscanf.simps)
qed

definition slot_table :: "uid list \<Rightarrow> sessions" where
  "slot_table ks = ks @ replicate (MAX_CLIENTS - length ks) 0"

lemma slot_table_step:
  assumes "0 \<notin> set ks" "length ks < MAX_CLIENTS"
  shows "0 \<in> set (slot_table ks)" "replace_first 0 k (slot_table ks) = slot_table (ks @ [k])"
proof -
  obtain n where n: "MAX_CLIENTS - length ks = Suc n" using assms(2) by (metis Suc_diff_Suc)
  then have t: "slot_table ks = ks @ 0 # replicate n 0" by (simp add: slot_table_def)
  have "scan_offset (\<lambda>x. x = 0) (ks @ 0 # replicate n 0) = Some (length ks)"
    by (rule scan_offset_eqI) (use assms(1) in \<open>auto simp: nth_append dest: nth_mem\<close>)
  moreover have "MAX_CLIENTS - Suc (length ks) = n" using n by simp
  ultimately show "replace_first 0 k (slot_table ks) = slot_table (ks @ [k])"
    unfolding t by (simp add: replace_first_def slot_table_def)
  show "0 \<in> set (slot_table ks)" unfolding t by simp
qed

end
