(* ===== verification/Requests.thy ===== *)
theory Requests
  imports Fixtures
begin

text \<open>
  Properties of single requests: the size of the replies, who may send what, and what the
  views and the batch review answer.
\<close>

lemma scan_modify: "sscanf [Cu, Cd, Cs MAX_FNAME_LEN, Cs MAX_LNAME_LEN, Cs MAX_ADDR_LEN, Cs MAX_EMAIL_LEN,
    Cs MAX_PHONE_LEN] ''1001 30 Ann Lee Rd a@b.c 5550001111'' =
    Inr [Au 1001, Ad 30, As ''Ann'', As ''Lee'', As ''Rd'', As ''a@b.c'', As ''5550001111'']"
  by (simp add: scan_eval size_defs)

text \<open>
  C24: No reply overflows the message buffer: whatever the files, the environment and the
  request, a request that is answered at all is answered by a string that fits, with its
  NUL, into the \<open>MAX_MSG_LEN\<close> bytes of \<open>resp.message\<close>.
\<close>

theorem replies_fit:
  assumes "handle_request e op payload cur v = Inr (r, cur', v')"
  shows "length (resp_message r) < MAX_MSG_LEN"
  using assms by (rule handle_request_short)

theorem replies_fit_witness:
  "length (resp_msg (snd (deposit_money demo_env 1005 (dbl 250) (start_st (demo_server []))))) < MAX_MSG_LEN"
  using replies_fit [OF deposit_handled, of "demo_server []"] by simp

text \<open>
  C30: The server checks no role and no login: any request but \<open>LOGIN\<close> and \<open>LOGOUT\<close> has,
  on a connection of any user, exactly the outcome it has on a connection where nobody is
  logged in.
\<close>

theorem requests_need_no_login:
  assumes "op \<noteq> ''LOGIN''" "op \<noteq> ''LOGOUT''"
  shows "handle_request e op payload cur v = Inr (r, cur, v') \<longleftrightarrow>
    handle_request e op payload 0 v = Inr (r, 0, v')"
  using assms by (rule handle_request_any_user)

theorem requests_need_no_login_witness:
  "handle_request demo_env ''DEPOSIT'' ''1005 250'' 77 (demo_server []) =
    Inr (\<lparr>status_code = 0, resp_message =
        resp_msg (snd (deposit_money demo_env 1005 (dbl 250) (start_st (demo_server []))))\<rparr>, 77,
      (demo_server [])\<lparr>
        srv_store := disk (snd (deposit_money demo_env 1005 (dbl 250) (start_st (demo_server [])))),
        srv_tick := tick (snd (deposit_money demo_env 1005 (dbl 250) (start_st (demo_server []))))\<rparr>)"
proof -
  have "''DEPOSIT'' \<noteq> ''LOGIN''" "''DEPOSIT'' \<noteq> ''LOGOUT''" by simp_all
  from requests_need_no_login [OF this] deposit_handled show ?thesis by blast
qed

text \<open>
  A login into a full session table is answered with \<open>SUCCESS\<close> although no session was
  opened: the table and the user of the connection stay as they were.
\<close>

theorem full_table_login_succeeds:
  assumes "sscanf [Cs MAX_USERNAME_LEN, Cs MAX_PASSWORD_LEN] payload = Inr as"
    "login_user e (arg_s e as 0 ''username'') (arg_s e as 1 ''password'') (start_st v) = Login_ok k role nm"
    "0 \<notin> set (active_sessions v)" "k \<notin> set (active_sessions v)"
  shows "\<exists>r. handle_request e ''LOGIN'' payload cur v = Inr (r, cur, v) \<and>
    take 8 (resp_message r) = ''SUCCESS ''"
  using assms by (rule full_table_login)

theorem full_table_login_succeeds_witness:
  "\<exists>r. handle_request demo_env ''LOGIN'' ''ann pw'' 0 (demo_server (replicate MAX_CLIENTS 7)) =
      Inr (r, 0, demo_server (replicate MAX_CLIENTS 7)) \<and> take 8 (resp_message r) = ''SUCCESS ''"
proof -
  let ?v = "demo_server (replicate MAX_CLIENTS 7)"
  have d: "disk (start_st ?v) = demo_store" by (simp add: demo_server_def)
  from demo_login(1) [OF d] obtain nm where
    nm: "login_user demo_env (arg_s demo_env [As ''ann'', As ''pw''] 0 ''username'')
      (arg_s demo_env [As ''ann'', As ''pw''] 1 ''password'') (start_st ?v) =
      Login_ok 1001 ''customer'' nm" by (auto simp: arg_s_def)
  show ?thesis
    by (rule full_table_login_succeeds [OF scan_logins(1) nm]) (simp_all add: demo_server_def size_defs)
qed

text \<open>
  \<open>check_uniqueness\<close> accepts contact data exactly when no other user has that user
  name, e-mail or phone, and changes neither the files nor, when it accepts, the reply.
\<close>

theorem uniqueness_checked:
  assumes "check_uniqueness un em ph k s = (ok, s')"
  shows "(ok \<longleftrightarrow> (\<forall>v\<in>set (users (disk s)). u_user_id v \<noteq> k \<longrightarrow>
      cstr (username v) \<noteq> un \<and> cstr (email v) \<noteq> em \<and> cstr (phone v) \<noteq> ph)) \<and>
    disk s' = disk s \<and> (ok \<longrightarrow> s' = s)"
  using check_uniquenessD [OF assms] by blast

theorem uniqueness_checked_witness:
  "fst (check_uniqueness ''zoe'' ''zoe'' ''zoe'' 0 demo_st) \<and>
   \<not> fst (check_uniqueness ''zoe'' ''ann'' ''zoe'' 0 demo_st)"
proof
  obtain ok s' where c: "check_uniqueness ''zoe'' ''zoe'' ''zoe'' 0 demo_st = (ok, s')" by fastforce
  from uniqueness_checked [OF this] c show "fst (check_uniqueness ''zoe'' ''zoe'' ''zoe'' 0 demo_st)"
    by (simp add: demo_user_def cstr_init_array size_defs)
next
  obtain ok s' where c: "check_uniqueness ''zoe'' ''ann'' ''zoe'' 0 demo_st = (ok, s')" by fastforce
  from uniqueness_checked [OF this] c show "\<not> fst (check_uniqueness ''zoe'' ''ann'' ''zoe'' 0 demo_st)"
    by (simp add: demo_user_def cstr_init_array size_defs)
qed

text \<open>
  C28: The transaction history is the caller's part of the audit log, newest entry first,
  cut to the message buffer: one line per logged movement of that user, and a remark when
  there is none.
\<close>

theorem history_lists_own_movements:
  assumes "txns_db (disk s) = Some ts"
  shows "view_transaction_history e k s = (True, s\<lparr>resp_msg :=
    snprintf MAX_MSG_LEN (if \<exists>tx\<in>set ts. txn_kind k tx \<noteq> None
      then history_header @ concat (List.map_filter (\<lambda>tx. map_option (txn_line e tx) (txn_kind k tx)) (rev ts))
      else ''No transaction history found for your ID.'')\<rparr>)"
  using assms by (rule transaction_history_reply)

theorem history_lists_own_movements_witness:
  "resp_msg (snd (view_transaction_history demo_env 1001 demo_st)) = ''No transaction history found for your ID.''"
  using history_lists_own_movements [of demo_st "[]" demo_env 1001]
  by (simp add: demo_store_def snprintf_def size_defs)

text \<open>
  The batch review marks every feedback as reviewed and touches nothing else of it; a
  second review right after finds nothing to do, whatever the environment, as long as its
  writes do not fail.
\<close>

theorem review_is_idempotent:
  assumes "io_ok e" "review_feedbacks e s = (ok, s1)" "feedback_db (disk s) = Some fs"
    "io_ok e'" "review_feedbacks e' s1 = (ok', s2)"
  shows "feedbacks (disk s1) = map mark_reviewed fs \<and> feedbacks (disk s2) = feedbacks (disk s1) \<and>
    resp_msg s2 = ''No new feedback found to review.''"
  using assms by (rule review_feedbacks_again)

theorem review_is_idempotent_witness:
  "\<exists>s1. feedbacks (disk s1) = [demo_feedback\<lparr>reviewed := 1\<rparr>] \<and>
    resp_msg (snd (review_feedbacks demo_env s1)) = ''No new feedback found to review.''"
proof -
  obtain ok s1 where r1: "review_feedbacks demo_env demo_st = (ok, s1)" by fastforce
  obtain ok' s2 where r2: "review_feedbacks demo_env s1 = (ok', s2)" by fastforce
  have f: "feedback_db (disk demo_st) = Some [demo_feedback]" by (simp add: demo_store_def)
  from review_is_idempotent [OF demo_env_ok(1) r1 f demo_env_ok(1) r2] r2 show ?thesis
    by (intro exI [of _ s1]) (simp add: mark_reviewed_def demo_feedback_def)
qed

end
