(* ===== verification/ClientInput.thy ===== *)
theory ClientInput
  imports Scanf "HOL-Library.Monad_Syntax"
begin

text \<open>
  The input side of \<^verbatim>\<open>src/client.c\<close>: \<^verbatim>\<open>fgets\<close>, \<^verbatim>\<open>scanf\<close>, \<^verbatim>\<open>strtod\<close> and \<^verbatim>\<open>atoi\<close> on the
  terminal, the validators and the two prompts that loop until their input is accepted.
  The terminal is the bytes still to be read, the text printed, and the peer at the other
  end of the socket, whose type is left open. A prompt that never gets an acceptable answer
  does not return: its value is \<open>None\<close>.
\<close>

record 'w tty =
  stdin_bytes :: string
  stdout_text :: string
  peer :: 'w

definition printf :: "string \<Rightarrow> 'w tty \<Rightarrow> 'w tty" where
  "printf m t = t\<lparr>stdout_text := stdout_text t @ m\<rparr>"

abbreviation LF :: char where "LF \<equiv> CHR 0x0A"

section \<open>The C library\<close>

fun fgets_line :: "nat \<Rightarrow> string \<Rightarrow> string \<times> string" where
  \<comment> \<open>at most \<open>n\<close> bytes, up to and including a newline, and the rest\<close>
  "fgets_line 0 s = ([], s)"
| "fgets_line (Suc n) [] = ([], [])"
| "fgets_line (Suc n) (c # s) =
     (if c = LF then ([c], s) else (case fgets_line n s of (l, r) \<Rightarrow> (c # l, r)))"

definition fgets :: "carray \<Rightarrow> nat \<Rightarrow> string \<Rightarrow> carray \<times> string" where
  \<comment> \<open>at the end of the input the buffer stays as it is\<close>
  "fgets buffer sz input =
     (if input = [] then (buffer, [])
      else (case fgets_line (sz - 1) input of
              (l, r) \<Rightarrow> (l @ NUL # drop (Suc (length l)) buffer, r)))"

definition strcspn_LF :: "carray \<Rightarrow> nat" where
  "strcspn_LF buffer = length (takeWhile (\<lambda>c. c \<noteq> LF \<and> c \<noteq> NUL) buffer)"

definition chomp :: "carray \<Rightarrow> carray" where
  \<comment> \<open>\<open>buffer[strcspn(buffer, "\n")] = 0\<close>\<close>
  "chomp buffer = buffer[strcspn_LF buffer := NUL]"

definition clear_stdin :: "'w tty \<Rightarrow> 'w tty" where
  "clear_stdin t = t\<lparr>stdin_bytes := drop 1 (dropWhile (\<lambda>c. c \<noteq> LF) (stdin_bytes t))\<rparr>"

definition scanf_d :: "'w tty \<Rightarrow> int option \<times> 'w tty" where
  \<comment> \<open>\<open>scanf("%d", &v)\<close>: a failed conversion has consumed the white space and the sign\<close>
  "scanf_d t =
     (case scan_d (stdin_bytes t) of
        Some (v, r) \<Rightarrow> (Some v, t\<lparr>stdin_bytes := r\<rparr>)
      | None \<Rightarrow> (None, t\<lparr>stdin_bytes := snd (scan_sign (skip_ws (stdin_bytes t)))\<rparr>))"

definition scanf_llu :: "'w tty \<Rightarrow> 64 word option \<times> 'w tty" where
  "scanf_llu t =
     (case scan_llu (stdin_bytes t) of
        Some (v, r) \<Rightarrow> (Some v, t\<lparr>stdin_bytes := r\<rparr>)
      | None \<Rightarrow> (None, t\<lparr>stdin_bytes := snd (scan_sign (skip_ws (stdin_bytes t)))\<rparr>))"

definition assigned :: "'a \<Rightarrow> 'a option \<times> 'b \<Rightarrow> 'a \<times> 'b" where
  \<comment> \<open>a variable that holds \<open>v\<close>, after a \<open>scanf\<close> whose result nobody looks at\<close>
  "assigned v r = (case fst r of Some x \<Rightarrow> x | None \<Rightarrow> v, snd r)"

definition atoi :: "string \<Rightarrow> 32 word" where
  \<comment> \<open>\<open>(int) strtol(s, NULL, 10)\<close>\<close>
  "atoi s = (case scan_d s of Some (v, r) \<Rightarrow> word_of_int v | None \<Rightarrow> 0)"

definition strtod_exponent :: "char \<Rightarrow> string \<Rightarrow> int \<times> string" where
  \<comment> \<open>unlike \<open>scanf\<close>, a mark without digits is not consumed\<close>
  "strtod_exponent mark s = (case s of
       [] \<Rightarrow> (0, s)
     | c # r \<Rightarrow>
         if to_lower c = mark then
           (case scan_sign r of (neg, r1) \<Rightarrow>
              let ds = takeWhile (is_digit_in 10) r1; n = int (num_val 10 ds)
              in if ds = [] then (0, s)
                 else (if neg then - n else n, dropWhile (is_digit_in 10) r1))
         else (0, s))"

definition nan_tail :: "string \<Rightarrow> string" where
  \<comment> \<open>the rest after \<open>nan\<close> and an optional \<open>(chars)\<close>\<close>
  "nan_tail s = (case s of
       [] \<Rightarrow> s
     | c # r \<Rightarrow>
         if c = CHR 0x28 then
           (case dropWhile (\<lambda>d. is_digit_in 10 d \<or> d = CHR ''_'' \<or> to_lower d \<in> set ''abcdefghijklmnopqrstuvwxyz'') r of
              d # q \<Rightarrow> if d = CHR 0x29 then q else s
            | [] \<Rightarrow> s)
         else s)"

definition strtod_magnitude :: "string \<Rightarrow> (double \<times> string) option" where
  "strtod_magnitude s =
     (let low = map to_lower (take 8 s) in
      if take 3 low = ''nan'' then Some (NaN, nan_tail (drop 3 s))
      else if low = ''infinity'' then Some (PInf, drop 8 s)
      else if take 3 low = ''inf'' then Some (PInf, drop 3 s)
      else
        (case scan_mantissa 16 (drop 2 s) of ((hs, j), q) \<Rightarrow>
           if take 2 low = ''0x'' \<and> hs \<noteq> [] then
             (case strtod_exponent CHR ''p'' q of (x, r1) \<Rightarrow>
                Some (dbl_scaled 2 (num_val 16 hs) (x - 4 * int j), r1))
           else
             (case scan_mantissa 10 s of ((ds, k), r) \<Rightarrow>
                if ds = [] then None
                else (case strtod_exponent CHR ''e'' r of (x, r1) \<Rightarrow>
                        Some (dbl_scaled 10 (num_val 10 ds) (x - int k), r1)))))"

definition strtod :: "string \<Rightarrow> (double \<times> string) option" where
  \<comment> \<open>the value and \<open>*endptr\<close>; \<open>None\<close> when \<open>endptr == buffer\<close>\<close>
  "strtod s =
     (case scan_sign (skip_ws s) of (neg, r) \<Rightarrow>
        map_option (\<lambda>(d, r1). (if neg then dneg d else d, r1)) (strtod_magnitude r))"

section \<open>Validators\<close>

text \<open>A validator returns the text of its complaint, or \<open>None\<close> when it accepts.\<close>

definition validate_not_empty :: "string \<Rightarrow> string option" where
  "validate_not_empty input = (if input = [] then Some ''Input cannot be empty'' else None)"

definition validate_name_part :: "string \<Rightarrow> string option" where
  "validate_name_part input =
     (case validate_not_empty input of
        Some m \<Rightarrow> Some m
      | None \<Rightarrow>
          if MAX_FNAME_LEN \<le> length input then
            Some (''Input too long (max '' @ digits_of (MAX_FNAME_LEN - 1) @ '')'')
          else if CHR '' '' \<in> set input then Some ''Input cannot contain spaces''
          else None)"

definition validate_address :: "string \<Rightarrow> string option" where
  "validate_address input =
     (case validate_not_empty input of
        Some m \<Rightarrow> Some m
      | None \<Rightarrow>
          if MAX_ADDR_LEN \<le> length input then
            Some (''Input too long (max '' @ digits_of (MAX_ADDR_LEN - 1) @ '')'')
          else if CHR '' '' \<in> set input then
            Some (''Input cannot contain spaces (use '' @ [CHR 0x27, CHR ''_'', CHR 0x27] @ '' if needed)'')
          else None)"

definition validate_email :: "string \<Rightarrow> string option" where
  "validate_email input =
     (case validate_not_empty input of
        Some m \<Rightarrow> Some m
      | None \<Rightarrow>
          if MAX_EMAIL_LEN \<le> length input then
            Some (''Email too long (max '' @ digits_of (MAX_EMAIL_LEN - 1) @ '')'')
          else if CHR ''@'' \<notin> set input \<or> CHR ''.'' \<notin> set input then
            Some (''Invalid email format (must contain '' @ [CHR 0x27, CHR ''@'', CHR 0x27] @ '' and '' @
              [CHR 0x27, CHR ''.'', CHR 0x27] @ '')'')
          else None)"

definition validate_phone :: "string \<Rightarrow> string option" where
  "validate_phone input =
     (case validate_not_empty input of
        Some m \<Rightarrow> Some m
      | None \<Rightarrow>
          if length input \<noteq> 10 then Some ''Phone must be exactly 10 digits''
          else if list_all (is_digit_in 10) input then None
          else Some ''Phone must contain only digits'')"

definition validate_credential :: "string \<Rightarrow> string option" where
  "validate_credential input =
     (case validate_not_empty input of
        Some m \<Rightarrow> Some m
      | None \<Rightarrow>
          if MAX_USERNAME_LEN \<le> length input then Some ''Input too long''
          else if CHR '' '' \<in> set input then Some ''Input cannot contain spaces''
          else None)"

section \<open>Prompts\<close>

partial_function (option) read_validated_string ::
  "string \<Rightarrow> carray \<Rightarrow> nat \<Rightarrow> (string \<Rightarrow> string option) \<Rightarrow> 'w tty \<Rightarrow> (carray \<times> 'w tty) option" where
  "read_validated_string prompt buffer sz validator t =
     (case fgets buffer sz (stdin_bytes t) of
        (b, r) \<Rightarrow>
          (case validator (cstr (chomp b)) of
             None \<Rightarrow> Some (chomp b, (printf (prompt @ '': '') t)\<lparr>stdin_bytes := r\<rparr>)
           | Some m \<Rightarrow> read_validated_string prompt (chomp b) sz validator
               (printf (''Error: '' @ snprintf 128 m @ ''. Please try again.'' @ [LF])
                  ((printf (prompt @ '': '') t)\<lparr>stdin_bytes := r\<rparr>))))"

definition amount_typed :: "string \<Rightarrow> string + double" where
  \<comment> \<open>the checks of one round of \<open>read_valid_double\<close>: the complaint or the value\<close>
  "amount_typed s =
     (if s = [] then Inl ''Error: Input cannot be empty. Please try again.''
      else (case strtod s of
              None \<Rightarrow> Inl ''Error: Invalid number. Please enter digits only (e.g., 100.50).''
            | Some (v, r) \<Rightarrow>
                if r \<noteq> [] then Inl ''Error: Invalid number. Please enter digits only (e.g., 100.50).''
                else if dle v dzero then Inl ''Error: Amount must be positive. Please try again.''
                else Inr v))"

partial_function (option) read_valid_double ::
  "string \<Rightarrow> carray \<Rightarrow> 'w tty \<Rightarrow> (double \<times> 'w tty) option" where
  "read_valid_double prompt buffer t =
     (case fgets buffer 128 (stdin_bytes t) of
        (b, r) \<Rightarrow>
          (case amount_typed (cstr (chomp b)) of
             Inr v \<Rightarrow> Some (v, (printf (prompt @ '': '') t)\<lparr>stdin_bytes := r\<rparr>)
           | Inl m \<Rightarrow> read_valid_double prompt (chomp b)
               (printf (m @ [LF]) ((printf (prompt @ '': '') t)\<lparr>stdin_bytes := r\<rparr>))))"

end
