(* ===== verification/Client.thy ===== *)
theory Client
  imports ClientInput Server
begin

text \<open>
  \<^verbatim>\<open>src/client.c\<close>: the exchange with the server, the four menus with the requests they
  build, and the login loop of \<open>main\<close>. The peer is an argument \<open>net\<close> of everything that
  talks to it: it takes a request and says how the exchange ended.
\<close>

datatype exchange = Write_failed | Read_failed | Replied response

type_synonym 'w net = "request_t \<Rightarrow> 'w \<Rightarrow> exchange \<times> 'w"

definition mk_request :: "string \<Rightarrow> string \<Rightarrow> request_t" where
  \<comment> \<open>\<open>memset(&req, 0, ..); strcpy(req.op, op); snprintf(req.payload, sizeof(req.payload), ..)\<close>\<close>
  "mk_request op payload =
     \<lparr>req_op = init_array 64 op, req_payload = init_array MAX_MSG_LEN (snprintf MAX_MSG_LEN payload)\<rparr>"

definition send_request_and_get_response ::
  "'w net \<Rightarrow> request_t \<Rightarrow> 'w tty \<Rightarrow> response \<times> 'w tty" where
  "send_request_and_get_response net req t =
     (case net req (peer t) of (x, w) \<Rightarrow>
        (case x of
           Write_failed \<Rightarrow>
             \<lparr>status_code = -1, resp_message = ''Connection to server lost (write).''\<rparr>
         | Read_failed \<Rightarrow> \<lparr>status_code = -1, resp_message = ''Connection to server lost (read).''\<rparr>
         | Replied r \<Rightarrow> r, t\<lparr>peer := w\<rparr>))"

abbreviation SQ :: string where "SQ \<equiv> [CHR 0x27]"

definition line :: "string \<Rightarrow> string" where "line s = s @ [LF]"

definition show_response :: "response \<Rightarrow> 'w tty \<Rightarrow> 'w tty" where
  "show_response r t = printf (line ([LF] @ ''--- Server Response ---'') @ line (resp_message r) @
     line ''-----------------------'') t"

section \<open>Prompts for one field\<close>

definition ask ::
  "env \<Rightarrow> string \<Rightarrow> string \<Rightarrow> nat \<Rightarrow> (string \<Rightarrow> string option) \<Rightarrow> 'w tty \<Rightarrow> (string \<times> 'w tty) option" where
  \<comment> \<open>\<open>read_validated_string\<close> into the local array \<open>v\<close>\<close>
  "ask e v prompt sz validator t =
     do { (b, t1) \<leftarrow> read_validated_string prompt (stk_arr e v) sz validator t; Some (cstr b, t1) }"

definition ask_amount :: "env \<Rightarrow> string \<Rightarrow> 'w tty \<Rightarrow> (double \<times> 'w tty) option" where
  "ask_amount e prompt t = read_valid_double prompt (stk_arr e ''buffer'') t"

definition ask_int :: "env \<Rightarrow> string \<Rightarrow> string \<Rightarrow> 'w tty \<Rightarrow> int \<times> 'w tty" where
  \<comment> \<open>\<open>printf(prompt); scanf("%d", &v);\<close>\<close>
  "ask_int e v prompt t = assigned (sint (stk_u32 e v)) (scanf_d (printf prompt t))"

definition account_number :: "carray \<Rightarrow> 32 word" where
  \<comment> \<open>an account number with or without its prefix\<close>
  "account_number acct_str =
     (if take 1 (cstr acct_str) = ''A'' \<or> take 1 (cstr acct_str) = ''a''
      then atoi (cstr (drop 2 acct_str)) else atoi (cstr acct_str))"

definition ask_account :: "env \<Rightarrow> string \<Rightarrow> 'w tty \<Rightarrow> (32 word \<times> 'w tty) option" where
  "ask_account e prompt t =
     do { (b, t1) \<leftarrow> read_validated_string prompt (stk_arr e ''acct_str'') 32 validate_not_empty t;
          Some (account_number b, t1) }"

text \<open>The fields that several menus ask for, under the names of their local arrays.\<close>

definition ask_fname :: "env \<Rightarrow> string \<Rightarrow> 'w tty \<Rightarrow> (string \<times> 'w tty) option" where
  "ask_fname e prompt t = ask e ''fname'' prompt MAX_FNAME_LEN validate_name_part t"

definition ask_lname :: "env \<Rightarrow> string \<Rightarrow> 'w tty \<Rightarrow> (string \<times> 'w tty) option" where
  "ask_lname e prompt t = ask e ''lname'' prompt MAX_LNAME_LEN validate_name_part t"

definition ask_address :: "env \<Rightarrow> string \<Rightarrow> 'w tty \<Rightarrow> (string \<times> 'w tty) option" where
  "ask_address e prompt t = ask e ''address'' prompt MAX_ADDR_LEN validate_address t"

definition ask_email :: "env \<Rightarrow> string \<Rightarrow> 'w tty \<Rightarrow> (string \<times> 'w tty) option" where
  "ask_email e prompt t = ask e ''email'' prompt MAX_EMAIL_LEN validate_email t"

definition ask_phone :: "env \<Rightarrow> string \<Rightarrow> 'w tty \<Rightarrow> (string \<times> 'w tty) option" where
  "ask_phone e prompt t = ask e ''phone'' prompt MAX_PHONE_LEN validate_phone t"

definition ask_username :: "env \<Rightarrow> string \<Rightarrow> 'w tty \<Rightarrow> (string \<times> 'w tty) option" where
  "ask_username e prompt t = ask e ''username'' prompt MAX_USERNAME_LEN validate_credential t"

definition ask_password :: "env \<Rightarrow> string \<Rightarrow> 'w tty \<Rightarrow> (string \<times> 'w tty) option" where
  "ask_password e prompt t = ask e ''password'' prompt MAX_PASSWORD_LEN validate_credential t"

definition ask_role :: "env \<Rightarrow> string \<Rightarrow> 'w tty \<Rightarrow> (string \<times> 'w tty) option" where
  "ask_role e prompt t = ask e ''role'' prompt MAX_ROLE_STR validate_credential t"

definition ask_age :: "env \<Rightarrow> string \<Rightarrow> 'w tty \<Rightarrow> int \<times> 'w tty" where
  \<comment> \<open>followed by \<open>clear_stdin()\<close>\<close>
  "ask_age e prompt t = apsnd clear_stdin (ask_int e ''age'' prompt t)"

section \<open>The menus\<close>

text \<open>What a choice leads to: a request is sent, or the loop starts again.\<close>

datatype action = Send request_t | Again

definition change_password_action :: "env \<Rightarrow> uid \<Rightarrow> 'w tty \<Rightarrow> (action \<times> 'w tty) option" where
  "change_password_action e userId t =
     do { (newpass, t1) \<leftarrow> ask e ''newpass'' ''Enter new password (no spaces)'' MAX_PASSWORD_LEN
            validate_credential t;
          Some (Send (mk_request ''CHANGE_PASSWORD'' (fmt_u userId @ '' '' @ newpass)), t1) }"

definition invalid_choice :: "'w tty \<Rightarrow> (action \<times> 'w tty) option" where
  "invalid_choice t = Some (Again, printf (line ''Invalid choice!'') t)"

definition customer_choice :: "env \<Rightarrow> uid \<Rightarrow> int \<Rightarrow> 'w tty \<Rightarrow> (action \<times> 'w tty) option" where
  "customer_choice e userId choice t =
     (if choice = 1 then Some (Send (mk_request ''VIEW_BALANCE'' (fmt_d (sint userId))), t)
      else if choice = 2 then
        do { (amount, t1) \<leftarrow> ask_amount e ''Enter deposit amount'' t;
             Some (Send (mk_request ''DEPOSIT'' (fmt_u userId @ '' '' @ fmt_f 6 amount)), t1) }
      else if choice = 3 then
        do { (amount, t1) \<leftarrow> ask_amount e ''Enter withdrawal amount'' t;
             Some (Send (mk_request ''WITHDRAW'' (fmt_u userId @ '' '' @ fmt_f 6 amount)), t1) }
      else if choice = 4 then
        do { (toId, t1) \<leftarrow> ask_account e [] (printf ''Enter recipient Account No (e.g., AC1005): '' t);
             (amount, t2) \<leftarrow> ask_amount e ''Enter amount'' t1;
             Some (Send (mk_request ''TRANSFER''
               (fmt_u userId @ '' '' @ fmt_u toId @ '' '' @ fmt_f 6 amount)), t2) }
      else if choice = 5 then
        do { (loanAmount, t1) \<leftarrow> ask_amount e ''Enter loan amount'' t;
             Some (Send (mk_request ''APPLY_LOAN'' (fmt_u userId @ '' '' @ fmt_f 6 loanAmount)), t1) }
      else if choice = 6 then Some (Send (mk_request ''VIEW_LOAN'' (fmt_u userId)), t)
      else if choice = 7 then
        do { (feedback, t1) \<leftarrow> ask e ''feedback'' ''Enter feedback (max 512 chars)'' 512 validate_not_empty t;
             Some (Send (mk_request ''ADD_FEEDBACK'' (fmt_u userId @ '' '' @ feedback)), t1) }
      else if choice = 8 then Some (Send (mk_request ''VIEW_FEEDBACK'' (fmt_u userId)), t)
      else if choice = 9 then Some (Send (mk_request ''VIEW_TRANSACTIONS'' (fmt_u userId)), t)
      else if choice = 10 then Some (Send (mk_request ''VIEW_DETAILS'' (fmt_u userId)), t)
      else if choice = 11 then change_password_action e userId t
      else if choice = 12 then Some (Send (mk_request ''LOGOUT'' []), t)
      else invalid_choice t)"

definition add_customer_payload ::
  "string \<Rightarrow> string \<Rightarrow> int \<Rightarrow> string \<Rightarrow> string \<Rightarrow> string \<Rightarrow> string \<Rightarrow> string \<Rightarrow> string" where
  "add_customer_payload fname lname ag ad em ph un pw =
     fname @ '' '' @ lname @ '' '' @ fmt_d ag @ '' '' @ ad @ '' '' @ em @ '' '' @ ph @ '' '' @ un @ '' '' @ pw"

definition modify_payload ::
  "uid \<Rightarrow> int \<Rightarrow> string \<Rightarrow> string \<Rightarrow> string \<Rightarrow> string \<Rightarrow> string \<Rightarrow> string" where
  "modify_payload k ag fname lname ad em ph =
     fmt_u k @ '' '' @ fmt_d ag @ '' '' @ fname @ '' '' @ lname @ '' '' @ ad @ '' '' @ em @ '' '' @ ph"

definition add_customer_action :: "env \<Rightarrow> 'w tty \<Rightarrow> (action \<times> 'w tty) option" where
  "add_customer_action e t =
     do { (fname, t1) \<leftarrow> ask_fname e ''Enter first name (no spaces)'' t;
          (lname, t2) \<leftarrow> ask_lname e ''Enter last name (no spaces)'' t1;
          (ag, t3) \<leftarrow> Some (ask_age e ''Enter age: '' t2);
          (ad, t4) \<leftarrow> ask_address e (''Enter address (no spaces, use '' @ SQ @ ''_'' @ SQ @ '')'') t3;
          (em, t5) \<leftarrow> ask_email e ''Enter email'' t4;
          (ph, t6) \<leftarrow> ask_phone e ''Enter phone (10 digits)'' t5;
          (un, t7) \<leftarrow> ask_username e ''Enter desired username (no spaces)'' t6;
          (pw, t8) \<leftarrow> ask_password e ''Enter desired password (no spaces)'' t7;
          Some (Send (mk_request ''ADD_CUSTOMER'' (add_customer_payload fname lname ag ad em ph un pw)), t8) }"

definition modify_details ::
  "env \<Rightarrow> string \<Rightarrow> 32 word \<Rightarrow> 'w tty \<Rightarrow> (action \<times> 'w tty) option" where
  \<comment> \<open>the common part of both \<open>case 2\<close>: the new details of user \<open>k\<close>\<close>
  "modify_details e op k t =
     do { (fname, t1) \<leftarrow> ask_fname e ''Enter new first name (no spaces)'' t;
          (lname, t2) \<leftarrow> ask_lname e ''Enter new last name (no spaces)'' t1;
          (ag, t3) \<leftarrow> Some (ask_age e ''Enter new age: '' t2);
          (ad, t4) \<leftarrow> ask_address e (''Enter new address (no spaces, use '' @ SQ @ ''_'' @ SQ @ '')'') t3;
          (em, t5) \<leftarrow> ask_email e ''Enter new email'' t4;
          (ph, t6) \<leftarrow> ask_phone e ''Enter new phone (10 digits)'' t5;
          Some (Send (mk_request op (modify_payload k ag fname lname ad em ph)), t6) }"

definition decide_loan_action :: "env \<Rightarrow> uid \<Rightarrow> 'w tty \<Rightarrow> (action \<times> 'w tty) option" where
  "decide_loan_action e userId t =
     (let (loanId, t1) = assigned (stk_u64 e ''loanId'') (scanf_llu (printf ''Enter loan ID: '' t));
          (action_code, t2) = ask_int e ''action_code'' ''Approve (1) / Reject (0): '' t1;
          t3 = clear_stdin t2
      in if action_code = 1 then
           Some (Send (mk_request ''APPROVE_REJECT_LOAN''
             (fmt_u loanId @ '' '' @ ''approve'' @ '' '' @ fmt_u userId)), t3)
         else if action_code = 0 then
           Some (Send (mk_request ''APPROVE_REJECT_LOAN''
             (fmt_u loanId @ '' '' @ ''reject'' @ '' '' @ fmt_u userId)), t3)
         else Some (Again, printf (line ''Invalid action code.'') t3))"

definition employee_choice :: "env \<Rightarrow> uid \<Rightarrow> int \<Rightarrow> 'w tty \<Rightarrow> (action \<times> 'w tty) option" where
  "employee_choice e userId choice t =
     (if choice = 1 then add_customer_action e t
      else if choice = 2 then
        do { (custId, t1) \<leftarrow> ask_account e ''Enter customer Account No (e.g., AC1004)'' t;
             modify_details e ''MODIFY_CUSTOMER'' custId t1 }
      else if choice = 3 then Some (Send (mk_request ''PROCESS_LOANS'' []), t)
      else if choice = 4 then decide_loan_action e userId t
      else if choice = 5 then Some (Send (mk_request ''VIEW_ASSIGNED_LOANS'' (fmt_u userId)), t)
      else if choice = 6 then
        do { (custId, t1) \<leftarrow> ask_account e ''Enter customer Account No (e.g., AC1004)'' t;
             Some (Send (mk_request ''VIEW_CUST_TRANSACTIONS'' (fmt_u custId)), t1) }
      else if choice = 7 then change_password_action e userId t
      else if choice = 8 then Some (Send (mk_request ''LOGOUT'' []), t)
      else invalid_choice t)"

definition manager_choice :: "env \<Rightarrow> uid \<Rightarrow> int \<Rightarrow> 'w tty \<Rightarrow> (action \<times> 'w tty) option" where
  "manager_choice e userId choice t =
     (if choice = 1 then
        do { (custId, t1) \<leftarrow> ask_account e ''Enter customer Account No (e.g., AC1004)'' t;
             (status, t2) \<leftarrow> Some (ask_int e ''status'' ''Activate (1) / Deactivate (0): '' t1);
             Some (Send (mk_request ''SET_ACCOUNT_STATUS''
               (fmt_u custId @ '' '' @ fmt_u (word_of_int status :: 32 word))), clear_stdin t2) }
      else if choice = 2 then Some (Send (mk_request ''VIEW_NON_ASSIGNED_LOANS'' []), t)
      else if choice = 3 then
        (let (loanId, t1) = ask_int e ''loanId'' ''Enter loan ID: '' t;
             (empId, t2) = ask_int e ''empId'' ''Enter employee ID: '' t1
         in Some (Send (mk_request ''ASSIGN_LOAN''
              (fmt_u (word_of_int loanId :: 32 word) @ '' '' @ fmt_u (word_of_int empId :: 32 word))),
              clear_stdin t2))
      else if choice = 4 then Some (Send (mk_request ''REVIEW_FEEDBACK'' []), t)
      else if choice = 5 then change_password_action e userId t
      else if choice = 6 then Some (Send (mk_request ''LOGOUT'' []), t)
      else invalid_choice t)"

definition add_employee_payload ::
  "string \<Rightarrow> string \<Rightarrow> int \<Rightarrow> string \<Rightarrow> string \<Rightarrow> string \<Rightarrow> string \<Rightarrow> string \<Rightarrow> string \<Rightarrow> string" where
  "add_employee_payload fname lname ag ad role em ph un pw =
     fname @ '' '' @ lname @ '' '' @ fmt_d ag @ '' '' @ ad @ '' '' @ role @ '' '' @ em @ '' '' @ ph @ '' '' @
     un @ '' '' @ pw"

definition add_employee_action :: "env \<Rightarrow> 'w tty \<Rightarrow> (action \<times> 'w tty) option" where
  \<comment> \<open>\<open>if(strcmp(role, "customer"))\<close> turns away every role but \<open>customer\<close>\<close>
  "add_employee_action e t =
     do { (fname, t1) \<leftarrow> ask_fname e ''Enter first name (no spaces)'' t;
          (lname, t2) \<leftarrow> ask_lname e ''Enter last name (no spaces)'' t1;
          (ag, t3) \<leftarrow> Some (ask_age e ''Enter age: '' t2);
          (ad, t4) \<leftarrow> ask_address e (''Enter address (no spaces, use '' @ SQ @ ''_'' @ SQ @ '')'') t3;
          (role, t5) \<leftarrow> ask_role e ''Enter role (employee/manager)'' t4;
          if role \<noteq> ''customer'' then
            Some (Again, printf (line (''Error: Invalid role for employee. Must be '' @ SQ @ ''employee'' @
              SQ @ '' or '' @ SQ @ ''manager'' @ SQ @ ''.'')) t5)
          else do {
            (em, t6) \<leftarrow> ask_email e ''Enter email'' t5;
            (ph, t7) \<leftarrow> ask_phone e ''Enter phone (10 digits)'' t6;
            (un, t8) \<leftarrow> ask_username e ''Enter desired username (no spaces)'' t7;
            (pw, t9) \<leftarrow> ask_password e ''Enter desired password (no spaces)'' t8;
            Some (Send (mk_request ''ADD_EMPLOYEE''
              (add_employee_payload fname lname ag ad role em ph un pw)), t9) } }"

definition change_role_action :: "env \<Rightarrow> 'w net \<Rightarrow> 'w tty \<Rightarrow> (action \<times> 'w tty) option" where
  "change_role_action e net t =
     (case send_request_and_get_response net (mk_request ''LIST_USERS'' [])
             (printf (line ''Fetching user list...'') t) of
        (resp, t1) \<Rightarrow>
          if status_code resp \<noteq> 0 then Some (Again, show_response resp t1)
          else
            do { (targetId, t2) \<leftarrow> Some (ask_int e ''targetId'' ''Enter user ID to change role: ''
                   (show_response resp t1));
                 (role, t3) \<leftarrow> ask_role e ''Enter new role (employee/manager)'' (clear_stdin t2);
                 Some (Send (mk_request ''CHANGE_ROLE''
                   (fmt_u (word_of_int targetId :: 32 word) @ '' '' @ role)), t3) })"

definition admin_choice :: "env \<Rightarrow> 'w net \<Rightarrow> uid \<Rightarrow> int \<Rightarrow> 'w tty \<Rightarrow> (action \<times> 'w tty) option" where
  "admin_choice e net userId choice t =
     (if choice = 1 then add_employee_action e t
      else if choice = 2 then
        (let (targetId, t1) = ask_int e ''targetId'' ''Enter user ID to modify: '' t
         in modify_details e ''MODIFY_USER'' (word_of_int targetId) (clear_stdin t1))
      else if choice = 3 then change_role_action e net t
      else if choice = 4 then change_password_action e userId t
      else if choice = 5 then Some (Send (mk_request ''LOGOUT'' []), t)
      else invalid_choice t)"

text \<open>The loop that all four menus run: \<open>quit\<close> is the number of their last entry.\<close>

partial_function (option) menu_loop ::
  "'w net \<Rightarrow> string \<Rightarrow> (int \<Rightarrow> 'w tty \<Rightarrow> (action \<times> 'w tty) option) \<Rightarrow> int \<Rightarrow> 'w tty \<Rightarrow> 'w tty option" where
  "menu_loop net text pick quit t =
     (case scanf_d (printf text t) of
        (None, t1) \<Rightarrow> menu_loop net text pick quit
          (printf (line ''Invalid input. Please enter a number.'') (clear_stdin t1))
      | (Some choice, t1) \<Rightarrow>
          do { (act, t2) \<leftarrow> pick choice (clear_stdin t1);
               (case act of
                  Again \<Rightarrow> menu_loop net text pick quit t2
                | Send req \<Rightarrow>
                    (case send_request_and_get_response net req t2 of
                       (resp, t3) \<Rightarrow>
                         if status_code resp = -1 \<or> choice = quit then Some (show_response resp t3)
                         else menu_loop net text pick quit (show_response resp t3))) })"

definition customer_text :: "uid \<Rightarrow> string" where
  "customer_text userId =
     [LF] @ ''--- Customer Menu (Acct No: AC'' @ fmt_d (sint userId) @ line '') ---'' @
     line ''1. View Balance'' @
     line ''2. Deposit Money'' @
     line ''3. Withdraw Money'' @
     line ''4. Transfer Funds'' @
     line ''5. Apply Loan'' @
     line ''6. View Loan Status'' @
     line ''7. Add Feedback'' @
     line ''8. View Feedback Status'' @
     line ''9. View Transaction History'' @
     line ''10. View Personal Details'' @
     line ''11. Change Password'' @
     line ''12. Logout (Back to main menu)'' @ ''Enter choice: ''"

definition employee_text :: "string \<Rightarrow> uid \<Rightarrow> string" where
  "employee_text userName userId =
     [LF] @ ''--- Employee Menu (User: '' @ userName @ '', ID: '' @ fmt_d (sint userId) @ line '') ---'' @
     line ''1. Add New Customer'' @
     line ''2. Modify Customer Details'' @
     line ''3. View Pending Loans'' @
     line ''4. Approve/Reject Loans'' @
     line ''5. View Assigned Loans'' @
     line ''6. View Customer Transactions'' @
     line ''7. Change Password'' @
     line ''8. Logout (Back to main menu)'' @ ''Enter choice: ''"

definition manager_text :: "string \<Rightarrow> uid \<Rightarrow> string" where
  "manager_text userName userId =
     [LF] @ ''--- Manager Menu (User: '' @ userName @ '', ID: '' @ fmt_d (sint userId) @ line '') ---'' @
     line ''1. Activate/Deactivate Customer Account'' @
     line ''2. View Non-Assigned Loans'' @
     line ''3. Assign Loan to Employee'' @
     line ''4. Review Customer Feedback'' @
     line ''5. Change Password'' @
     line ''6. Logout (Back to main menu)'' @ ''Enter choice: ''"

definition admin_text :: "string \<Rightarrow> uid \<Rightarrow> string" where
  "admin_text userName userId =
     [LF] @ ''--- Admin Menu (User: '' @ userName @ '', ID: '' @ fmt_d (sint userId) @ line '') ---'' @
     line ''1. Add New Bank Employee'' @
     line ''2. Modify User Details'' @
     line ''3. Manage User Roles'' @
     line ''4. Change Password'' @
     line ''5. Logout (Back to main menu)'' @ ''Enter choice: ''"

definition customer_menu :: "env \<Rightarrow> 'w net \<Rightarrow> uid \<Rightarrow> 'w tty \<Rightarrow> 'w tty option" where
  "customer_menu e net userId t = menu_loop net (customer_text userId) (customer_choice e userId) 12 t"

definition employee_menu :: "env \<Rightarrow> 'w net \<Rightarrow> uid \<Rightarrow> string \<Rightarrow> 'w tty \<Rightarrow> 'w tty option" where
  "employee_menu e net userId userName t =
     menu_loop net (employee_text userName userId) (employee_choice e userId) 8 t"

definition manager_menu :: "env \<Rightarrow> 'w net \<Rightarrow> uid \<Rightarrow> string \<Rightarrow> 'w tty \<Rightarrow> 'w tty option" where
  "manager_menu e net userId userName t =
     menu_loop net (manager_text userName userId) (manager_choice e userId) 6 t"

definition admin_menu :: "env \<Rightarrow> 'w net \<Rightarrow> uid \<Rightarrow> string \<Rightarrow> 'w tty \<Rightarrow> 'w tty option" where
  "admin_menu e net userId userName t =
     menu_loop net (admin_text userName userId) (admin_choice e net userId) 5 t"

end
