(* ===== verification/ClientMain.thy ===== *)
theory ClientMain
  imports Client
begin

text \<open>
  \<open>main\<close> of \<^verbatim>\<open>src/client.c\<close> from the moment the socket is connected: the role menu, the login
  and its reply, the dispatch to the four menus, and the exchange with the modelled server as
  a peer.
\<close>

section \<open>The reply to a login\<close>

definition parse_login :: "string \<Rightarrow> fault + (uid \<times> string \<times> string) option" where
  \<comment> \<open>\<open>sscanf(msg, "SUCCESS %d %[^|]|%[^\n]", &userId, role, name) == 3\<close>; neither \<open>%[\<close> has a width\<close>
  "parse_login m =
     (if take 7 m \<noteq> ''SUCCESS'' then Inr None
      else (case scan_d (drop 7 m) of
              None \<Rightarrow> Inr None
            | Some (k, r) \<Rightarrow>
                let s = skip_ws r;
                    role = takeWhile (\<lambda>c. c \<noteq> CHR 0x7C) s;
                    q = dropWhile (\<lambda>c. c \<noteq> CHR 0x7C) s
                in if role = [] then Inr None
                   else if MAX_ROLE_STR \<le> length role then Inl (Buffer_overflow m)
                   else (case q of
                           [] \<Rightarrow> Inr None
                         | _ # q1 \<Rightarrow>
                             let name = takeWhile (\<lambda>c. c \<noteq> LF) q1
                             in if name = [] then Inr None
                                else if MAX_FNAME_LEN \<le> length name then Inl (Buffer_overflow m)
                                else Inr (Some (word_of_int k, role, name)))))"

definition valid_role :: "int \<Rightarrow> string \<Rightarrow> bool" where
  "valid_role choice role \<longleftrightarrow>
     (choice = 1 \<and> role = ''customer'') \<or> (choice = 2 \<and> role = ''employee'') \<or>
     (choice = 3 \<and> role = ''manager'') \<or> (choice = 4 \<and> role = ''admin'')"

text \<open>One round of the login loop after the role was chosen.\<close>

definition login_attempt ::
  "env \<Rightarrow> 'w net \<Rightarrow> int \<Rightarrow> 'w tty \<Rightarrow> ((fault + (uid \<times> string \<times> string) option) \<times> 'w tty) option" where
  "login_attempt e net choice t =
     do { (un, t1) \<leftarrow> ask_username e ''Username'' t;
          (pw, t2) \<leftarrow> ask_password e ''Password'' t1;
          (case send_request_and_get_response net (mk_request ''LOGIN'' (un @ '' '' @ pw)) t2 of
             (resp, t3) \<Rightarrow>
               (case parse_login (resp_message resp) of
                  Inl f \<Rightarrow> Some (Inl f, t3)
                | Inr None \<Rightarrow> Some (Inr None, printf (''Login failed: '' @ line (resp_message resp)) t3)
                | Inr (Some (userId, role, name)) \<Rightarrow>
                    if valid_role choice role then
                      Some (Inr (Some (userId, role, name)),
                        printf (line ([LF] @ ''=================================='') @
                          line (''Login successful! Welcome, '' @ name @ ''!'') @
                          (if choice = 1 then line (''Account Number: AC'' @ fmt_d (sint userId)) else []) @
                          line ''=================================='') t3)
                    else
                      Some (Inr None,
                        printf (line (''Login failed: Credentials are valid, but the role '' @ SQ @ role @ SQ @
                          '' does not match selection.'')) t3))) }"

definition role_text :: string where
  "role_text = line ([LF] @ ''=================================='') @
     line ''Please select your role to login:'' @ line ''1. Customer'' @ line ''2. Employee'' @
     line ''3. Manager'' @ line ''4. Administrator'' @ line ''5. Exit Client'' @ ''Enter choice (1-5): ''"

text \<open>The inner loop: \<open>None\<close> as the user is the entry \<open>Exit Client\<close>.\<close>

partial_function (option) login_loop ::
  "env \<Rightarrow> 'w net \<Rightarrow> 'w tty \<Rightarrow> ((fault + (uid \<times> string \<times> string) option) \<times> 'w tty) option" where
  "login_loop e net t =
     (case scanf_d (printf role_text t) of
        (None, t1) \<Rightarrow> login_loop e net
          (printf (line ''Invalid input. Please enter a number.'') (clear_stdin t1))
      | (Some choice, t1) \<Rightarrow>
          if choice = 5 then Some (Inr None, printf (line ''Exiting client...'') (clear_stdin t1))
          else
            do { (r, t2) \<leftarrow> login_attempt e net choice (clear_stdin t1);
                 (case r of
                    Inl f \<Rightarrow> Some (Inl f, t2)
                  | Inr None \<Rightarrow> login_loop e net t2
                  | Inr (Some u) \<Rightarrow> Some (Inr (Some u), t2)) })"

definition role_menu :: "env \<Rightarrow> 'w net \<Rightarrow> uid \<Rightarrow> string \<Rightarrow> string \<Rightarrow> 'w tty \<Rightarrow> 'w tty option" where
  "role_menu e net userId role name t =
     (if userId = 0 then Some t
      else if role = ''customer'' then customer_menu e net userId t
      else if role = ''employee'' then employee_menu e net userId name t
      else if role = ''manager'' then manager_menu e net userId name t
      else if role = ''admin'' then admin_menu e net userId name t
      else Some (printf (line ''Unknown role received from server.'') t))"

partial_function (option) client_main ::
  "env \<Rightarrow> 'w net \<Rightarrow> 'w tty \<Rightarrow> ((fault + unit) \<times> 'w tty) option" where
  "client_main e net t =
     do { (r, t1) \<leftarrow> login_loop e net t;
          (case r of
             Inl f \<Rightarrow> Some (Inl f, t1)
           | Inr None \<Rightarrow> Some (Inr (), t1)
           | Inr (Some (userId, role, name)) \<Rightarrow>
               do { t2 \<leftarrow> role_menu e net userId role name t1;
                    client_main e net (printf (line ''Logging out... returning to main menu.'') t2) }) }"

section \<open>The server as the peer\<close>

text \<open>
  A request on connection \<open>fd\<close> of the server. A request that overflows a buffer of the
  server's thread is undefined in C; the exchange is modelled as a lost connection.
\<close>

definition serve :: "env \<Rightarrow> nat \<Rightarrow> bank net" where
  "serve e fd req b =
     (case conns b fd of
        None \<Rightarrow> (Write_failed, b)
      | Some cur \<Rightarrow>
          (case handle_request e (cstr (req_op req)) (cstr (req_payload req)) cur (server b) of
             Inl f \<Rightarrow> (Read_failed, b)
           | Inr (resp, cur', v') \<Rightarrow>
               (Replied resp, b\<lparr>server := v', conns := (conns b)(fd \<mapsto> cur')\<rparr>)))"

lemma serve_step:
  \<comment> \<open>an answered request is a step of the server\<close>
  assumes "serve e fd req b = (Replied resp, b')"
  shows "server_step e b b'"
  using assms by (auto simp: serve_def intro: server_step.request split: option.splits sum.splits)

lemma mk_request_sel:
  assumes "clean op" "length op \<le> 64" "clean payload" "length payload < MAX_MSG_LEN"
  shows "cstr (req_op (mk_request op payload)) = op" "cstr (req_payload (mk_request op payload)) = payload"
  using assms by (simp_all add: mk_request_def cstr_init_array snprintf_fits)

end
