(* ===== verification/Formats.thy ===== *)
theory Formats
  imports ClientInput
begin

text \<open>
  Printing and scanning are inverse: what \<open>%u\<close>, \<open>%d\<close>, \<open>%llu\<close>, \<open>%s\<close> and \<open>%lf\<close> print, followed
  by something that cannot belong to the token, is what \<open>sscanf\<close> reads back.
\<close>

section \<open>Tokens and what follows them\<close>

definition stops :: "(char \<Rightarrow> bool) \<Rightarrow> string \<Rightarrow> bool" where
  "stops p r \<longleftrightarrow> (case r of [] \<Rightarrow> True | c # _ \<Rightarrow> \<not> p c)"

lemma stops_simps [simp]: "stops p []" "stops p (c # r) \<longleftrightarrow> \<not> p c"
  by (simp_all add: stops_def)

lemma takeWhile_stops:
  assumes "list_all p w" "stops p r"
  shows "takeWhile p (w @ r) = w" "dropWhile p (w @ r) = r"
  using assms by (induction w) (auto simp: stops_def split: list.splits)

lemma skip_ws_stops [simp]: "stops is_space s \<Longrightarrow> skip_ws s = s"
  by (cases s) (simp_all add: skip_ws_def)

lemma skip_ws_space [simp]: "skip_ws (CHR '' '' # s) = skip_ws s"
  by (simp add: skip_ws_def is_space_def)

lemma scan_space [simp]:
  "scan_int (CHR '' '' # s) = scan_int s" "scan_u (CHR '' '' # s) = scan_u s"
  "scan_d (CHR '' '' # s) = scan_d s" "scan_llu (CHR '' '' # s) = scan_llu s"
  "scan_s (CHR '' '' # s) = scan_s s" "scan_lf (CHR '' '' # s) = scan_lf s"
  by (simp_all add: scan_int_def scan_u_def scan_d_def scan_llu_def scan_s_def scan_lf_def)

section \<open>Digits\<close>

lemma digit_val_digit: "n < 10 \<Longrightarrow> digit_val (char_of (48 + n)) = n" for n :: nat
  by (simp add: digit_val_def)

lemma digit_digit: "n < 10 \<Longrightarrow> is_digit_in 10 (char_of (48 + n))" for n :: nat
  by (simp only: is_digit_in_def digit_val_digit)

lemma digits_of_digits: "list_all (is_digit_in 10) (digits_of n)"
proof (induction n rule: digits_of.induct)
  case (1 n)
  then show ?case
    by (subst digits_of.simps) (simp add: digit_digit)
qed

lemma num_val_Nil [simp]: "num_val b [] = 0"
  by (simp add: num_val_def)

lemma num_val_append: "num_val b (xs @ ys) = num_val b xs * b ^ length ys + num_val b ys"
proof (induction ys rule: rev_induct)
  case (snoc y ys)
  have "num_val b (xs @ ys @ [y]) = b * num_val b (xs @ ys) + digit_val y"
    by (simp add: num_val_def)
  also have "\<dots> = num_val b xs * b ^ length (ys @ [y]) + (b * num_val b ys + digit_val y)"
    by (simp add: snoc algebra_simps)
  also have "b * num_val b ys + digit_val y = num_val b (ys @ [y])" by (simp add: num_val_def)
  finally show ?case .
qed simp

lemma num_val_digits_of [simp]: "num_val 10 (digits_of n) = n"
proof (induction n rule: digits_of.induct)
  case (1 n)
  show ?case
  proof (cases "n < 10")
    case True
    then show ?thesis
      by (subst digits_of.simps) (simp add: num_val_def digit_val_digit)
  next
    case False
    have "num_val 10 [char_of (48 + n mod 10)] = n mod 10"
      by (simp add: num_val_def digit_val_digit)
    with 1 False show ?thesis
      by (subst digits_of.simps) (simp add: num_val_append)
  qed
qed

lemma num_val_zeros [simp]: "num_val 10 (replicate k CHR ''0'' @ ds) = num_val 10 ds"
proof -
  have "num_val 10 (replicate k CHR ''0'') = 0"
    by (induction k) (simp_all add: num_val_def digit_val_def)
  then show ?thesis by (simp add: num_val_append)
qed

lemma num_val_zero_pad [simp]: "num_val 10 (zero_pad w (digits_of n)) = n"
  by (simp add: zero_pad_def)

lemma zero_pad_digits: "list_all (is_digit_in 10) (zero_pad w (digits_of n))"
  using digits_of_digits [of n]
  by (auto simp add: zero_pad_def list_all_iff in_set_replicate is_digit_in_def digit_val_def)

lemma length_zero_pad: "length ds \<le> w \<Longrightarrow> length (zero_pad w ds) = w"
  by (simp add: zero_pad_def)

lemma digit_no_space: "is_digit_in 10 c \<Longrightarrow> \<not> is_space c"
  by (auto simp: is_digit_in_def digit_val_def is_space_def)

lemma digit_no_sign: "is_digit_in 10 c \<Longrightarrow> c \<noteq> CHR ''-'' \<and> c \<noteq> CHR ''+''"
  by (auto simp: is_digit_in_def digit_val_def)

lemma digits_head:
  obtains c r where "digits_of n = c # r" "is_digit_in 10 c"
  using digits_of_digits [of n] digits_of_nonempty [of n] by (cases "digits_of n") auto

section \<open>Integers\<close>

lemma scan_int_digits:
  assumes "stops (is_digit_in 10) r"
  shows "scan_int (digits_of n @ r) = Some ((False, n), r)"
proof (rule digits_head [of n])
  fix c q assume d: "digits_of n = c # q" "is_digit_in 10 c"
  then have "skip_ws (digits_of n @ r) = digits_of n @ r" "scan_sign (digits_of n @ r) = (False, digits_of n @ r)"
    using digit_no_space digit_no_sign by (simp_all add: scan_sign_def)
  with takeWhile_stops [OF digits_of_digits assms, of n] show ?thesis
    by (simp add: scan_int_def)
qed

lemma scan_int_minus:
  assumes "stops (is_digit_in 10) r"
  shows "scan_int (CHR ''-'' # digits_of n @ r) = Some ((True, n), r)"
  using takeWhile_stops [OF digits_of_digits assms, of n]
  by (simp add: scan_int_def scan_sign_def is_space_def)

lemma unat_less: "unat w < 2 ^ LENGTH('a)" for w :: "'a::len word"
  by (rule unsigned_less)

lemma scan_u_fmt_u:
  assumes "stops (is_digit_in 10) r"
  shows "scan_u (fmt_u w @ r) = Some (w, r)"
proof -
  have "unat w < 2 ^ 64" using unat_less [of w] by simp
  moreover have "ucast (of_nat (unat w) :: 64 word) = w"
    by (simp add: unsigned_ucast_eq take_bit_word_eq_self)
  ultimately show ?thesis
    using scan_int_digits [OF assms, of "unat w"] by (simp add: scan_u_def fmt_u_def ulong_of_def)
qed

lemma scan_llu_fmt_u:
  fixes w :: "64 word"
  assumes "stops (is_digit_in 10) r"
  shows "scan_llu (fmt_u w @ r) = Some (w, r)"
  using scan_int_digits [OF assms, of "unat w"] unat_less [of w]
  by (simp add: scan_llu_def fmt_u_def ulong_of_def)

lemma scan_int_fmt_d:
  assumes "stops (is_digit_in 10) r"
  shows "scan_int (fmt_d i @ r) = Some ((i < 0, nat \<bar>i\<bar>), r)"
  using scan_int_digits [OF assms, of "nat i"] scan_int_minus [OF assms, of "nat (- i)"]
  by (simp add: fmt_d_def)

lemma scan_d_fmt_d:
  assumes "stops (is_digit_in 10) r" "- (2 ^ 31) \<le> i" "i < 2 ^ 31"
  shows "scan_d (fmt_d i @ r) = Some (i, r)"
proof -
  have "sint (word_of_int i :: 32 word) = i"
    using signed_take_bit_int_eq_self [of 31 i] assms(2,3) by (simp add: signed_of_int)
  moreover have "long_of (i < 0, nat \<bar>i\<bar>) = i"
    using assms(2,3) by (auto simp: long_of_def)
  ultimately show ?thesis
    using scan_int_fmt_d [OF assms(1)] by (simp add: scan_d_def)
qed

lemma scan_u_fmt_d:
  \<comment> \<open>\<open>%d\<close> of an identifier, read by \<open>%u\<close>\<close>
  assumes "stops (is_digit_in 10) r"
  shows "scan_u (fmt_d (sint w) @ r) = Some (w, r)"
proof -
  let ?i = "sint w"
  have "- (2 ^ 31) \<le> ?i" "?i < 2 ^ 31" using sint_ge [of w] sint_lt [of w] by simp_all
  then have "ulong_of (?i < 0, nat \<bar>?i\<bar>) = word_of_int ?i"
    by (auto simp: ulong_of_def)
  moreover have "ucast (word_of_int ?i :: 64 word) = w"
    by transfer (simp add: take_bit_signed_take_bit)
  ultimately show ?thesis
    using scan_int_fmt_d [OF assms] by (simp add: scan_u_def)
qed

lemma scan_s_token:
  assumes "w \<noteq> []" "list_all (\<lambda>c. \<not> is_space c) w" "stops (\<lambda>c. \<not> is_space c) r"
  shows "scan_s (w @ r) = Some (w, r)"
proof -
  have "skip_ws (w @ r) = w @ r" using assms(1,2) by (cases w) auto
  with takeWhile_stops [OF assms(2,3)] assms(1) show ?thesis by (simp add: scan_s_def)
qed

end
