(* ===== verification/Amounts.thy ===== *)
theory Amounts
  imports Formats
begin

text \<open>
  Amounts of money on their way from the keyboard to the server: what is typed as
  \<open>123.45\<close> is read by \<^verbatim>\<open>strtod\<close>, printed by \<open>%lf\<close> into the request and read again by
  \<^verbatim>\<open>sscanf\<close>. The double is the same at both ends as long as the amount is below \<open>2 ^ 33\<close>.
\<close>

definition cents :: "nat \<Rightarrow> double" where
  \<comment> \<open>the double nearest to \<open>m\<close> hundredths\<close>
  "cents m = dbl_scaled 10 m (- 2)"

definition amount_text :: "nat \<Rightarrow> string" where
  \<comment> \<open>\<open>m\<close> hundredths with two decimals\<close>
  "amount_text m = digits_of (m div 100) @ ''.'' @ zero_pad 2 (digits_of (m mod 100))"

section \<open>Rounding\<close>

lemma round_half_even_scale:
  assumes "0 < c"
  shows "round_half_even (c * a) (c * b) = round_half_even a b"
proof -
  have "2 * (c * (a mod b)) < c * b \<longleftrightarrow> 2 * (a mod b) < b"
    using assms by (metis mult.left_commute mult_less_cancel_left_pos)
  moreover have "2 * (c * (a mod b)) = c * b \<longleftrightarrow> 2 * (a mod b) = b"
    using assms by (metis mult.left_commute mult_cancel_left less_irrefl)
  ultimately show ?thesis
    using assms by (simp add: round_half_even_def Let_def mult_mod_right [symmetric])
qed

lemma dbl_of_ratio_scale:
  assumes "0 < c"
  shows "dbl_of_ratio (c * a) (c * b) = dbl_of_ratio a b"
proof -
  have "round_mag (c * \<bar>a\<bar>) (c * b) = round_mag \<bar>a\<bar> b"
    using assms round_half_even_scale [OF assms, of "\<bar>a\<bar>"] by (simp add: round_mag_def Let_def mult.assoc)
  moreover have "\<bar>c * a\<bar> = c * \<bar>a\<bar>" "c * a < 0 \<longleftrightarrow> a < 0" "sgn (c * a) = sgn a"
    using assms by (simp_all add: abs_mult mult_less_0_iff sgn_mult)
  ultimately show ?thesis by (simp only: dbl_of_ratio_def Let_def)
qed

lemma round_half_even_error:
  assumes "0 < b"
  shows "2 * \<bar>round_half_even a b * b - a\<bar> \<le> b"
proof -
  define q r where "q = a div b" and "r = a mod b"
  have a: "a = q * b + r" and r: "0 \<le> r" "r < b"
    using assms by (simp_all add: q_def r_def)
  have "round_half_even a b = (if 2 * r < b \<or> (2 * r = b \<and> even q) then q else q + 1)"
    by (simp add: round_half_even_def q_def r_def Let_def)
  then show ?thesis using r unfolding a by (auto simp: algebra_simps)
qed

lemma abs_sum_less: "2 * \<bar>x\<bar> < b \<Longrightarrow> 2 * \<bar>y\<bar> \<le> b \<Longrightarrow> \<bar>x + y\<bar> < b" for x y b :: int
  using abs_triangle_ineq [of x y] by linarith

lemma round_half_even_near:
  assumes "2 * \<bar>a - k * b\<bar> < b"
  shows "round_half_even a b = k"
proof -
  have b: "0 < b" by (rule order_le_less_trans [OF _ assms]) simp
  then have "2 * \<bar>round_half_even a b * b - a\<bar> \<le> b"
    by (rule round_half_even_error)
  from abs_sum_less [OF assms this] have *: "\<bar>(round_half_even a b - k) * b\<bar> < b" by (simp add: left_diff_distrib)
  have "\<bar>round_half_even a b - k\<bar> < 1"
  proof (rule ccontr)
    assume "\<not> ?thesis"
    with b have "b \<le> \<bar>round_half_even a b - k\<bar> * \<bar>b\<bar>" by simp
    with * show False by (simp add: abs_mult)
  qed
  then show ?thesis by simp
qed

lemma round_mag_error:
  assumes "0 < b" "bitlen (a div b) \<le> 53 + int e"
  shows "2 * \<bar>round_mag a b * b - a\<bar> \<le> b * 2 ^ e"
proof -
  define d where "d = nat (bitlen (a div b) - 53)"
  have "d \<le> e" using assms(2) by (simp add: d_def)
  then have "(2::int) ^ d \<le> 2 ^ e" by (intro power_increasing) auto
  moreover have "2 * \<bar>round_half_even a (b * 2 ^ d) * (b * 2 ^ d) - a\<bar> \<le> b * 2 ^ d"
    using assms(1) by (intro round_half_even_error) simp
  moreover have "round_mag a b * b = round_half_even a (b * 2 ^ d) * (b * 2 ^ d)"
    by (simp add: round_mag_def d_def Let_def)
  ultimately show ?thesis
    using assms(1) by (smt (verit) mult_left_mono)
qed

section \<open>Hundredths\<close>

lemma cents_eq: "cents m = dbl_of_ratio (int m * dunit) 100"
  by (simp add: cents_def dbl_scaled_def)

lemma dunit_half: "2 * (10 ^ 6 * 2 ^ 1053) < dunit"
proof -
  have "(10::int) ^ 6 < 2 ^ 20" by simp
  then have "(10::int) ^ 6 * 2 ^ 1053 < 2 ^ 20 * 2 ^ 1053" by (rule mult_strict_right_mono) simp
  also have "\<dots> = 2 ^ 1073" by (simp only: power_add [symmetric]) simp
  finally show ?thesis unfolding dunit_def by simp
qed

text \<open>Below \<open>2 ^ 33\<close> the double is within half a millionth of its amount.\<close>

lemma cents_error:
  assumes "m < 100 * 2 ^ 33"
  obtains n p where "cents m = Fin n" "0 \<le> n" "\<bar>n * 100 - int m * dunit\<bar> \<le> 100 * p"
    "2000000 * p < dunit"
proof -
  define n where "n = round_mag (int m * dunit) 100"
  define p :: int where "p = 2 ^ 1053"
  have "int m * dunit < 100 * 2 ^ 33 * dunit"
    using assms by (intro mult_strict_right_mono) simp_all
  also have "\<dots> = 100 * 2 ^ 1107"
    unfolding dunit_def by (simp only: mult.assoc power_add [symmetric]) simp
  finally have less: "int m * dunit < 100 * 2 ^ 1107" .
  then have "int m * dunit div 100 < 2 ^ 1107" by linarith
  then have "bitlen (int m * dunit div 100) \<le> 53 + int 1054"
    by (subst bitlen_le_iff_power) simp
  from round_mag_error [OF _ this] have "2 * \<bar>n * 100 - int m * dunit\<bar> \<le> 100 * 2 ^ 1054"
    by (simp add: n_def)
  also have "(2::int) ^ 1054 = 2 * p" by (simp add: p_def)
  finally have err: "\<bar>n * 100 - int m * dunit\<bar> \<le> 100 * p" by simp
  have "n * 100 - int m * dunit \<le> \<bar>n * 100 - int m * dunit\<bar>" by (rule abs_ge_self)
  moreover have "p < 2 ^ 1107" "(2::int) ^ 1108 = 2 * 2 ^ 1107" by (simp_all add: p_def)
  ultimately have "n < 2 ^ 1108" using err less by linarith
  also have "(2::int) ^ 1108 \<le> doverflow"
    unfolding doverflow_def by (rule power_increasing) simp_all
  finally have "\<not> doverflow \<le> n" by simp
  moreover have nonneg: "0 \<le> int m * dunit" by (rule mult_nonneg_nonneg) (simp_all add: less_imp_le)
  moreover have "0 \<le> n" unfolding n_def using nonneg by (rule round_mag_nonneg) simp
  ultimately have "cents m = Fin (sgn (int m * dunit) * n)"
    by (simp only: cents_eq dbl_of_ratio_def Let_def abs_of_nonneg n_def if_False)
  moreover have "sgn (int m * dunit) * n = n"
    using dunit_pos by (cases "m = 0") (simp_all add: n_def round_mag_def round_half_even_def sgn_mult)
  ultimately show thesis using that [of n p] err dunit_half \<open>0 \<le> n\<close> by (simp add: p_def)
qed

lemma cents_pos:
  assumes "0 < m" "m < 100 * 2 ^ 33"
  shows "\<not> dle (cents m) dzero"
proof (rule cents_error [OF assms(2)])
  fix n p assume n: "cents m = Fin n" "0 \<le> n" "\<bar>n * 100 - int m * dunit\<bar> \<le> 100 * p"
    "2000000 * p < dunit"
  have "dunit \<le> int m * dunit" using assms(1) by simp
  moreover have "- (n * 100 - int m * dunit) \<le> 100 * p"
    using abs_ge_minus_self n(3) by (rule order_trans)
  moreover have "0 \<le> 100 * p" using abs_ge_zero n(3) by (rule order_trans)
  ultimately have "0 < n" using n(4) dunit_pos by linarith
  with n(1) show ?thesis by (auto simp: dle_def)
qed

lemma fmt_f_cents:
  assumes "m < 100 * 2 ^ 33"
  shows "fmt_f 6 (cents m) = digits_of (m * 10 ^ 4 div 10 ^ 6) @ ''.'' @
    zero_pad 6 (digits_of (m * 10 ^ 4 mod 10 ^ 6))"
proof (rule cents_error [OF assms])
  fix n p assume n: "cents m = Fin n" "0 \<le> n" "\<bar>n * 100 - int m * dunit\<bar> \<le> 100 * p"
    "2000000 * p < dunit"
  have "n * 10 ^ 6 - int (m * 10 ^ 4) * dunit = 10 ^ 4 * (n * 100 - int m * dunit)"
    by (simp add: algebra_simps)
  then have "\<bar>n * 10 ^ 6 - int (m * 10 ^ 4) * dunit\<bar> = 10 ^ 4 * \<bar>n * 100 - int m * dunit\<bar>"
    by (simp only: abs_mult) simp
  with n(3,4) have "2 * \<bar>n * 10 ^ 6 - int (m * 10 ^ 4) * dunit\<bar> < dunit"
    by simp
  then have "round_half_even (n * 10 ^ 6) dunit = int (m * 10 ^ 4)"
    by (rule round_half_even_near)
  then have "nat (round_half_even (\<bar>n\<bar> * 10 ^ 6) dunit) = m * 10 ^ 4"
    using n(2) by (simp only: abs_of_nonneg nat_int)
  with n(1,2) show ?thesis
    by (simp only: fmt_f.simps Let_def not_less [symmetric] if_False append_Nil)
qed

section \<open>Reading decimals\<close>

lemma low_digit: "is_digit_in 10 c \<Longrightarrow> to_lower c = c \<and> c \<noteq> CHR ''n'' \<and> c \<noteq> CHR ''i'' \<and> c \<noteq> CHR ''x''"
  by (auto simp: is_digit_in_def digit_val_def to_lower_def Let_def split: if_splits)

definition decimal :: "nat \<Rightarrow> nat \<Rightarrow> nat \<Rightarrow> string" where
  "decimal a k b = digits_of a @ ''.'' @ zero_pad k (digits_of b)"

lemma decimal_head:
  obtains c d q where "decimal a k b @ r = c # d # q" "is_digit_in 10 c" "to_lower d \<noteq> CHR ''x''"
proof (rule digits_head [of a])
  fix c ds assume d: "digits_of a = c # ds" "is_digit_in 10 c"
  have "list_all (is_digit_in 10) ds" using digits_of_digits [of a] d(1) by simp
  then show thesis
    using that [of c "CHR ''.''" "zero_pad k (digits_of b) @ r"] that [of c "hd ds" "tl ds @ ''.'' @ zero_pad k (digits_of b) @ r"]
      d low_digit by (cases ds) (auto simp: decimal_def to_lower_def)
qed

lemma scan_mantissa_decimal:
  assumes "stops (is_digit_in 10) r"
  shows "scan_mantissa 10 (decimal a k b @ r) =
    ((digits_of a @ zero_pad k (digits_of b), length (zero_pad k (digits_of b))), r)"
proof -
  have "stops (is_digit_in 10) (''.'' @ zero_pad k (digits_of b) @ r)"
    by (simp add: is_digit_in_def digit_val_def)
  note takeWhile_stops [OF digits_of_digits this, of a]
  moreover note takeWhile_stops [OF zero_pad_digits assms, of k b]
  ultimately show ?thesis by (simp add: scan_mantissa_def decimal_def Let_def)
qed

lemma num_val_decimal:
  assumes "b < 10 ^ Suc k"
  shows "num_val 10 (digits_of a @ zero_pad (Suc k) (digits_of b)) = a * 10 ^ Suc k + b"
  using length_zero_pad [OF length_digits_of [OF assms]] by (simp add: num_val_append)

text \<open>What may follow a decimal: the end, or a blank.\<close>

definition ends_number :: "string \<Rightarrow> bool" where
  "ends_number r \<longleftrightarrow> stops (\<lambda>c. is_digit_in 10 c \<or> to_lower c = CHR ''e'') r"

lemma ends_numberD:
  assumes "ends_number r"
  shows "stops (is_digit_in 10) r" "scan_exponent CHR ''e'' r = (0, r)" "strtod_exponent CHR ''e'' r = (0, r)"
  using assms by (auto simp: ends_number_def scan_exponent_def strtod_exponent_def stops_def split: list.splits)

lemma scan_lf_decimal:
  assumes "b < 10 ^ Suc k" "ends_number r"
  shows "scan_lf (decimal a (Suc k) b @ r) = Some (dbl_scaled 10 (a * 10 ^ Suc k + b) (- int (Suc k)), r)"
proof (rule decimal_head [of a "Suc k" b r])
  fix c d q assume h: "decimal a (Suc k) b @ r = c # d # q" "is_digit_in 10 c" "to_lower d \<noteq> CHR ''x''"
  have m: "scan_magnitude (decimal a (Suc k) b @ r) =
      Some (dbl_scaled 10 (a * 10 ^ Suc k + b) (- int (Suc k)), r)"
    using low_digit [OF h(2)] h(1,3) scan_mantissa_decimal [OF ends_numberD(1) [OF assms(2)], of a "Suc k" b]
      ends_numberD(2) [OF assms(2)] num_val_decimal [OF assms(1), of a] length_zero_pad [OF length_digits_of [OF assms(1)]]
    by (simp add: scan_magnitude_def)
  have "skip_ws (c # d # q) = c # d # q" "scan_sign (c # d # q) = (False, c # d # q)"
    using digit_no_space [OF h(2)] digit_no_sign [OF h(2)] by (simp_all add: scan_sign_def)
  with m h(1) show ?thesis by (simp add: scan_lf_def)
qed

lemma strtod_decimal:
  assumes "b < 10 ^ Suc k" "ends_number r"
  shows "strtod (decimal a (Suc k) b @ r) = Some (dbl_scaled 10 (a * 10 ^ Suc k + b) (- int (Suc k)), r)"
proof (rule decimal_head [of a "Suc k" b r])
  fix c d q assume h: "decimal a (Suc k) b @ r = c # d # q" "is_digit_in 10 c" "to_lower d \<noteq> CHR ''x''"
  have m: "strtod_magnitude (decimal a (Suc k) b @ r) =
      Some (dbl_scaled 10 (a * 10 ^ Suc k + b) (- int (Suc k)), r)"
    using low_digit [OF h(2)] h(1,3) scan_mantissa_decimal [OF ends_numberD(1) [OF assms(2)], of a "Suc k" b]
      ends_numberD(3) [OF assms(2)] num_val_decimal [OF assms(1), of a] length_zero_pad [OF length_digits_of [OF assms(1)]]
    by (simp add: strtod_magnitude_def split: prod.split)
  have "skip_ws (c # d # q) = c # d # q" "scan_sign (c # d # q) = (False, c # d # q)"
    using digit_no_space [OF h(2)] digit_no_sign [OF h(2)] by (simp_all add: scan_sign_def)
  with m h(1) show ?thesis by (simp add: strtod_def)
qed

section \<open>The amount survives the trip\<close>

lemma cents_scale: "dbl_scaled 10 (m * 10 ^ 4) (- 6) = cents m"
  using dbl_of_ratio_scale [of "10 ^ 4" "int m * dunit" 100]
  by (simp add: cents_eq dbl_scaled_def algebra_simps)

lemma scan_split:
  assumes "ends_number r"
  shows "scan_lf (decimal (q div 10 ^ 6) 6 (q mod 10 ^ 6) @ r) = Some (dbl_scaled 10 q (- 6), r)"
proof -
  have six: "Suc 5 = 6" by simp
  have "q mod 10 ^ 6 < 10 ^ 6" by simp
  from scan_lf_decimal [of _ 5, unfolded six, OF this assms, of "q div 10 ^ 6"]
  show ?thesis by (simp only: div_mult_mod_eq) simp
qed

lemma scan_cents:
  assumes "m < 100 * 2 ^ 33" "ends_number r"
  shows "scan_lf (fmt_f 6 (cents m) @ r) = Some (cents m, r)"
  using scan_split [OF assms(2), of "m * 10 ^ 4"] fmt_f_cents [OF assms(1)]
  by (simp only: decimal_def append_assoc cents_scale)

lemma typed_amount:
  assumes "0 < m" "m < 100 * 2 ^ 33"
  shows "amount_typed (amount_text m) = Inr (cents m)"
proof -
  have "strtod (decimal (m div 100) (Suc 1) (m mod 100) @ []) = Some (cents m, [])"
    by (subst strtod_decimal) (simp_all add: ends_number_def cents_def)
  moreover have "amount_text m = decimal (m div 100) (Suc 1) (m mod 100)"
    by (simp add: amount_text_def decimal_def numeral_2_eq_2)
  moreover have "decimal (m div 100) (Suc 1) (m mod 100) \<noteq> []" by (simp add: decimal_def)
  ultimately show ?thesis
    using cents_pos [OF assms] by (simp add: amount_typed_def)
qed

end
