(* ===== verification/Prompts.thy ===== *)
theory Prompts
  imports ClientMain Amounts
begin

text \<open>
  What the prompts of the client return: only accepted input, the first acceptable line,
  and nothing at all once the input has ended. The same for the menus and for \<open>main\<close>.
\<close>

lemma printf_sel [simp]:
  "stdin_bytes (printf m t) = stdin_bytes t" "peer (printf m t) = peer t"
  by (simp_all add: printf_def)

section \<open>Lines\<close>

definition is_line :: "string \<Rightarrow> bool" where
  \<comment> \<open>typed text: neither a newline nor a NUL\<close>
  "is_line l \<longleftrightarrow> list_all (\<lambda>c. c \<noteq> LF \<and> c \<noteq> NUL) l"

lemma is_line_clean: "is_line l \<Longrightarrow> clean l"
  by (auto simp: is_line_def clean_def list_all_iff)

lemma fgets_line_short:
  assumes "length l < n" "is_line l"
  shows "fgets_line n (l @ LF # r) = (l @ [LF], r)"
  using assms
proof (induction n arbitrary: l)
  case (Suc n)
  then show ?case by (cases l) (auto simp: is_line_def)
qed simp

lemma fgets_line_long:
  assumes "n \<le> length l" "is_line l"
  shows "fgets_line n (l @ r) = (take n l, drop n l @ r)"
  using assms
proof (induction n arbitrary: l)
  case (Suc n)
  then show ?case by (cases l) (auto simp: is_line_def)
qed simp

lemma fgets_line_length: "length (fst (fgets_line n s)) \<le> n"
  by (induction n s rule: fgets_line.induct) (auto split: prod.splits)

lemma strcspn_line: "is_line l \<Longrightarrow> \<not> (c \<noteq> LF \<and> c \<noteq> NUL) \<Longrightarrow> strcspn_LF (l @ c # x) = length l"
  by (simp add: strcspn_LF_def is_line_def takeWhile_append2 list_all_iff)

lemma chomp_line:
  assumes "is_line l" "c = LF \<or> c = NUL"
  shows "cstr (chomp (l @ c # x)) = l"
proof -
  have "strcspn_LF (l @ c # x) = length l" by (rule strcspn_line) (use assms in auto)
  then have "chomp (l @ c # x) = l @ NUL # x" by (simp only: chomp_def list_update_length)
  then show ?thesis by (simp only: cstr_append_NUL [OF is_line_clean [OF assms(1)]])
qed

lemma cstr_eq_strcspn: "cstr (chomp b) = takeWhile (\<lambda>c. c \<noteq> LF \<and> c \<noteq> NUL) b"
proof (cases "\<exists>c\<in>set b. \<not> (c \<noteq> LF \<and> c \<noteq> NUL)")
  case True
  then obtain l c x where b: "b = l @ c # x" "\<forall>d\<in>set l. d \<noteq> LF \<and> d \<noteq> NUL" "\<not> (c \<noteq> LF \<and> c \<noteq> NUL)"
    using split_list_first_prop [OF True] by blast
  from b(2) have "is_line l" by (simp add: is_line_def list_all_iff)
  from chomp_line [OF this, of c x] b(3) have "cstr (chomp (l @ c # x)) = l" by blast
  moreover have "takeWhile (\<lambda>c. c \<noteq> LF \<and> c \<noteq> NUL) (l @ c # x) = l"
    using b(2,3) by (subst takeWhile_append2) simp_all
  ultimately show ?thesis by (simp only: b(1))
next
  case False
  then have all: "\<forall>c\<in>set b. c \<noteq> LF \<and> c \<noteq> NUL" by blast
  then have t: "takeWhile (\<lambda>c. c \<noteq> LF \<and> c \<noteq> NUL) b = b" by (simp only: takeWhile_eq_all_conv)
  then have "strcspn_LF b = length b" by (simp only: strcspn_LF_def)
  then have "chomp b = b" by (simp only: chomp_def list_update_beyond)
  moreover have "clean b" unfolding clean_def using all by blast
  ultimately show ?thesis by (simp only: t cstr_clean)
qed

lemma cstr_chomp_chomp: "cstr (chomp (chomp b)) = cstr (chomp b)"
proof -
  have t: "strcspn_LF b \<le> length b" by (simp add: strcspn_LF_def length_takeWhile_le)
  have w: "takeWhile P (xs[length (takeWhile P xs) := y]) = takeWhile P xs" if "\<not> P y" for P xs and y :: char
    using that by (induction xs) auto
  show ?thesis
    unfolding cstr_eq_strcspn unfolding chomp_def strcspn_LF_def by (rule w) simp
qed

lemma fgets_typed:
  assumes "is_line l" "length l + 1 < sz"
  obtains b where "fgets buffer sz (l @ LF # r) = (b, r)" "cstr (chomp b) = l"
proof -
  have "fgets_line (sz - 1) (l @ LF # r) = (l @ [LF], r)"
    using assms by (intro fgets_line_short) simp_all
  then have f: "fgets buffer sz (l @ LF # r) = (l @ LF # NUL # drop (Suc (Suc (length l))) buffer, r)"
    by (simp add: fgets_def)
  show thesis by (rule that [OF f]) (rule chomp_line [OF assms(1)], simp)
qed

section \<open>A prompt returns accepted input\<close>

lemma read_validated_accepts:
  "read_validated_string prompt buffer sz v t = Some y \<Longrightarrow> v (cstr (fst y)) = None"
  by (induction rule: read_validated_string.raw_induct [rotated, consumes 1])
    (auto split: prod.splits option.splits)

lemma read_valid_double_accepts:
  "read_valid_double prompt buffer t = Some y \<Longrightarrow> \<exists>s. amount_typed s = Inr (fst y)"
  by (induction rule: read_valid_double.raw_induct [rotated, consumes 1])
    (auto split: prod.splits sum.splits)

lemma ask_accepts: "ask e x prompt sz v t = Some (s, t') \<Longrightarrow> v s = None \<and> clean s"
  by (auto simp: ask_def bind_eq_Some_conv dest: read_validated_accepts)


section \<open>The first acceptable line\<close>

lemma read_validated_line:
  assumes "is_line l" "length l + 1 < sz" "stdin_bytes t = line l @ r"
  obtains b where "cstr b = l" "read_validated_string prompt buffer sz v t = (case v l of
      None \<Rightarrow> Some (b, (printf (prompt @ '': '') t)\<lparr>stdin_bytes := r\<rparr>)
    | Some m \<Rightarrow> read_validated_string prompt b sz v
        (printf (''Error: '' @ snprintf 128 m @ ''. Please try again.'' @ [LF])
          ((printf (prompt @ '': '') t)\<lparr>stdin_bytes := r\<rparr>)))"
proof (rule fgets_typed [OF assms(1,2), of buffer r])
  fix b assume f: "fgets buffer sz (l @ LF # r) = (b, r)" "cstr (chomp b) = l"
  from assms(3) have "stdin_bytes t = l @ LF # r" by (simp add: line_def)
  with f show thesis
    by (intro that [of "chomp b"]) (simp_all add: read_validated_string.simps [of prompt buffer])
qed

lemma read_first_line:
  assumes "\<forall>x\<in>set bad. is_line x \<and> length x + 1 < sz \<and> v x \<noteq> None"
    "is_line l" "length l + 1 < sz" "v l = None" "stdin_bytes t = concat (map line bad) @ line l @ r"
  shows "\<exists>b t'. read_validated_string prompt buffer sz v t = Some (b, t') \<and> cstr b = l \<and>
    stdin_bytes t' = r \<and> peer t' = peer t"
  using assms(1,5)
proof (induction bad arbitrary: t buffer)
  case Nil
  then have "stdin_bytes t = line l @ r" by simp
  from read_validated_line [OF assms(2,3) this, of prompt buffer v] obtain b where
    "cstr b = l" "read_validated_string prompt buffer sz v t =
      Some (b, (printf (prompt @ '': '') t)\<lparr>stdin_bytes := r\<rparr>)" using assms(4) by auto
  then show ?case by simp
next
  case (Cons x bad)
  then obtain m where x: "is_line x" "length x + 1 < sz" "v x = Some m" by auto
  from Cons.prems have "stdin_bytes t = line x @ concat (map line bad) @ line l @ r" by simp
  from read_validated_line [OF x(1,2) this, of prompt buffer v] x(3) obtain b where
    "read_validated_string prompt buffer sz v t = read_validated_string prompt b sz v
        (printf (''Error: '' @ snprintf 128 m @ ''. Please try again.'' @ [LF])
          ((printf (prompt @ '': '') t)\<lparr>stdin_bytes := concat (map line bad) @ line l @ r\<rparr>))" by auto
  with Cons.IH [of "printf (''Error: '' @ snprintf 128 m @ ''. Please try again.'' @ [LF])
          ((printf (prompt @ '': '') t)\<lparr>stdin_bytes := concat (map line bad) @ line l @ r\<rparr>)" b] Cons.prems
  show ?case by simp
qed

lemma ask_line:
  assumes "is_line l" "length l + 1 < sz" "v l = None" "stdin_bytes t = line l @ r"
  shows "\<exists>t'. ask e x prompt sz v t = Some (l, t') \<and> stdin_bytes t' = r \<and> peer t' = peer t"
  using read_first_line [of "[]" sz v l t r prompt "stk_arr e x"] assms by (auto simp: ask_def)

lemma ask_amount_line:
  assumes "is_line l" "length l < 127" "amount_typed l = Inr d" "stdin_bytes t = line l @ r"
  shows "\<exists>t'. ask_amount e prompt t = Some (d, t') \<and> stdin_bytes t' = r \<and> peer t' = peer t"
proof -
  have "length l + 1 < 128" using assms(2) by simp
  then show ?thesis
  proof (rule fgets_typed [OF assms(1), of 128 "stk_arr e ''buffer''" r])
    fix b assume "fgets (stk_arr e ''buffer'') 128 (l @ LF # r) = (b, r)" "cstr (chomp b) = l"
    with assms(3,4) show ?thesis
      by (simp add: ask_amount_def read_valid_double.simps [of prompt "stk_arr e ''buffer''"] line_def)
  qed
qed

section \<open>The end of the input\<close>

lemma read_validated_eof:
  "read_validated_string prompt buffer sz v t = Some y \<Longrightarrow> stdin_bytes t = [] \<Longrightarrow>
     v (cstr (chomp buffer)) = None"
  by (induction rule: read_validated_string.raw_induct [rotated, consumes 1])
    (fastforce simp: fgets_def cstr_chomp_chomp split: option.splits)

lemma scan_d_Nil [simp]: "scan_d [] = None"
  by (simp add: scan_d_def scan_int_def scan_sign_def skip_ws_def)

lemma scanf_d_eof: "stdin_bytes t = [] \<Longrightarrow> scanf_d t = (None, t\<lparr>stdin_bytes := []\<rparr>)"
  by (simp add: scanf_d_def scan_sign_def skip_ws_def)

lemma menu_loop_eof: "menu_loop net text pick quit t = Some y \<Longrightarrow> stdin_bytes t \<noteq> []"
  by (induction rule: menu_loop.raw_induct [rotated, consumes 1])
    (fastforce simp: scanf_d_eof clear_stdin_def)

lemma login_loop_eof: "login_loop e net t = Some y \<Longrightarrow> stdin_bytes t \<noteq> []"
  by (induction rule: login_loop.raw_induct [rotated, consumes 1])
    (fastforce simp: scanf_d_eof clear_stdin_def)

lemma client_main_eof: "client_main e net t = Some y \<Longrightarrow> stdin_bytes t \<noteq> []"
  by (subst (asm) client_main.simps) (auto simp: bind_eq_Some_conv dest: login_loop_eof)

end
