(* ===== verification/Keyboard.thy ===== *)
theory Keyboard
  imports Prompts
begin

text \<open>
  From the keyboard to the server: the requests the menus build from typed lines, and what
  \<^verbatim>\<open>sscanf\<close> makes of them at the other end.
\<close>

section \<open>Tokens\<close>

definition token :: "nat \<Rightarrow> string \<Rightarrow> bool" where
  \<comment> \<open>a word without white space that fits an array of \<open>n\<close> bytes\<close>
  "token n w \<longleftrightarrow> w \<noteq> [] \<and> length w < n \<and> list_all (\<lambda>c. \<not> is_space c \<and> c \<noteq> NUL) w"

abbreviation blank_or_end :: "string \<Rightarrow> bool" where
  "blank_or_end r \<equiv> stops (\<lambda>c. \<not> is_space c) r"

lemma blank_digit: "blank_or_end r \<Longrightarrow> stops (is_digit_in 10) r"
  using digit_no_space by (cases r) auto

lemma blank_ends_number: "blank_or_end r \<Longrightarrow> ends_number r"
  by (cases r) (auto simp: ends_number_def is_space_def is_digit_in_def digit_val_def to_lower_def)

lemma is_space_blank [simp]: "is_space CHR '' ''"
  by (simp add: is_space_def)

lemma token_clean: "token n w \<Longrightarrow> clean w"
  by (auto simp: token_def clean_def list_all_iff)

lemma token_is_line: "token n w \<Longrightarrow> is_line w"
  by (auto simp: token_def is_line_def list_all_iff is_space_def)

lemma token_no_blank: "token n w \<Longrightarrow> CHR '' '' \<notin> set w"
  by (auto simp: token_def list_all_iff is_space_def)

lemma token_mono: "token m w \<Longrightarrow> m \<le> n \<Longrightarrow> token n w"
  by (simp add: token_def)

lemma scan_s_blank:
  assumes "token n w" "blank_or_end r"
  shows "scan_s (w @ r) = Some (w, r)"
  by (rule scan_s_token) (use assms in \<open>auto simp: token_def list_all_iff\<close>)

text \<open>One conversion at a time; \<open>add_arg\<close> puts a value in front of what follows.\<close>

definition add_arg :: "arg \<Rightarrow> fault + arg list \<Rightarrow> fault + arg list" where
  "add_arg a x = (case x of Inl f \<Rightarrow> Inl f | Inr as \<Rightarrow> Inr (a # as))"

lemma add_arg_Inr [simp]: "add_arg a (Inr as) = Inr (a # as)"
  by (simp add: add_arg_def)

lemma sscanf_word:
  assumes "token n w" "blank_or_end r"
  shows "sscanf (Cs n # cs) (w @ r) = add_arg (As w) (sscanf cs r)"
    and "sscanf (Cs n # cs) (CHR '' '' # w @ r) = add_arg (As w) (sscanf cs r)"
  using scan_s_blank [OF assms] assms(1) by (simp_all add: add_arg_def token_def)

lemma sscanf_number:
  assumes "blank_or_end r"
  shows "sscanf (Cu # cs) (fmt_u k @ r) = add_arg (Au k) (sscanf cs r)"
    and "sscanf (Cu # cs) (CHR '' '' # fmt_u k @ r) = add_arg (Au k) (sscanf cs r)"
    and "sscanf (Cu # cs) (fmt_d (sint k) @ r) = add_arg (Au k) (sscanf cs r)"
    and "sscanf (Cllu # cs) (fmt_u l @ r) = add_arg (Allu l) (sscanf cs r)"
  using scan_u_fmt_u [OF blank_digit [OF assms]] scan_u_fmt_d [OF blank_digit [OF assms]]
    scan_llu_fmt_u [OF blank_digit [OF assms]]
  by (simp_all add: add_arg_def)

lemma sscanf_int:
  assumes "blank_or_end r" "- (2 ^ 31) \<le> i" "i < 2 ^ 31"
  shows "sscanf (Cd # cs) (fmt_d i @ r) = add_arg (Ad i) (sscanf cs r)"
    and "sscanf (Cd # cs) (CHR '' '' # fmt_d i @ r) = add_arg (Ad i) (sscanf cs r)"
  using scan_d_fmt_d [OF blank_digit [OF assms(1)] assms(2,3)] by (simp_all add: add_arg_def)

lemma sscanf_cents:
  assumes "blank_or_end r" "m < 100 * 2 ^ 33"
  shows "sscanf (Clf # cs) (CHR '' '' # fmt_f 6 (cents m) @ r) = add_arg (Alf (cents m)) (sscanf cs r)"
  using scan_cents [OF assms(2) blank_ends_number [OF assms(1)]] by (simp add: add_arg_def)

section \<open>Sizes of the printed values\<close>

lemma length_fmt_d:
  assumes "- (2 ^ 31) \<le> i" "i < 2 ^ 31"
  shows "length (fmt_d i) \<le> 11"
proof -
  have "nat i < 10 ^ Suc 9" "nat (- i) < 10 ^ Suc 9" using assms by simp_all
  from this [THEN length_digits_of] show ?thesis by (simp add: fmt_d_def)
qed

lemma length_fmt_cents:
  assumes "m < 100 * 2 ^ 33"
  shows "length (fmt_f 6 (cents m)) \<le> 17"
proof -
  have "m * 10 ^ 4 div 10 ^ 6 < 10 ^ Suc 9" "m * 10 ^ 4 mod 10 ^ 6 < 10 ^ Suc 5" using assms by simp_all
  from this [THEN length_digits_of] have "length (digits_of (m * 10 ^ 4 div 10 ^ 6)) \<le> Suc 9"
    "length (zero_pad 6 (digits_of (m * 10 ^ 4 mod 10 ^ 6))) = 6"
    by (simp_all add: length_zero_pad)
  then show ?thesis unfolding fmt_f_cents [OF assms] by simp
qed

lemma clean_fmt [simp]: "clean (fmt_u w)" "clean (fmt_d i)"
  by (simp_all add: fmt_u_def fmt_d_def)

lemma clean_fmt_cents: "m < 100 * 2 ^ 33 \<Longrightarrow> clean (fmt_f 6 (cents m))"
  using clean_digits_of by (simp add: fmt_f_cents zero_pad_def clean_def)

section \<open>Fields typed line by line\<close>

text \<open>Answers of one word, without white space, that the validators accept and that leave room for
  the newline. (The validators accept more: tabs, and blanks in an e-mail.)\<close>

definition name_line :: "string \<Rightarrow> bool" where "name_line w \<longleftrightarrow> token 63 w"
definition address_line :: "string \<Rightarrow> bool" where "address_line w \<longleftrightarrow> token 255 w"
definition email_line :: "string \<Rightarrow> bool" where
  "email_line w \<longleftrightarrow> token 63 w \<and> CHR ''@'' \<in> set w \<and> CHR ''.'' \<in> set w"
definition phone_line :: "string \<Rightarrow> bool" where
  "phone_line w \<longleftrightarrow> length w = 10 \<and> list_all (is_digit_in 10) w"
definition credential_line :: "string \<Rightarrow> bool" where "credential_line w \<longleftrightarrow> token 63 w"

lemmas line_defs = name_line_def address_line_def email_line_def phone_line_def credential_line_def

lemma phone_token: "phone_line w \<Longrightarrow> token 16 w"
  using digit_no_space by (auto simp: phone_line_def token_def list_all_iff is_digit_in_def digit_val_def)

lemma validators_accept:
  "name_line w \<Longrightarrow> validate_name_part w = None"
  "address_line w \<Longrightarrow> validate_address w = None"
  "email_line w \<Longrightarrow> validate_email w = None"
  "phone_line w \<Longrightarrow> validate_phone w = None"
  "credential_line w \<Longrightarrow> validate_credential w = None"
  by (auto simp: line_defs token_no_blank validate_name_part_def validate_address_def validate_email_def
      validate_phone_def validate_credential_def validate_not_empty_def size_defs; simp add: token_def)+

lemma typed_fits:
  "name_line w \<Longrightarrow> is_line w \<and> length w + 1 < MAX_FNAME_LEN \<and> length w + 1 < MAX_LNAME_LEN"
  "address_line w \<Longrightarrow> is_line w \<and> length w + 1 < MAX_ADDR_LEN"
  "email_line w \<Longrightarrow> is_line w \<and> length w + 1 < MAX_EMAIL_LEN"
  "phone_line w \<Longrightarrow> is_line w \<and> length w + 1 < MAX_PHONE_LEN"
  "credential_line w \<Longrightarrow> is_line w \<and> length w + 1 < MAX_USERNAME_LEN \<and> length w + 1 < MAX_PASSWORD_LEN"
  using phone_token [of w] by (auto simp: line_defs token_is_line size_defs; simp add: token_def)+

lemma ask_field:
  assumes "stdin_bytes t = line w @ r"
  shows "name_line w \<Longrightarrow> \<exists>t'. ask_fname e p t = Some (w, t') \<and> stdin_bytes t' = r \<and> peer t' = peer t"
    "name_line w \<Longrightarrow> \<exists>t'. ask_lname e p t = Some (w, t') \<and> stdin_bytes t' = r \<and> peer t' = peer t"
    "address_line w \<Longrightarrow> \<exists>t'. ask_address e p t = Some (w, t') \<and> stdin_bytes t' = r \<and> peer t' = peer t"
    "email_line w \<Longrightarrow> \<exists>t'. ask_email e p t = Some (w, t') \<and> stdin_bytes t' = r \<and> peer t' = peer t"
    "phone_line w \<Longrightarrow> \<exists>t'. ask_phone e p t = Some (w, t') \<and> stdin_bytes t' = r \<and> peer t' = peer t"
    "credential_line w \<Longrightarrow> \<exists>t'. ask_username e p t = Some (w, t') \<and> stdin_bytes t' = r \<and> peer t' = peer t"
    "credential_line w \<Longrightarrow> \<exists>t'. ask_password e p t = Some (w, t') \<and> stdin_bytes t' = r \<and> peer t' = peer t"
  using assms unfolding ask_fname_def ask_lname_def ask_address_def ask_email_def ask_phone_def
    ask_username_def ask_password_def
  by (auto intro!: ask_line dest: typed_fits validators_accept)

lemma clear_stdin_sel [simp]:
  "stdin_bytes (clear_stdin t) = drop 1 (dropWhile (\<lambda>c. c \<noteq> LF) (stdin_bytes t))"
  "peer (clear_stdin t) = peer t"
  by (simp_all add: clear_stdin_def)

lemma LF_no_digit: "stops (is_digit_in 10) (LF # r)"
  by (simp add: is_digit_in_def digit_val_def)

lemma scanf_d_line:
  assumes "- (2 ^ 31) \<le> i" "i < 2 ^ 31" "stdin_bytes t = line (fmt_d i) @ r"
  shows "scanf_d t = (Some i, t\<lparr>stdin_bytes := LF # r\<rparr>)"
  using scan_d_fmt_d [OF LF_no_digit assms(1,2), of r] assms(3)
  by (simp add: scanf_d_def line_def)

lemma ask_age_line:
  assumes "- (2 ^ 31) \<le> i" "i < 2 ^ 31" "stdin_bytes t = line (fmt_d i) @ r"
  shows "\<exists>t'. ask_age e p t = (i, t') \<and> stdin_bytes t' = r \<and> peer t' = peer t"
  using scanf_d_line [OF assms(1,2), of "printf p t" r] assms(3)
  by (simp add: ask_age_def ask_int_def assigned_def)

definition customer_lines ::
  "string \<Rightarrow> string \<Rightarrow> int \<Rightarrow> string \<Rightarrow> string \<Rightarrow> string \<Rightarrow> string \<Rightarrow> string \<Rightarrow> string" where
  \<comment> \<open>the answers to the prompts of \<open>Add New Customer\<close>, a line each\<close>
  "customer_lines fname lname a ad em ph un pw = line fname @ line lname @ line (fmt_d a) @ line ad @
     line em @ line ph @ line un @ line pw"

lemma add_customer_typed:
  assumes "name_line fname" "name_line lname" "- (2 ^ 31) \<le> a" "a < 2 ^ 31" "address_line ad"
    "validate_email em = None" "is_line em" "length em + 1 < MAX_EMAIL_LEN"
    "phone_line ph" "credential_line un" "credential_line pw"
    "stdin_bytes t = customer_lines fname lname a ad em ph un pw @ r"
  shows "\<exists>t'. add_customer_action e t =
      Some (Send (mk_request ''ADD_CUSTOMER'' (add_customer_payload fname lname a ad em ph un pw)), t') \<and>
    stdin_bytes t' = r \<and> peer t' = peer t"
proof -
  note l = assms(12) [unfolded customer_lines_def append_assoc]
  obtain t1 where 1: "ask_fname e ''Enter first name (no spaces)'' t = Some (fname, t1)"
    "stdin_bytes t1 = line lname @ line (fmt_d a) @ line ad @ line em @ line ph @ line un @ line pw @ r"
    "peer t1 = peer t" using ask_field(1) [OF l assms(1)] by blast
  obtain t2 where 2: "ask_lname e ''Enter last name (no spaces)'' t1 = Some (lname, t2)"
    "stdin_bytes t2 = line (fmt_d a) @ line ad @ line em @ line ph @ line un @ line pw @ r"
    "peer t2 = peer t" using ask_field(2) [OF 1(2) assms(2)] 1(3) by metis
  obtain t3 where 3: "ask_age e ''Enter age: '' t2 = (a, t3)"
    "stdin_bytes t3 = line ad @ line em @ line ph @ line un @ line pw @ r"
    "peer t3 = peer t" using ask_age_line [OF assms(3,4) 2(2)] 2(3) by metis
  obtain t4 where 4:
    "ask_address e (''Enter address (no spaces, use '' @ SQ @ ''_'' @ SQ @ '')'') t3 = Some (ad, t4)"
    "stdin_bytes t4 = line em @ line ph @ line un @ line pw @ r"
    "peer t4 = peer t" using ask_field(3) [OF 3(2) assms(5)] 3(3) by metis
  obtain t5 where 5: "ask_email e ''Enter email'' t4 = Some (em, t5)"
    "stdin_bytes t5 = line ph @ line un @ line pw @ r"
    "peer t5 = peer t" using ask_line [where v = validate_email, OF assms(7,8,6) 4(2)] 4(3) unfolding ask_email_def by metis
  obtain t6 where 6: "ask_phone e ''Enter phone (10 digits)'' t5 = Some (ph, t6)"
    "stdin_bytes t6 = line un @ line pw @ r"
    "peer t6 = peer t" using ask_field(5) [OF 5(2) assms(9)] 5(3) by metis
  obtain t7 where 7: "ask_username e ''Enter desired username (no spaces)'' t6 = Some (un, t7)"
    "stdin_bytes t7 = line pw @ r"
    "peer t7 = peer t" using ask_field(6) [OF 6(2) assms(10)] 6(3) by metis
  obtain t8 where 8: "ask_password e ''Enter desired password (no spaces)'' t7 = Some (pw, t8)"
    "stdin_bytes t8 = r" "peer t8 = peer t" using ask_field(7) [OF 7(2) assms(11)] 7(3) by metis
  show ?thesis
    unfolding add_customer_action_def 1(1) 2(1) 3(1) 4(1) 5(1) 6(1) 7(1) 8(1) bind.bind_lunit split
    using 8(2,3) by blast
qed

section \<open>The payloads at the server\<close>

lemma typed_tokens:
  "name_line w \<Longrightarrow> token MAX_FNAME_LEN w" "name_line w \<Longrightarrow> token MAX_LNAME_LEN w"
  "address_line w \<Longrightarrow> token MAX_ADDR_LEN w" "email_line w \<Longrightarrow> token MAX_EMAIL_LEN w"
  "phone_line w \<Longrightarrow> token MAX_PHONE_LEN w" "credential_line w \<Longrightarrow> token MAX_USERNAME_LEN w"
  "credential_line w \<Longrightarrow> token MAX_PASSWORD_LEN w"
  using phone_token [of w] by (auto simp: line_defs size_defs elim: token_mono)

lemma sscanf_last: "token n w \<Longrightarrow> sscanf [Cs n] (CHR '' '' # w) = Inr [As w]"
  using sscanf_word(2) [of n w "[]" "[]"] by simp

lemma scan_add_customer:
  assumes "name_line fname" "name_line lname" "- (2 ^ 31) \<le> a" "a < 2 ^ 31" "address_line ad"
    "email_line em" "phone_line ph" "credential_line un" "credential_line pw"
  shows "sscanf [Cs MAX_FNAME_LEN, Cs MAX_LNAME_LEN, Cd, Cs MAX_ADDR_LEN, Cs MAX_EMAIL_LEN,
      Cs MAX_PHONE_LEN, Cs MAX_USERNAME_LEN, Cs MAX_PASSWORD_LEN]
      (add_customer_payload fname lname a ad em ph un pw) =
    Inr [As fname, As lname, Ad a, As ad, As em, As ph, As un, As pw]"
  using assms
  by (simp add: add_customer_payload_def sscanf_word sscanf_int sscanf_last typed_tokens del: sscanf.simps)

lemma scan_modify_payload:
  assumes "name_line fname" "name_line lname" "- (2 ^ 31) \<le> a" "a < 2 ^ 31" "address_line ad"
    "email_line em" "phone_line ph"
  shows "sscanf [Cu, Cd, Cs MAX_FNAME_LEN, Cs MAX_LNAME_LEN, Cs MAX_ADDR_LEN, Cs MAX_EMAIL_LEN,
      Cs MAX_PHONE_LEN] (modify_payload k a fname lname ad em ph) =
    Inr [Au k, Ad a, As fname, As lname, As ad, As em, As ph]"
  using assms
  by (simp add: modify_payload_def sscanf_number sscanf_word sscanf_int sscanf_last typed_tokens
      del: sscanf.simps)

lemma payload_clean:
  assumes "clean fname" "clean lname" "clean ad" "clean em" "clean ph" "clean un" "clean pw"
  shows "clean (add_customer_payload fname lname a ad em ph un pw)"
  using assms by (simp add: add_customer_payload_def)

text \<open>The new details of a user, for both menus that ask for them.\<close>

lemma modify_details_typed:
  assumes "name_line fname" "name_line lname" "- (2 ^ 31) \<le> a" "a < 2 ^ 31" "address_line ad"
    "email_line em" "phone_line ph"
    "stdin_bytes t = line fname @ line lname @ line (fmt_d a) @ line ad @ line em @ line ph @ r"
  shows "\<exists>t'. modify_details e op k t =
      Some (Send (mk_request op (modify_payload k a fname lname ad em ph)), t') \<and>
    stdin_bytes t' = r \<and> peer t' = peer t"
proof -
  obtain t1 where 1: "ask_fname e ''Enter new first name (no spaces)'' t = Some (fname, t1)"
    "stdin_bytes t1 = line lname @ line (fmt_d a) @ line ad @ line em @ line ph @ r" "peer t1 = peer t"
    using ask_field(1) [OF assms(8,1)] by blast
  obtain t2 where 2: "ask_lname e ''Enter new last name (no spaces)'' t1 = Some (lname, t2)"
    "stdin_bytes t2 = line (fmt_d a) @ line ad @ line em @ line ph @ r" "peer t2 = peer t"
    using ask_field(2) [OF 1(2) assms(2)] 1(3) by metis
  obtain t3 where 3: "ask_age e ''Enter new age: '' t2 = (a, t3)"
    "stdin_bytes t3 = line ad @ line em @ line ph @ r" "peer t3 = peer t"
    using ask_age_line [OF assms(3,4) 2(2)] 2(3) by metis
  obtain t4 where 4:
    "ask_address e (''Enter new address (no spaces, use '' @ SQ @ ''_'' @ SQ @ '')'') t3 = Some (ad, t4)"
    "stdin_bytes t4 = line em @ line ph @ r" "peer t4 = peer t"
    using ask_field(3) [OF 3(2) assms(5)] 3(3) by metis
  obtain t5 where 5: "ask_email e ''Enter new email'' t4 = Some (em, t5)"
    "stdin_bytes t5 = line ph @ r" "peer t5 = peer t" using ask_field(4) [OF 4(2) assms(6)] 4(3) by metis
  obtain t6 where 6: "ask_phone e ''Enter new phone (10 digits)'' t5 = Some (ph, t6)"
    "stdin_bytes t6 = r" "peer t6 = peer t" using ask_field(5) [OF 5(2) assms(7)] 5(3) by metis
  show ?thesis
    by (intro exI [of _ t6] conjI 6(2,3))
      (simp only: modify_details_def 1(1) 2(1) 3(1) 4(1) 5(1) 6(1) bind.bind_lunit split)
qed

lemma modify_payload_clean:
  assumes "clean fname" "clean lname" "clean ad" "clean em" "clean ph"
  shows "clean (modify_payload k a fname lname ad em ph)"
  using assms by (simp add: modify_payload_def)

lemma typed_lengths:
  "name_line w \<Longrightarrow> length w < 63" "address_line w \<Longrightarrow> length w < 255" "email_line w \<Longrightarrow> length w < 63"
  "phone_line w \<Longrightarrow> length w = 10" "credential_line w \<Longrightarrow> length w < 63"
  by (simp_all add: line_defs token_def)

lemma add_customer_payload_fits:
  assumes "name_line fname" "name_line lname" "- (2 ^ 31) \<le> a" "a < 2 ^ 31" "address_line ad"
    "length em < 63" "phone_line ph" "credential_line un" "credential_line pw"
  shows "length (add_customer_payload fname lname a ad em ph un pw) < MAX_MSG_LEN"
  using typed_lengths(1) [OF assms(1)] typed_lengths(1) [OF assms(2)] typed_lengths(2) [OF assms(5)]
    typed_lengths(4) [OF assms(7)] typed_lengths(5) [OF assms(8)] typed_lengths(5) [OF assms(9)]
    length_fmt_d [OF assms(3,4)] assms(6)
  by (simp add: add_customer_payload_def size_defs)

lemma line_clean:
  "name_line w \<Longrightarrow> clean w" "address_line w \<Longrightarrow> clean w" "email_line w \<Longrightarrow> clean w"
  "phone_line w \<Longrightarrow> clean w" "credential_line w \<Longrightarrow> clean w"
  using token_clean phone_token by (auto simp: line_defs)

lemma modify_payload_fits:
  assumes "name_line fname" "name_line lname" "- (2 ^ 31) \<le> a" "a < 2 ^ 31" "address_line ad"
    "email_line em" "phone_line ph"
  shows "length (modify_payload k a fname lname ad em ph) < MAX_MSG_LEN"
    "clean (modify_payload k a fname lname ad em ph)"
  using typed_lengths(1) [OF assms(1)] typed_lengths(1) [OF assms(2)] typed_lengths(2) [OF assms(5)]
    typed_lengths(3) [OF assms(6)] typed_lengths(4) [OF assms(7)] length_fmt_d [OF assms(3,4)]
    length_fmt_u [of k] line_clean assms
  by (simp_all add: modify_payload_def size_defs)

text \<open>The second of two numbers: \<^verbatim>\<open>scanf\<close> skips the newline the first one left.\<close>

lemma scan_skips_newline: "scan_d (LF # s) = scan_d s"
  by (simp add: scan_d_def scan_int_def skip_ws_def is_space_def)

lemma scanf_d_next:
  assumes "- (2 ^ 31) \<le> i" "i < 2 ^ 31" "stdin_bytes t = LF # line (fmt_d i) @ r"
  shows "scanf_d t = (Some i, t\<lparr>stdin_bytes := LF # r\<rparr>)"
  using scan_d_fmt_d [OF LF_no_digit assms(1,2), of r] assms(3)
  by (simp add: scanf_d_def scan_skips_newline line_def)

lemma scanf_llu_line:
  assumes "stdin_bytes t = line (fmt_u l) @ r"
  shows "scanf_llu t = (Some l, t\<lparr>stdin_bytes := LF # r\<rparr>)"
  using scan_llu_fmt_u [OF LF_no_digit, of l r] assms by (simp add: scanf_llu_def line_def)

text \<open>An e-mail with a blank in it shifts the fields behind it: its second half is scanned
  into the buffer of the phone number.\<close>

lemma scan_blank_email:
  assumes "name_line fname" "name_line lname" "- (2 ^ 31) \<le> a" "a < 2 ^ 31" "address_line ad"
    "token MAX_EMAIL_LEN e1" "list_all (\<lambda>c. \<not> is_space c) e2" "MAX_PHONE_LEN \<le> length e2"
  shows "\<exists>s. sscanf [Cs MAX_FNAME_LEN, Cs MAX_LNAME_LEN, Cd, Cs MAX_ADDR_LEN, Cs MAX_EMAIL_LEN,
      Cs MAX_PHONE_LEN, Cs MAX_USERNAME_LEN, Cs MAX_PASSWORD_LEN]
      (add_customer_payload fname lname a ad (e1 @ '' '' @ e2) ph un pw) = Inl (Buffer_overflow s)"
proof -
  let ?rest = "CHR '' '' # e2 @ CHR '' '' # ph @ CHR '' '' # un @ CHR '' '' # pw"
  have "e2 \<noteq> []" using assms(8) by (auto simp: size_defs)
  then have "scan_s (e2 @ CHR '' '' # ph @ CHR '' '' # un @ CHR '' '' # pw) =
      Some (e2, CHR '' '' # ph @ CHR '' '' # un @ CHR '' '' # pw)"
    using assms(7) by (intro scan_s_token) simp_all
  then have over: "sscanf (Cs MAX_PHONE_LEN # cs) ?rest = Inl (Buffer_overflow ?rest)" for cs
    using assms(8) by simp
  from assms show ?thesis
    by (simp add: add_customer_payload_def sscanf_word sscanf_int typed_tokens over add_arg_def
        del: sscanf.simps)
qed

end
