(* ===== verification/Dialogue.thy ===== *)
theory Dialogue
  imports Keyboard Requests
begin

text \<open>
  Properties of the client, alone and together with the server: requests carry what was
  typed, what the validators miss, and where a user gets stuck.
\<close>

section \<open>Amounts\<close>

lemma amount_line:
  assumes "m < 100 * 2 ^ 33"
  shows "is_line (amount_text m)" "length (amount_text m) < 127"
proof -
  have d: "is_digit_in 10 c \<Longrightarrow> c \<noteq> LF \<and> c \<noteq> NUL" for c
    by (auto simp: is_digit_in_def digit_val_def)
  show "is_line (amount_text m)"
    using digits_of_digits [of "m div 100"] zero_pad_digits [of 2 "m mod 100"] d
    by (auto simp: is_line_def amount_text_def list_all_iff)
  have "m div 100 < 10 ^ Suc 9" "m mod 100 < 10 ^ Suc 1" using assms by simp_all
  from this [THEN length_digits_of] show "length (amount_text m) < 127"
    by (simp add: amount_text_def length_zero_pad)
qed

lemma ask_amount_typed:
  assumes "0 < m" "m < 100 * 2 ^ 33" "stdin_bytes t = line (amount_text m) @ r"
  shows "\<exists>t'. ask_amount e p t = Some (cents m, t') \<and> stdin_bytes t' = r \<and> peer t' = peer t"
  by (rule ask_amount_line) (use amount_line [OF assms(2)] typed_amount [OF assms(1,2)] assms(3) in auto)

lemma money_request:
  assumes "m < 100 * 2 ^ 33" "clean op" "length op \<le> 64" "req = mk_request op (fmt_u k @ '' '' @ fmt_f 6 (cents m))"
  shows "cstr (req_op req) = op"
    "sscanf [Cu, Clf] (cstr (req_payload req)) = Inr [Au k, Alf (cents m)]"
proof -
  have "length (fmt_u k @ '' '' @ fmt_f 6 (cents m)) < MAX_MSG_LEN"
    using length_fmt_u [of k] length_fmt_cents [OF assms(1)] by (simp add: size_defs)
  then have "cstr (req_op req) = op" "cstr (req_payload req) = fmt_u k @ '' '' @ fmt_f 6 (cents m)"
    using assms clean_fmt_cents [OF assms(1)] by (simp_all add: mk_request_sel)
  moreover have "sscanf [Clf] (CHR '' '' # fmt_f 6 (cents m)) = Inr [Alf (cents m)]"
    using sscanf_cents [OF _ assms(1), of "[]" "[]"] by simp
  ultimately show "cstr (req_op req) = op"
    "sscanf [Cu, Clf] (cstr (req_payload req)) = Inr [Au k, Alf (cents m)]"
    by (simp_all add: sscanf_number del: sscanf.simps)
qed

lemma transfer_request:
  assumes "m < 100 * 2 ^ 33" "req = mk_request ''TRANSFER'' (fmt_u k @ '' '' @ fmt_u j @ '' '' @ fmt_f 6 (cents m))"
  shows "cstr (req_op req) = ''TRANSFER''"
    "sscanf [Cu, Cu, Clf] (cstr (req_payload req)) = Inr [Au k, Au j, Alf (cents m)]"
proof -
  have "length (fmt_u k @ '' '' @ fmt_u j @ '' '' @ fmt_f 6 (cents m)) < MAX_MSG_LEN"
    using length_fmt_u [of k] length_fmt_u [of j] length_fmt_cents [OF assms(1)] by (simp add: size_defs)
  then have "cstr (req_op req) = ''TRANSFER''"
    "cstr (req_payload req) = fmt_u k @ '' '' @ fmt_u j @ '' '' @ fmt_f 6 (cents m)"
    using assms(2) clean_fmt_cents [OF assms(1)] by (simp_all add: mk_request_sel)
  moreover have "sscanf [Clf] (CHR '' '' # fmt_f 6 (cents m)) = Inr [Alf (cents m)]"
    using sscanf_cents [OF _ assms(1), of "[]" "[]"] by simp
  ultimately show "cstr (req_op req) = ''TRANSFER''"
    "sscanf [Cu, Cu, Clf] (cstr (req_payload req)) = Inr [Au k, Au j, Alf (cents m)]"
    by (simp_all add: sscanf_number del: sscanf.simps)
qed

lemma cstr_drop: "n \<le> length (cstr b) \<Longrightarrow> cstr (drop n b) = drop n (cstr b)"
proof (induction n arbitrary: b)
  case (Suc n)
  then show ?case by (cases b) (auto simp: cstr_def split: if_splits)
qed simp

lemma atoi_digits: "n < 2 ^ 31 \<Longrightarrow> atoi (digits_of n) = of_nat n"
  using scan_d_fmt_d [of "[]" "int n"] by (simp add: atoi_def fmt_d_def)

lemma ask_account_typed:
  assumes "n < 2 ^ 31" "stdin_bytes t = line (''AC'' @ digits_of n) @ r"
  shows "\<exists>t'. ask_account e p t = Some (of_nat n, t') \<and> stdin_bytes t' = r \<and> peer t' = peer t"
proof -
  have "n < 10 ^ Suc 9" using assms(1) by simp
  then have len: "length (''AC'' @ digits_of n) + 1 < 32" using length_digits_of [of n 9] by simp
  have l: "is_line (''AC'' @ digits_of n)"
    using digits_of_digits [of n] by (auto simp: is_line_def list_all_iff is_digit_in_def digit_val_def)
  have "stdin_bytes t = concat (map line []) @ line (''AC'' @ digits_of n) @ r" using assms(2) by simp
  from read_first_line [OF _ l len _ this, of validate_not_empty p "stk_arr e ''acct_str''"] obtain b t' where
    b: "read_validated_string p (stk_arr e ''acct_str'') 32 validate_not_empty t = Some (b, t')"
    "cstr b = ''AC'' @ digits_of n" "stdin_bytes t' = r" "peer t' = peer t"
    by (auto simp: validate_not_empty_def)
  have "cstr (drop 2 b) = digits_of n" using b(2) cstr_drop [of 2 b] by simp
  with b atoi_digits [OF assms(1)] show ?thesis by (simp add: ask_account_def account_number_def)
qed

definition typing :: "string \<Rightarrow> 'w \<Rightarrow> 'w tty" where
  \<comment> \<open>a terminal with that input\<close>
  "typing i w = \<lparr>stdin_bytes = i, stdout_text = [], peer = w\<rparr>"

lemma typing_sel [simp]: "stdin_bytes (typing i w) = i" "peer (typing i w) = w"
  by (simp_all add: typing_def)

lemmas routed = dispatch_def customer_routes_def employee_routes_def manager_routes_def admin_routes_def
  with_args_def arg_u_def arg_lf_def arg_s_def arg_d_def

lemma dispatch_money:
  assumes "sscanf [Cu, Clf] pl = Inr [Au k, Alf d]"
  shows "dispatch e ''DEPOSIT'' pl s = served (deposit_money e k d s)"
    "dispatch e ''WITHDRAW'' pl s = served (withdraw_money e k d s)"
    "dispatch e ''APPLY_LOAN'' pl s = served (apply_loan e k d s)"
  using assms by (simp_all add: routed del: sscanf.simps)

text \<open>
  An amount typed with two decimals arrives unchanged: below \<open>2 ^ 33\<close> the request that
  the customer menu builds for a deposit, a withdrawal or a loan makes the server run that
  operation for this user with exactly the double nearest to the typed amount, although it
  travels as text with six decimals.
\<close>

theorem money_arrives_as_typed:
  assumes "0 < m" "m < 100 * 2 ^ 33" "stdin_bytes t = line (amount_text m) @ r"
  shows "(\<exists>req t'. customer_choice e k 2 t = Some (Send req, t') \<and> stdin_bytes t' = r \<and>
      dispatch es (cstr (req_op req)) (cstr (req_payload req)) s = served (deposit_money es k (cents m) s)) \<and>
    (\<exists>req t'. customer_choice e k 3 t = Some (Send req, t') \<and> stdin_bytes t' = r \<and>
      dispatch es (cstr (req_op req)) (cstr (req_payload req)) s = served (withdraw_money es k (cents m) s)) \<and>
    (\<exists>req t'. customer_choice e k 5 t = Some (Send req, t') \<and> stdin_bytes t' = r \<and>
      dispatch es (cstr (req_op req)) (cstr (req_payload req)) s = served (apply_loan es k (cents m) s))"
proof -
  define q where "q op = mk_request op (fmt_u k @ '' '' @ fmt_f 6 (cents m))" for op
  have args: "sscanf [Cu, Clf] (cstr (req_payload (q op))) = Inr [Au k, Alf (cents m)]"
    "cstr (req_op (q op)) = op" if "clean op" "length op \<le> 64" for op
    using money_request [OF assms(2) that q_def] by simp_all
  have routes:
    "dispatch es (cstr (req_op (q ''DEPOSIT''))) (cstr (req_payload (q ''DEPOSIT''))) s =
      served (deposit_money es k (cents m) s)"
    "dispatch es (cstr (req_op (q ''WITHDRAW''))) (cstr (req_payload (q ''WITHDRAW''))) s =
      served (withdraw_money es k (cents m) s)"
    "dispatch es (cstr (req_op (q ''APPLY_LOAN''))) (cstr (req_payload (q ''APPLY_LOAN''))) s =
      served (apply_loan es k (cents m) s)"
    by (simp_all add: args dispatch_money del: sscanf.simps)
  obtain t1 t2 t3 where "ask_amount e ''Enter deposit amount'' t = Some (cents m, t1)" "stdin_bytes t1 = r"
    "ask_amount e ''Enter withdrawal amount'' t = Some (cents m, t2)" "stdin_bytes t2 = r"
    "ask_amount e ''Enter loan amount'' t = Some (cents m, t3)" "stdin_bytes t3 = r"
    using ask_amount_typed [OF assms, of e] by metis
  then have "customer_choice e k 2 t = Some (Send (q ''DEPOSIT''), t1)" "stdin_bytes t1 = r"
    "customer_choice e k 3 t = Some (Send (q ''WITHDRAW''), t2)" "stdin_bytes t2 = r"
    "customer_choice e k 5 t = Some (Send (q ''APPLY_LOAN''), t3)" "stdin_bytes t3 = r"
    by (simp_all add: customer_choice_def q_def)
  with routes show ?thesis by blast
qed

theorem money_arrives_as_typed_witness:
  "\<exists>req t'. customer_choice demo_env 1001 2 (typing (''1.50'' @ [LF]) ()) = Some (Send req, t') \<and>
     dispatch demo_env (cstr (req_op req)) (cstr (req_payload req)) demo_st =
       served (deposit_money demo_env 1001 (cents 150) demo_st)"
proof -
  have "amount_text 150 = ''1.50''" by code_simp
  then have t: "stdin_bytes (typing (''1.50'' @ [LF]) ()) = line (amount_text 150) @ []"
    by (simp only: typing_sel line_def append_Nil2)
  have "(0::nat) < 150" "(150::nat) < 100 * 2 ^ 33" by simp_all
  from money_arrives_as_typed [OF this t] show ?thesis by blast
qed

text \<open>
  The same for a transfer: a recipient typed as \<open>AC\<close> and digits, and an amount with two
  decimals, make the server run the transfer between exactly these accounts.
\<close>

theorem transfer_arrives_as_typed:
  assumes "0 < m" "m < 100 * 2 ^ 33" "n < 2 ^ 31"
    "stdin_bytes t = line (''AC'' @ digits_of n) @ line (amount_text m) @ r"
  shows "\<exists>req t'. customer_choice e k 4 t = Some (Send req, t') \<and> stdin_bytes t' = r \<and>
      dispatch es (cstr (req_op req)) (cstr (req_payload req)) s =
        served (transfer_funds es k (of_nat n) (cents m) s)"
proof -
  have "stdin_bytes (printf ''Enter recipient Account No (e.g., AC1005): '' t) =
      line (''AC'' @ digits_of n) @ line (amount_text m) @ r" using assms(4) by simp
  from ask_account_typed [OF assms(3) this, of e "[]"] obtain t1 where
    1: "ask_account e [] (printf ''Enter recipient Account No (e.g., AC1005): '' t) = Some (of_nat n, t1)"
    "stdin_bytes t1 = line (amount_text m) @ r" by blast
  from ask_amount_typed [OF assms(1,2) 1(2), of e "''Enter amount''"] obtain t2 where
    2: "ask_amount e ''Enter amount'' t1 = Some (cents m, t2)" "stdin_bytes t2 = r" by blast
  show ?thesis
    using 1(1) 2 transfer_request [OF assms(2) refl, of k "of_nat n"]
    by (simp add: customer_choice_def routed del: sscanf.simps)
qed

theorem transfer_arrives_as_typed_witness:
  "\<exists>req t'. customer_choice demo_env 1001 4 (typing (''AC1002'' @ [LF] @ ''0.50'' @ [LF]) ()) =
       Some (Send req, t') \<and>
     dispatch demo_env (cstr (req_op req)) (cstr (req_payload req)) demo_st =
       served (transfer_funds demo_env 1001 1002 (cents 50) demo_st)"
proof -
  have "amount_text 50 = ''0.50''" "digits_of 1002 = ''1002''" by code_simp+
  then have t: "stdin_bytes (typing (''AC1002'' @ [LF] @ ''0.50'' @ [LF]) ()) =
      line (''AC'' @ digits_of 1002) @ line (amount_text 50) @ []"
    by (simp only: typing_sel line_def append_Nil2 append_assoc) simp
  have "(0::nat) < 50" "(50::nat) < 100 * 2 ^ 33" "(1002::nat) < 2 ^ 31" by simp_all
  from transfer_arrives_as_typed [OF this t, of demo_env 1001 demo_env demo_st] show ?thesis by simp blast
qed

text \<open>
  A customer is created as typed: when the answers to \<open>Add New Customer\<close> contain no
  white space, the server runs \<open>add_new_customer\<close> with exactly the typed names, age, address,
  e-mail, phone and credentials, and no buffer of the server overflows.
\<close>

theorem customer_arrives_as_typed:
  assumes "name_line fname" "name_line lname" "- (2 ^ 31) \<le> a" "a < 2 ^ 31" "address_line ad"
    "email_line em" "phone_line ph" "credential_line un" "credential_line pw"
    "stdin_bytes t = customer_lines fname lname a ad em ph un pw @ r"
  shows "\<exists>req t'. employee_choice e k 1 t = Some (Send req, t') \<and> stdin_bytes t' = r \<and>
    dispatch es (cstr (req_op req)) (cstr (req_payload req)) s =
      served (add_new_customer es (set_details fname lname a ad em ph (stk_user es)) (stk_account es) un pw s)"
proof -
  from add_customer_typed [OF assms(1-5) _ _ _ assms(7-10)] obtain t' where
    "add_customer_action e t =
      Some (Send (mk_request ''ADD_CUSTOMER'' (add_customer_payload fname lname a ad em ph un pw)), t')"
    "stdin_bytes t' = r"
    using typed_fits(3) [OF assms(6)] validators_accept(3) [OF assms(6)] by blast
  moreover have "cstr (req_op (mk_request ''ADD_CUSTOMER'' (add_customer_payload fname lname a ad em ph un pw)))
      = ''ADD_CUSTOMER''"
    "cstr (req_payload (mk_request ''ADD_CUSTOMER'' (add_customer_payload fname lname a ad em ph un pw)))
      = add_customer_payload fname lname a ad em ph un pw"
    using add_customer_payload_fits [OF assms(1-5) _ assms(7-9)] typed_lengths(3) [OF assms(6)]
      payload_clean line_clean assms
    by (simp_all add: mk_request_sel)
  ultimately show ?thesis
    using scan_add_customer [OF assms(1-9)]
    by (simp add: employee_choice_def routed del: sscanf.simps)
qed

theorem customer_arrives_as_typed_witness:
  "\<exists>req t'. employee_choice demo_env 1003 1
      (typing (customer_lines ''Zoe'' ''Ray'' 41 ''Hill_4'' ''z@b.in'' ''5550009999'' ''zoe'' ''pw'') ()) =
      Some (Send req, t') \<and>
    dispatch demo_env (cstr (req_op req)) (cstr (req_payload req)) demo_st =
      served (add_new_customer demo_env (set_details ''Zoe'' ''Ray'' 41 ''Hill_4'' ''z@b.in'' ''5550009999''
        (stk_user demo_env)) (stk_account demo_env) ''zoe'' ''pw'' demo_st)"
proof -
  have w: "name_line ''Zoe''" "name_line ''Ray''" "- (2 ^ 31) \<le> (41 :: int)" "(41 :: int) < 2 ^ 31"
    "address_line ''Hill_4''" "email_line ''z@b.in''" "phone_line ''5550009999''"
    "credential_line ''zoe''" "credential_line ''pw''"
    by (simp_all add: line_defs token_def is_space_def is_digit_in_def digit_val_def)
  show ?thesis
    using customer_arrives_as_typed [OF w, of _ "[]"] by (metis typing_sel(1) append_Nil2)
qed

text \<open>
  C33: The validators miss a blank inside an e-mail: one whose second half has at least
  \<open>MAX_PHONE_LEN\<close> bytes is accepted by the client and overflows the phone buffer of the
  server's thread.
\<close>

theorem blank_email_overflows_server:
  assumes "name_line fname" "name_line lname" "- (2 ^ 31) \<le> a" "a < 2 ^ 31" "address_line ad"
    "token 63 e1" "is_line e2" "list_all (\<lambda>c. \<not> is_space c) e2" "MAX_PHONE_LEN \<le> length e2"
    "length e1 + 1 + length e2 < 63" "CHR ''@'' \<in> set e1" "CHR ''.'' \<in> set e2"
    "phone_line ph" "credential_line un" "credential_line pw"
    "stdin_bytes t = customer_lines fname lname a ad (e1 @ '' '' @ e2) ph un pw @ r"
  shows "\<exists>req t' s. employee_choice e k 1 t = Some (Send req, t') \<and>
    handle_request es (cstr (req_op req)) (cstr (req_payload req)) cur v = Inl (Buffer_overflow s)"
proof -
  let ?em = "e1 @ '' '' @ e2"
  let ?pl = "add_customer_payload fname lname a ad ?em ph un pw"
  have em: "is_line ?em" "length ?em + 1 < MAX_EMAIL_LEN" "validate_email ?em = None"
    using assms(7,10-12) token_is_line [OF assms(6)]
    by (auto simp: is_line_def size_defs validate_email_def validate_not_empty_def)
  from add_customer_typed [OF assms(1-5) em(3,1,2) assms(13-16)] obtain t' where
    "add_customer_action e t = Some (Send (mk_request ''ADD_CUSTOMER'' ?pl), t')" by blast
  moreover have "cstr (req_op (mk_request ''ADD_CUSTOMER'' ?pl)) = ''ADD_CUSTOMER''"
    "cstr (req_payload (mk_request ''ADD_CUSTOMER'' ?pl)) = ?pl"
    using add_customer_payload_fits [OF assms(1-5) _ assms(13-15), of ?em] assms(10)
      payload_clean line_clean assms is_line_clean [OF em(1)]
    by (simp_all add: mk_request_sel)
  moreover have "token MAX_EMAIL_LEN e1" using token_mono [OF assms(6)] by (simp add: size_defs)
  from scan_blank_email [OF assms(1-5) this assms(8,9)] obtain s where
    "sscanf [Cs MAX_FNAME_LEN, Cs MAX_LNAME_LEN, Cd, Cs MAX_ADDR_LEN, Cs MAX_EMAIL_LEN,
      Cs MAX_PHONE_LEN, Cs MAX_USERNAME_LEN, Cs MAX_PASSWORD_LEN] ?pl = Inl (Buffer_overflow s)" by blast
  ultimately show ?thesis
    by (intro exI [of _ "mk_request ''ADD_CUSTOMER'' ?pl"] exI [of _ t'] exI [of _ s])
      (simp add: employee_choice_def handle_request_def routed del: sscanf.simps)
qed

text \<open>
  A first name that is too long is not reported: the first 63 bytes are taken as the
  first name and the rest of the line answers the question for the last name.
\<close>

lemma read_long_line:
  assumes "is_line l" "1 < sz" "sz - 1 \<le> length l" "v (take (sz - 1) l) = None" "stdin_bytes t = l @ r"
  shows "\<exists>t'. ask e x prompt sz v t = Some (take (sz - 1) l, t') \<and> stdin_bytes t' = drop (sz - 1) l @ r"
proof -
  let ?b = "take (sz - 1) l @ NUL # drop (Suc (sz - 1)) (stk_arr e x)"
  have "l \<noteq> []" using assms(2,3) by auto
  then have "fgets (stk_arr e x) sz (l @ r) = (?b, drop (sz - 1) l @ r)"
    using fgets_line_long [OF assms(3,1)] assms(3) by (simp add: fgets_def min_def)
  moreover have "is_line (take (sz - 1) l)"
    using assms(1) by (auto simp: is_line_def list_all_iff dest: in_set_takeD)
  then have "cstr (chomp ?b) = take (sz - 1) l" by (rule chomp_line) simp
  ultimately show ?thesis
    using assms(4,5) by (simp add: ask_def read_validated_string.simps [of prompt "stk_arr e x"])
qed

theorem overlong_name_spills:
  assumes "token 126 w" "64 \<le> length w" "stdin_bytes t = line w @ r"
  shows "\<exists>t1 t2. ask_fname e p t = Some (take 63 w, t1) \<and> ask_lname e q t1 = Some (drop 63 w, t2) \<and>
    stdin_bytes t2 = r"
proof -
  have "list_all P w \<Longrightarrow> list_all P (drop 63 w)" for P
    by (simp add: list_all_iff) (meson in_set_dropD)
  then have last: "name_line (drop 63 w)"
    using assms(1,2) unfolding name_line_def token_def by auto
  have "CHR '' '' \<notin> set (take 63 w)"
    using token_no_blank [OF assms(1)] by (meson in_set_takeD)
  moreover have "take 63 w \<noteq> []" "length (take 63 w) < 64" using assms(2) by auto
  ultimately have first: "validate_name_part (take 63 w) = None"
    by (simp add: validate_name_part_def validate_not_empty_def size_defs)
  have "stdin_bytes t = w @ LF # r" using assms(3) by (simp add: line_def)
  then have "\<exists>t1. ask_fname e p t = Some (take 63 w, t1) \<and> stdin_bytes t1 = drop 63 w @ LF # r"
    using read_long_line [of w MAX_FNAME_LEN validate_name_part t "LF # r" e "''fname''" p]
      token_is_line [OF assms(1)] first assms(2) by (simp add: ask_fname_def size_defs)
  then obtain t1 where t1: "ask_fname e p t = Some (take 63 w, t1)"
    "stdin_bytes t1 = line (drop 63 w) @ r" by (auto simp: line_def)
  with ask_field(2) [OF t1(2) last] show ?thesis by blast
qed

theorem overlong_name_spills_witness:
  "\<exists>t1 t2. ask_fname demo_env [] (typing (line (replicate 70 CHR ''x'')) ()) = Some (replicate 63 CHR ''x'', t1) \<and>
    ask_lname demo_env [] t1 = Some (replicate 7 CHR ''x'', t2)"
proof -
  have "token 126 (replicate 70 CHR ''x'')" "64 \<le> length (replicate 70 CHR ''x'')"
    by (simp_all add: token_def is_space_def list_all_iff)
  moreover have "stdin_bytes (typing (line (replicate 70 CHR ''x'')) ()) = line (replicate 70 CHR ''x'') @ []"
    by simp
  ultimately obtain t1 t2 where
    "ask_fname demo_env [] (typing (line (replicate 70 CHR ''x'')) ()) = Some (take 63 (replicate 70 CHR ''x''), t1)"
    "ask_lname demo_env [] t1 = Some (drop 63 (replicate 70 CHR ''x''), t2)"
    using overlong_name_spills by blast
  then show ?thesis by simp
qed

theorem blank_email_overflows_server_witness:
  "\<exists>req t' s. employee_choice demo_env 1003 1 (typing (customer_lines ''Zoe'' ''Ray'' 41 ''Hill_4''
      ''z@b mail.server.of.bank.in'' ''5550009999'' ''zoe'' ''pw'') ()) = Some (Send req, t') \<and>
    handle_request demo_env (cstr (req_op req)) (cstr (req_payload req)) 1003 (demo_server []) =
      Inl (Buffer_overflow s)"
proof -
  have w: "name_line ''Zoe''" "name_line ''Ray''" "- (2 ^ 31) \<le> (41 :: int)" "(41 :: int) < 2 ^ 31"
    "address_line ''Hill_4''" "token 63 ''z@b''" "is_line ''mail.server.of.bank.in''"
    "list_all (\<lambda>c. \<not> is_space c) ''mail.server.of.bank.in''"
    "MAX_PHONE_LEN \<le> length ''mail.server.of.bank.in''"
    "length ''z@b'' + 1 + length ''mail.server.of.bank.in'' < 63"
    "CHR ''@'' \<in> set ''z@b''" "CHR ''.'' \<in> set ''mail.server.of.bank.in''" "phone_line ''5550009999''"
    "credential_line ''zoe''" "credential_line ''pw''"
    by (simp_all add: line_defs token_def is_space_def is_digit_in_def digit_val_def is_line_def size_defs)
  have "stdin_bytes (typing (customer_lines ''Zoe'' ''Ray'' 41 ''Hill_4'' ''z@b mail.server.of.bank.in''
      ''5550009999'' ''zoe'' ''pw'') ()) = customer_lines ''Zoe'' ''Ray'' 41 ''Hill_4''
      (''z@b'' @ '' '' @ ''mail.server.of.bank.in'') ''5550009999'' ''zoe'' ''pw'' @ []" by simp
  from blank_email_overflows_server [OF w this] show ?thesis by blast
qed

section \<open>Logging in\<close>

lemma parse_login_failure: "take 7 m \<noteq> ''SUCCESS'' \<Longrightarrow> parse_login m = Inr None"
  by (simp add: parse_login_def)

lemma parse_login_success:
  assumes "token MAX_ROLE_STR role" "CHR 0x7C \<notin> set role" "length nm < MAX_FNAME_LEN"
  shows "parse_login (''SUCCESS '' @ fmt_d (sint k) @ '' '' @ role @ ''|'' @ nm) =
    Inr (if takeWhile (\<lambda>c. c \<noteq> LF) nm = [] then None else Some (k, role, takeWhile (\<lambda>c. c \<noteq> LF) nm))"
proof -
  let ?r = "CHR '' '' # role @ ''|'' @ nm"
  have bar: "list_all (\<lambda>c. c \<noteq> CHR 0x7C) role" using assms(2) by (auto simp: list_all_iff)
  have "- (2 ^ 31) \<le> sint k" "sint k < 2 ^ 31" using sint_ge [of k] sint_lt [of k] by simp_all
  then have "scan_d (fmt_d (sint k) @ ?r) = Some (sint k, ?r)"
    by (intro scan_d_fmt_d) (simp_all add: is_digit_in_def digit_val_def)
  moreover have "skip_ws ?r = role @ ''|'' @ nm"
    using assms(1) by (cases role) (simp_all add: token_def)
  moreover have "takeWhile (\<lambda>c. c \<noteq> CHR 0x7C) (role @ ''|'' @ nm) = role"
    "dropWhile (\<lambda>c. c \<noteq> CHR 0x7C) (role @ ''|'' @ nm) = ''|'' @ nm"
    using takeWhile_stops [OF bar, of "''|'' @ nm"] by simp_all
  moreover have "length (takeWhile (\<lambda>c. c \<noteq> LF) nm) < MAX_FNAME_LEN"
    using length_takeWhile_le assms(3) by (rule le_less_trans)
  ultimately show ?thesis
    using assms(1) by (simp add: parse_login_def token_def Let_def)
qed

lemma role_str_token: "token MAX_ROLE_STR (role_str ro)" "CHR 0x7C \<notin> set (role_str ro)"
  by (cases ro; simp add: token_def size_defs is_space_def)+

lemma login_payload:
  assumes "credential_line un" "credential_line pw"
  shows "cstr (req_op (mk_request ''LOGIN'' (un @ '' '' @ pw))) = ''LOGIN''"
    "cstr (req_payload (mk_request ''LOGIN'' (un @ '' '' @ pw))) = un @ '' '' @ pw"
    "sscanf [Cs MAX_USERNAME_LEN, Cs MAX_PASSWORD_LEN] (un @ '' '' @ pw) = Inr [As un, As pw]"
proof -
  have "length (un @ '' '' @ pw) < MAX_MSG_LEN"
    using typed_lengths(5) [OF assms(1)] typed_lengths(5) [OF assms(2)] by (simp add: size_defs)
  with line_clean(5) [OF assms(1)] line_clean(5) [OF assms(2)]
  show "cstr (req_op (mk_request ''LOGIN'' (un @ '' '' @ pw))) = ''LOGIN''"
    "cstr (req_payload (mk_request ''LOGIN'' (un @ '' '' @ pw))) = un @ '' '' @ pw"
    by (simp_all add: mk_request_sel)
  show "sscanf [Cs MAX_USERNAME_LEN, Cs MAX_PASSWORD_LEN] (un @ '' '' @ pw) = Inr [As un, As pw]"
    using typed_tokens(6) [OF assms(1)] typed_tokens(7) [OF assms(2)]
    by (simp add: sscanf_word sscanf_last del: sscanf.simps)
qed

definition login_reply :: "uid \<Rightarrow> string \<Rightarrow> string \<Rightarrow> string" where
  "login_reply k role nm = ''SUCCESS '' @ fmt_d (sint k) @ '' '' @ role @ ''|'' @ nm"

lemma login_reply_fits:
  assumes "token MAX_ROLE_STR role" "length nm < MAX_FNAME_LEN"
  shows "snprintf MAX_MSG_LEN (login_reply k role nm) = login_reply k role nm"
proof -
  have "length (fmt_d (sint k)) \<le> 11"
    using length_fmt_d [of "sint k"] sint_ge [of k] sint_lt [of k] by simp
  then show ?thesis
    using assms by (intro snprintf_fits) (simp add: login_reply_def token_def size_defs)
qed

lemma serve_login:
  assumes "credential_line un" "credential_line pw" "conns b fd = Some cur"
    "login_user es un pw (start_st (server b)) = Login_ok k role nm" "length nm < MAX_FNAME_LEN"
    "open_session k cur (active_sessions (server b)) = (ok, cur1, ss)"
  shows "serve es fd (mk_request ''LOGIN'' (un @ '' '' @ pw)) b =
    (if ok then (Replied \<lparr>status_code = 0, resp_message = login_reply k role nm\<rparr>,
        b\<lparr>server := (server b)\<lparr>active_sessions := ss\<rparr>, conns := (conns b)(fd \<mapsto> cur1)\<rparr>)
     else (Replied \<lparr>status_code = 0, resp_message = ''FAILURE User is already logged in elsewhere.''\<rparr>, b))"
proof -
  have "role \<in> range role_str" using assms(4) by (rule login_user_okD) blast
  then have "snprintf MAX_MSG_LEN (login_reply k role nm) = login_reply k role nm"
    using role_str_token login_reply_fits [OF _ assms(5)] by blast
  then have "handle_request es ''LOGIN'' (un @ '' '' @ pw) cur (server b) =
    (if ok then Inr (\<lparr>status_code = 0, resp_message = login_reply k role nm\<rparr>, cur1,
        (server b)\<lparr>active_sessions := ss\<rparr>)
     else Inr (\<lparr>status_code = 0, resp_message = ''FAILURE User is already logged in elsewhere.''\<rparr>, cur,
        server b))"
    using assms(4,6) login_payload(3) [OF assms(1,2)]
    by (simp add: handle_request_def handle_login_def arg_s_def Let_def login_reply_def snprintf_fits
        size_defs del: sscanf.simps)
  moreover have "(conns b)(fd \<mapsto> cur) = conns b" using assms(3) by auto
  ultimately show ?thesis
    using assms(3) unfolding serve_def login_payload(1,2) [OF assms(1,2)] by simp
qed

lemma attempt_sends:
  assumes "credential_line un" "credential_line pw" "stdin_bytes t = line un @ line pw @ r"
    "net (mk_request ''LOGIN'' (un @ '' '' @ pw)) (peer t) = (Replied resp, w)"
    "parse_login (resp_message resp) = Inr None \<or>
      (\<exists>k role nm. parse_login (resp_message resp) = Inr (Some (k, role, nm)) \<and> \<not> valid_role choice role)"
  shows "\<exists>t1. login_attempt e net choice t = Some (Inr None, t1) \<and> stdin_bytes t1 = r \<and> peer t1 = w"
proof -
  obtain t1 where 1: "ask_username e ''Username'' t = Some (un, t1)" "stdin_bytes t1 = line pw @ r"
    "peer t1 = peer t" using ask_field(6) [OF assms(3,1)] by blast
  obtain t2 where 2: "ask_password e ''Password'' t1 = Some (pw, t2)" "stdin_bytes t2 = r"
    "peer t2 = peer t" using ask_field(7) [OF 1(2) assms(2)] 1(3) by metis
  from assms(4) 2(3) have "send_request_and_get_response net (mk_request ''LOGIN'' (un @ '' '' @ pw)) t2 =
    (resp, t2\<lparr>peer := w\<rparr>)" by (simp add: send_request_and_get_response_def)
  with 1(1) 2(1,2) assms(5) show ?thesis by (auto simp: login_attempt_def)
qed

lemma mismatch_parse:
  assumes "token MAX_ROLE_STR role" "CHR 0x7C \<notin> set role" "length nm < MAX_FNAME_LEN"
    "\<not> valid_role choice role"
  shows "parse_login (login_reply k role nm) = Inr None \<or>
    (\<exists>k' role' nm'. parse_login (login_reply k role nm) = Inr (Some (k', role', nm')) \<and> \<not> valid_role choice role')"
  using parse_login_success [OF assms(1-3), of k] assms(4) by (auto simp: login_reply_def)

text \<open>A user in the table is refused, whoever asks.\<close>

lemma serve_login_taken:
  assumes "credential_line un" "credential_line pw" "conns b fd = Some cur"
    "login_user es un pw (start_st (server b)) = Login_ok k role nm"
    "k \<in> set (active_sessions (server b))"
  shows "serve es fd (mk_request ''LOGIN'' (un @ '' '' @ pw)) b =
    (Replied \<lparr>status_code = 0, resp_message = ''FAILURE User is already logged in elsewhere.''\<rparr>, b)"
proof -
  have "handle_request es ''LOGIN'' (un @ '' '' @ pw) cur (server b) =
    Inr (\<lparr>status_code = 0, resp_message = ''FAILURE User is already logged in elsewhere.''\<rparr>, cur, server b)"
    using assms(4,5) login_payload(3) [OF assms(1,2)]
    by (simp add: handle_request_def handle_login_def arg_s_def Let_def open_session_def snprintf_fits
        size_defs del: sscanf.simps)
  moreover have "(conns b)(fd \<mapsto> cur) = conns b" using assms(3) by auto
  ultimately show ?thesis
    using assms(3) unfolding serve_def login_payload(1,2) [OF assms(1,2)] by simp
qed

lemma taken_attempt:
  assumes "credential_line un" "credential_line pw" "stdin_bytes t = line un @ line pw @ r"
    "conns (peer t) fd = Some cur" "login_user es un pw (start_st (server (peer t))) = Login_ok k role nm"
    "k \<in> set (active_sessions (server (peer t)))"
  shows "\<exists>t'. login_attempt e (serve es fd) choice t = Some (Inr None, t') \<and> peer t' = peer t"
  using attempt_sends [where net = "serve es fd", OF assms(1-3) serve_login_taken [OF assms(1,2,4-6)],
      of choice e]
  by (auto simp: parse_login_failure)

lemma connected_session:
  assumes "sessions_inv b" "conns b fd = Some k" "k \<noteq> 0"
  shows "k \<in> set (active_sessions (server b))" "k \<notin> set (active_sessions (close_client k (server b)))"
proof -
  from assms show "k \<in> set (active_sessions (server b))"
    by (auto simp: sessions_inv_def exclusive_def has_session_def)
  have "sessions_valid (active_sessions (server b))" using assms(1) by (simp add: sessions_inv_def)
  from slots.leave_holds [OF this assms(3)]
  have "\<not> has_session (active_sessions (close_client k (server b))) k"
    unfolding close_client_sessions by simp
  with assms(3) show "k \<notin> set (active_sessions (close_client k (server b)))"
    by (simp add: has_session_def)
qed

text \<open>
  C35: Choosing the wrong role locks a user out for as long as the connection stays open: after a
  correct login of a user not yet in the session table, which has a free slot, the client reports
  a failed login and forgets the session, but the server has opened it. In every state the server
  reaches, in any environment, in which that connection still has the session, every correct login
  of that user, typed as two words without white space, on any connection and whatever role is
  chosen, fails and changes nothing. Closing the connection takes the user out of the table again.
\<close>

theorem wrong_role_locks_out:
  assumes "credential_line un" "credential_line pw" "stdin_bytes t = line un @ line pw @ r"
    "any_step\<^sup>*\<^sup>* (server_init d) (peer t)" "conns (peer t) fd = Some cur"
    "login_user es un pw (start_st (server (peer t))) = Login_ok k role nm" "length nm < MAX_FNAME_LEN"
    "k \<notin> set (active_sessions (server (peer t)))" "0 \<in> set (active_sessions (server (peer t)))"
    "\<not> valid_role choice role"
  shows "\<exists>t1. login_attempt e (serve es fd) choice t = Some (Inr None, t1) \<and>
    conns (peer t1) fd = Some k \<and> srv_store (server (peer t1)) = srv_store (server (peer t)) \<and>
    (\<forall>b'. any_step\<^sup>*\<^sup>* (peer t1) b' \<and> conns b' fd = Some k \<longrightarrow>
      (\<forall>e' es' fd' choice' un' pw' role' nm' t2 r'. peer t2 = b' \<and> conns b' fd' \<noteq> None \<and>
        credential_line un' \<and> credential_line pw' \<and> stdin_bytes t2 = line un' @ line pw' @ r' \<and>
        login_user es' un' pw' (start_st (server b')) = Login_ok k role' nm' \<longrightarrow>
        (\<exists>t3. login_attempt e' (serve es' fd') choice' t2 = Some (Inr None, t3) \<and> peer t3 = b')) \<and>
      k \<notin> set (active_sessions (close_client k (server b'))))"
proof -
  let ?b = "peer t" and ?ss = "replace_first 0 k (active_sessions (server (peer t)))"
  let ?b1 = "?b\<lparr>server := (server ?b)\<lparr>active_sessions := ?ss\<rparr>, conns := (conns ?b)(fd \<mapsto> k)\<rparr>"
  obtain ro where ro: "role = role_str ro" using assms(6) by (rule login_user_okD) blast
  note tok = role_str_token [of ro, folded ro]
  have k: "k \<noteq> 0" using assms(8,9) by metis
  have enter: "open_session k cur (active_sessions (server ?b)) = (True, k, ?ss)"
    using assms(8,9) by (simp add: open_session_def)
  from serve_login [OF assms(1,2,5-7) enter] have
    "serve es fd (mk_request ''LOGIN'' (un @ '' '' @ pw)) ?b =
      (Replied \<lparr>status_code = 0, resp_message = login_reply k role nm\<rparr>, ?b1)" by simp
  from attempt_sends [where net = "serve es fd", OF assms(1-3) this, of choice e] mismatch_parse [OF tok assms(7,10)]
  obtain t1 where t1: "login_attempt e (serve es fd) choice t = Some (Inr None, t1)" "peer t1 = ?b1"
    by auto
  have "sessions_valid (active_sessions (server ?b))"
    "exclusive (has_session (active_sessions (server ?b))) (conns ?b)"
    using run_sessions [OF assms(4) sessions_init] by (simp_all add: sessions_inv_def)
  from slots.enter_exclusive [OF this assms(5) enter] have "sessions_inv (peer t1)"
    by (simp add: t1(2) sessions_inv_def)
  then have inv: "sessions_inv b'" if "any_step\<^sup>*\<^sup>* (peer t1) b'" for b'
    using run_sessions [OF that] by blast
  have locked: "\<forall>e' es' fd' choice' un' pw' role' nm' t2 r'. peer t2 = b' \<and> conns b' fd' \<noteq> None \<and>
        credential_line un' \<and> credential_line pw' \<and> stdin_bytes t2 = line un' @ line pw' @ r' \<and>
        login_user es' un' pw' (start_st (server b')) = Login_ok k role' nm' \<longrightarrow>
        (\<exists>t3. login_attempt e' (serve es' fd') choice' t2 = Some (Inr None, t3) \<and> peer t3 = b')"
    if b': "any_step\<^sup>*\<^sup>* (peer t1) b'" "conns b' fd = Some k" for b'
  proof (intro allI impI, elim conjE, goal_cases)
    case (1 e' es' fd' choice' un' pw' role' nm' t2 r')
    obtain cur' where "conns b' fd' = Some cur'" using 1(2) by auto
    with taken_attempt [OF 1(3-5), of fd' cur' es' k role' nm' e' choice'] 1(1,6)
      connected_session(1) [OF inv [OF b'(1)] b'(2) k] show ?case by simp
  qed
  have "conns (peer t1) fd = Some k" "srv_store (server (peer t1)) = srv_store (server (peer t))"
    by (simp_all add: t1(2))
  with t1(1) locked connected_session(2) [OF inv _ k] show ?thesis by blast
qed

lemma login_name_short:
  assumes "login_user e un pw s = Login_ok k role nm" "terminated MAX_FNAME_LEN (stk_arr e ''name'')"
  shows "length nm < MAX_FNAME_LEN"
proof -
  have "\<exists>x. nm = cstr (strncpy ((stk_arr e ''name'')[0 := NUL]) x (MAX_FNAME_LEN - 1))"
    using assms(1) by (auto simp: login_user_def split: option.splits if_splits)
  then obtain x where
    "nm = cstr (strncpy ((stk_arr e ''name'')[0 := NUL]) x (MAX_FNAME_LEN - 1))" by blast
  moreover have "terminated MAX_FNAME_LEN ((stk_arr e ''name'')[0 := NUL])"
    using assms(2) by (simp add: terminated_def drop_update_cancel size_defs)
  ultimately show ?thesis using cstr_length_less [OF terminated_strncpy] by blast
qed

theorem wrong_role_locks_out_witness:
  "\<exists>t1 t3. login_attempt demo_env (serve demo_env 3) 2 (typing (line ''ann'' @ line ''pw'')
      \<lparr>server = demo_server (slot_table []), conns = [3 \<mapsto> 0]\<rparr>) = Some (Inr None, t1) \<and>
    conns (peer t1) 3 = Some 1001 \<and>
    login_attempt demo_env (serve demo_env 3) 1 (typing (line ''ann'' @ line ''pw'') (peer t1)) = Some (Inr None, t3)"
proof -
  let ?b = "\<lparr>server = demo_server (slot_table []), conns = [3 \<mapsto> 0]\<rparr> :: bank"
  let ?t = "typing (line ''ann'' @ line ''pw'') ?b"
  have c: "credential_line ''ann''" "credential_line ''pw''"
    by (simp_all add: line_defs token_def is_space_def)
  have d: "disk (start_st (server (peer ?t))) = demo_store" by (simp add: demo_server_def)
  from demo_login(1) [OF d] obtain nm where
    nm: "login_user demo_env ''ann'' ''pw'' (start_st (server (peer ?t))) = Login_ok 1001 ''customer'' nm"
    by blast
  have "terminated MAX_FNAME_LEN (stk_arr demo_env ''name'')"
    using terminated_init_array [of "[]" 64] by (simp add: demo_env_def size_defs)
  with login_name_short [OF nm] have l: "length nm < MAX_FNAME_LEN" by blast
  have "server_step demo_env (server_init demo_store) ((server_init demo_store)\<lparr>conns := (conns (server_init demo_store))(3 \<mapsto> 0)\<rparr>)"
    by (rule server_step.accept) (simp add: server_init_def)
  then have "any_step (server_init demo_store) (peer ?t)"
    unfolding any_step_def by (auto simp: server_init_def demo_server_def slot_table_def)
  then have run: "any_step\<^sup>*\<^sup>* (server_init demo_store) (peer ?t)" by blast
  have "1001 \<notin> set (active_sessions (server (peer ?t)))" "0 \<in> set (active_sessions (server (peer ?t)))"
    "\<not> valid_role 2 ''customer''" "stdin_bytes ?t = line ''ann'' @ line ''pw'' @ []" "conns (peer ?t) 3 = Some 0"
    by (simp_all add: demo_server_def slot_table_def size_defs valid_role_def)
  from wrong_role_locks_out [OF c this(4) run this(5) nm l this(1-3), of demo_env] obtain t1 where
    t1: "login_attempt demo_env (serve demo_env 3) 2 ?t = Some (Inr None, t1)" "conns (peer t1) 3 = Some 1001"
      "srv_store (server (peer t1)) = srv_store (server (peer ?t))"
    and again: "\<forall>b'. any_step\<^sup>*\<^sup>* (peer t1) b' \<and> conns b' 3 = Some 1001 \<longrightarrow>
      (\<forall>e' es' fd' choice' un' pw' role' nm' t2 r'. peer t2 = b' \<and> conns b' fd' \<noteq> None \<and>
        credential_line un' \<and> credential_line pw' \<and> stdin_bytes t2 = line un' @ line pw' @ r' \<and>
        login_user es' un' pw' (start_st (server b')) = Login_ok 1001 role' nm' \<longrightarrow>
        (\<exists>t3. login_attempt e' (serve es' fd') choice' t2 = Some (Inr None, t3) \<and> peer t3 = b'))"
    by (elim exE conjE) (rule that, assumption+, blast)
  have "disk (start_st (server (peer t1))) = demo_store" using t1(3) by (simp add: demo_server_def)
  from demo_login(1) [OF this] obtain nm' where
    "login_user demo_env ''ann'' ''pw'' (start_st (server (peer t1))) = Login_ok 1001 ''customer'' nm'"
    by blast
  then have "\<exists>t3. login_attempt demo_env (serve demo_env 3) 1 (typing (line ''ann'' @ line ''pw'') (peer t1)) =
      Some (Inr None, t3) \<and> peer t3 = peer t1"
    using again [rule_format, of "peer t1" "typing (line ''ann'' @ line ''pw'') (peer t1)" 3 "''ann''" "''pw''" "[]"]
      t1(2) c by simp
  with t1 show ?thesis by blast
qed

section \<open>What the administrator cannot do\<close>

lemma generate_new_userId_users:
  "generate_new_userId e s = (n, s') \<Longrightarrow> users (disk s') = users (disk s)"
  by (auto simp: generate_new_userId_def open_creat_def split: option.splits if_splits prod.splits)

lemma add_employee_customer:
  assumes "add_employee e fname lname ag ad ''customer'' em ph un pw s = (ok, s')"
  shows "users (disk s') = users (disk s)"
proof -
  obtain uniq s1 where u: "check_uniqueness un em ph 0 s = (uniq, s1)" by fastforce
  obtain n s2 where g: "generate_new_userId e s1 = (n, s2)" by fastforce
  show ?thesis
    using assms u g check_uniquenessD(1) [OF u] generate_new_userId_users [OF g]
    by (auto simp: add_employee_def staff_role_def Let_def split: if_splits)
qed

definition role_line :: "string \<Rightarrow> bool" where "role_line w \<longleftrightarrow> token 31 w"

lemma ask_role_typed:
  assumes "stdin_bytes t = line w @ r" "role_line w"
  shows "\<exists>t'. ask_role e p t = Some (w, t') \<and> stdin_bytes t' = r \<and> peer t' = peer t"
  unfolding ask_role_def
proof (rule ask_line [OF _ _ _ assms(1)])
  show "is_line w" using assms(2) token_is_line by (simp add: role_line_def)
  show "length w + 1 < MAX_ROLE_STR" using assms(2) by (simp add: role_line_def token_def size_defs)
  show "validate_credential w = None"
    using assms(2) validators_accept(5) [of w] token_mono [of 31 w 63]
    by (simp add: role_line_def credential_line_def)
qed

definition staff_lines ::
  "string \<Rightarrow> string \<Rightarrow> int \<Rightarrow> string \<Rightarrow> string \<Rightarrow> string \<Rightarrow> string" where
  \<comment> \<open>the answers to \<open>Add New Bank Employee\<close> up to the role\<close>
  "staff_lines fname lname a ad role rest = line fname @ line lname @ line (fmt_d a) @ line ad @
     line role @ rest"

lemma add_employee_asks:
  assumes "name_line fname" "name_line lname" "- (2 ^ 31) \<le> a" "a < 2 ^ 31"
    "is_line ad" "length ad + 1 < MAX_ADDR_LEN" "validate_address ad = None"
    "role_line role" "stdin_bytes t = staff_lines fname lname a ad role rest"
  obtains t5 where "stdin_bytes t5 = rest" "add_employee_action e t =
     (if role \<noteq> ''customer'' then
        Some (Again, printf (line (''Error: Invalid role for employee. Must be '' @ SQ @ ''employee'' @
          SQ @ '' or '' @ SQ @ ''manager'' @ SQ @ ''.'')) t5)
      else do {
        (em, t6) \<leftarrow> ask_email e ''Enter email'' t5;
        (ph, t7) \<leftarrow> ask_phone e ''Enter phone (10 digits)'' t6;
        (un, t8) \<leftarrow> ask_username e ''Enter desired username (no spaces)'' t7;
        (pw, t9) \<leftarrow> ask_password e ''Enter desired password (no spaces)'' t8;
        Some (Send (mk_request ''ADD_EMPLOYEE''
          (add_employee_payload fname lname a ad role em ph un pw)), t9) })"
proof -
  note l = assms(9) [unfolded staff_lines_def]
  obtain t1 where 1: "ask_fname e ''Enter first name (no spaces)'' t = Some (fname, t1)"
    "stdin_bytes t1 = line lname @ line (fmt_d a) @ line ad @ line role @ rest"
    using ask_field(1) [OF l assms(1)] by blast
  obtain t2 where 2: "ask_lname e ''Enter last name (no spaces)'' t1 = Some (lname, t2)"
    "stdin_bytes t2 = line (fmt_d a) @ line ad @ line role @ rest"
    using ask_field(2) [OF 1(2) assms(2)] by blast
  obtain t3 where 3: "ask_age e ''Enter age: '' t2 = (a, t3)"
    "stdin_bytes t3 = line ad @ line role @ rest"
    using ask_age_line [OF assms(3,4) 2(2)] by blast
  obtain t4 where 4:
    "ask_address e (''Enter address (no spaces, use '' @ SQ @ ''_'' @ SQ @ '')'') t3 = Some (ad, t4)"
    "stdin_bytes t4 = line role @ rest"
    using ask_line [where v = validate_address, OF assms(5-7) 3(2)] unfolding ask_address_def by blast
  obtain t5 where 5: "ask_role e ''Enter role (employee/manager)'' t4 = Some (role, t5)"
    "stdin_bytes t5 = rest" using ask_role_typed [OF 4(2) assms(8)] by blast
  show thesis
    by (rule that [OF 5(2)])
      (simp only: add_employee_action_def 1(1) 2(1) 3(1) 4(1) 5(1) bind.bind_lunit split)
qed

lemma scan_add_employee:
  assumes "name_line fname" "name_line lname" "- (2 ^ 31) \<le> a" "a < 2 ^ 31" "address_line ad"
    "role_line role" "email_line em" "phone_line ph" "credential_line un" "credential_line pw"
  shows "sscanf [Cs MAX_FNAME_LEN, Cs MAX_LNAME_LEN, Cd, Cs MAX_ADDR_LEN, Cs MAX_ROLE_STR,
      Cs MAX_EMAIL_LEN, Cs MAX_PHONE_LEN, Cs MAX_USERNAME_LEN, Cs MAX_PASSWORD_LEN]
      (add_employee_payload fname lname a ad role em ph un pw) =
    Inr [As fname, As lname, Ad a, As ad, As role, As em, As ph, As un, As pw]"
proof -
  have "token MAX_ROLE_STR role" using assms(6) by (simp add: role_line_def token_def size_defs)
  with assms show ?thesis
    by (simp add: add_employee_payload_def sscanf_word sscanf_int sscanf_last typed_tokens del: sscanf.simps)
qed

text \<open>The role \<open>customer\<close> is the only one the client sends.\<close>

lemma add_employee_sends:
  assumes "name_line fname" "name_line lname" "- (2 ^ 31) \<le> a" "a < 2 ^ 31"
    "is_line ad" "length ad + 1 < MAX_ADDR_LEN" "validate_address ad = None"
    "email_line em" "phone_line ph" "credential_line un" "credential_line pw"
    "stdin_bytes t = staff_lines fname lname a ad ''customer'' (line em @ line ph @ line un @ line pw @ r)"
  defines "pl \<equiv> add_employee_payload fname lname a ad ''customer'' em ph un pw"
  shows "\<exists>t'. admin_choice e net k 1 t = Some (Send (mk_request ''ADD_EMPLOYEE'' pl), t')"
    "cstr (req_op (mk_request ''ADD_EMPLOYEE'' pl)) = ''ADD_EMPLOYEE''"
    "cstr (req_payload (mk_request ''ADD_EMPLOYEE'' pl)) = pl"
proof -
  have "role_line ''customer''" by (simp add: role_line_def token_def is_space_def)
  then have "\<exists>t5. stdin_bytes t5 = line em @ line ph @ line un @ line pw @ r \<and> add_employee_action e t = (do {
        (em, t6) \<leftarrow> ask_email e ''Enter email'' t5;
        (ph, t7) \<leftarrow> ask_phone e ''Enter phone (10 digits)'' t6;
        (un, t8) \<leftarrow> ask_username e ''Enter desired username (no spaces)'' t7;
        (pw, t9) \<leftarrow> ask_password e ''Enter desired password (no spaces)'' t8;
        Some (Send (mk_request ''ADD_EMPLOYEE''
          (add_employee_payload fname lname a ad ''customer'' em ph un pw)), t9) })"
    by (rule add_employee_asks [OF assms(1-7) _ assms(12), of e]) (rule exI, rule conjI, assumption, simp)
  then obtain t5 where t5: "stdin_bytes t5 = line em @ line ph @ line un @ line pw @ r"
    and asks: "add_employee_action e t = (do {
        (em, t6) \<leftarrow> ask_email e ''Enter email'' t5;
        (ph, t7) \<leftarrow> ask_phone e ''Enter phone (10 digits)'' t6;
        (un, t8) \<leftarrow> ask_username e ''Enter desired username (no spaces)'' t7;
        (pw, t9) \<leftarrow> ask_password e ''Enter desired password (no spaces)'' t8;
        Some (Send (mk_request ''ADD_EMPLOYEE''
          (add_employee_payload fname lname a ad ''customer'' em ph un pw)), t9) })" by blast
  obtain t6 where 6: "ask_email e ''Enter email'' t5 = Some (em, t6)"
    "stdin_bytes t6 = line ph @ line un @ line pw @ r" using ask_field(4) [OF t5 assms(8)] by blast
  obtain t7 where 7: "ask_phone e ''Enter phone (10 digits)'' t6 = Some (ph, t7)"
    "stdin_bytes t7 = line un @ line pw @ r" using ask_field(5) [OF 6(2) assms(9)] by blast
  obtain t8 where 8: "ask_username e ''Enter desired username (no spaces)'' t7 = Some (un, t8)"
    "stdin_bytes t8 = line pw @ r" using ask_field(6) [OF 7(2) assms(10)] by blast
  obtain t9 where 9: "ask_password e ''Enter desired password (no spaces)'' t8 = Some (pw, t9)"
    using ask_field(7) [OF 8(2) assms(11)] by blast
  show "\<exists>t'. admin_choice e net k 1 t = Some (Send (mk_request ''ADD_EMPLOYEE'' pl), t')"
    by (simp add: admin_choice_def asks 6(1) 7(1) 8(1) 9 pl_def)
  have "length pl < MAX_MSG_LEN"
    using typed_lengths(1) [OF assms(1)] typed_lengths(1) [OF assms(2)] assms(6)
      typed_lengths(3) [OF assms(8)] typed_lengths(4) [OF assms(9)] typed_lengths(5) [OF assms(10)]
      typed_lengths(5) [OF assms(11)] length_fmt_d [OF assms(3,4)]
    by (simp add: pl_def add_employee_payload_def size_defs)
  moreover have "clean pl"
    using line_clean assms(1-4,8-11) is_line_clean [OF assms(5)] by (simp add: pl_def add_employee_payload_def)
  ultimately show "cstr (req_op (mk_request ''ADD_EMPLOYEE'' pl)) = ''ADD_EMPLOYEE''"
    "cstr (req_payload (mk_request ''ADD_EMPLOYEE'' pl)) = pl" by (simp_all add: mk_request_sel)
qed

text \<open>A tab is white space to \<^verbatim>\<open>sscanf\<close>, but no blank to the validators.\<close>

abbreviation TAB :: char where "TAB \<equiv> CHR 0x09"

definition role_by_tab :: "string \<Rightarrow> string" where
  \<comment> \<open>an address with the role behind a tab\<close>
  "role_by_tab ad = ad @ TAB # ''employee''"

lemma role_by_tab_accepted:
  assumes "address_line ad" "length ad + 10 < MAX_ADDR_LEN"
  shows "is_line (role_by_tab ad)" "length (role_by_tab ad) + 1 < MAX_ADDR_LEN"
    "validate_address (role_by_tab ad) = None"
proof -
  have "token 255 ad" using assms(1) by (simp add: address_line_def)
  with assms(2) show "is_line (role_by_tab ad)" "length (role_by_tab ad) + 1 < MAX_ADDR_LEN"
    "validate_address (role_by_tab ad) = None"
    using token_is_line [of 255 ad] token_no_blank [of 255 ad]
    by (auto simp: role_by_tab_def is_line_def validate_address_def validate_not_empty_def)
qed

lemma sscanf_tab_word:
  assumes "token n w" "blank_or_end r"
  shows "sscanf (Cs n # cs) (TAB # w @ r) = add_arg (As w) (sscanf cs r)"
proof -
  have "scan_s (TAB # w @ r) = scan_s (w @ r)" by (simp add: scan_s_def skip_ws_def is_space_def)
  with scan_s_blank [OF assms] show ?thesis using assms(1) by (simp add: add_arg_def token_def)
qed

lemma scan_role_by_tab:
  assumes "name_line fname" "name_line lname" "- (2 ^ 31) \<le> a" "a < 2 ^ 31" "address_line ad"
    "email_line em" "length em < MAX_PHONE_LEN" "phone_line ph" "credential_line un" "credential_line pw"
  shows "sscanf [Cs MAX_FNAME_LEN, Cs MAX_LNAME_LEN, Cd, Cs MAX_ADDR_LEN, Cs MAX_ROLE_STR,
      Cs MAX_EMAIL_LEN, Cs MAX_PHONE_LEN, Cs MAX_USERNAME_LEN, Cs MAX_PASSWORD_LEN]
      (add_employee_payload fname lname a (role_by_tab ad) ''customer'' em ph un pw) =
    Inr [As fname, As lname, Ad a, As ad, As ''employee'', As ''customer'', As em, As ph, As un]"
proof -
  have "token MAX_PHONE_LEN em" using assms(6,7) by (simp add: email_line_def token_def)
  moreover have "token MAX_USERNAME_LEN ph"
    using token_mono [OF phone_token [OF assms(8)]] by (simp add: size_defs)
  moreover have "token MAX_ROLE_STR ''employee''" "token MAX_EMAIL_LEN ''customer''"
    by (simp_all add: token_def is_space_def size_defs)
  moreover note typed_tokens(1) [OF assms(1)] typed_tokens(2) [OF assms(2)] typed_tokens(3) [OF assms(5)]
    typed_tokens(7) [OF assms(9)]
  ultimately show ?thesis
    using assms(3,4) sscanf_word [of MAX_EMAIL_LEN "''customer''"] sscanf_tab_word [of MAX_ROLE_STR "''employee''"]
    by (simp add: add_employee_payload_def role_by_tab_def sscanf_word sscanf_int is_space_def del: sscanf.simps(2))
qed


lemma tab_hire:
  "length (users (disk (snd (add_employee demo_env ''Zoe'' ''Ray'' 41 ''Hill_4'' ''employee'' ''customer'' ''z@b.in''
     ''5550009999'' ''zoe'' (start_st (server installed_server)))))) = length (users installed) + 1"
proof -
  let ?b = "Staff ''Zoe'' ''Ray'' 41 ''Hill_4'' ''employee'' ''customer'' ''z@b.in'' ''5550009999'' ''zoe''"
  let ?s = "start_st (server installed_server)"
  have d: "disk ?s = installed" by (simp add: installed_server_def server_init_def)
  have f: "fresh_uid (tables_of (disk ?s))"
    using installed_facts(1,2) by (simp add: d bank_inv_iff books_fresh room_def)
  have fit: "boot_fits ?b" by (simp add: fits_def size_defs)
  have new: "boot_new ?b (map card_of (users (disk ?s)))"
    by (simp add: d installed_cards boot_ops_def new_contact_def staff_role_def)
  obtain ok s' where r: "boot_run demo_env ?b ?s = (ok, s')" by fastforce
  from boot_run_new [OF demo_env_ok fit f r new]
  have "map card_of (users (disk s')) =
      map card_of (users (disk ?s)) @ [boot_card demo_env ?b (next_uid (users (disk ?s)))]" by blast
  then have "length (users (disk s')) = length (users (disk ?s)) + 1"
    by (metis length_map length_append_singleton Suc_eq_plus1)
  with r d show ?thesis by simp
qed




text \<open>
  C38: At the end of its input the client hangs: neither \<open>main\<close> nor any menu ever returns, they
  prompt for a choice for ever.
\<close>

theorem client_hangs_at_end_of_input:
  assumes "stdin_bytes t = []"
  shows "client_main e net t = None \<and> customer_menu e net k t = None \<and> employee_menu e net k nm t = None \<and>
    manager_menu e net k nm t = None \<and> admin_menu e net k nm t = None"
  using assms client_main_eof menu_loop_eof
  by (metis customer_menu_def employee_menu_def manager_menu_def admin_menu_def not_None_eq)

theorem client_hangs_at_end_of_input_witness:
  "client_main demo_env (serve demo_env 3) (typing [] installed_server) = None"
  using client_hangs_at_end_of_input [of "typing [] installed_server"] by simp

end
