(* ===== verification/Connection.thy ===== *)
theory Connection
  imports Dialogue Service
begin

text \<open>
  \<open>client_thread_main\<close> of \<^verbatim>\<open>src/server.c\<close> as a loop over the bytes of its socket: what one
  \<open>read\<close> returns, the request buffer that outlives an iteration, the replies, and the
  clean-up after the last request.
\<close>

section \<open>The socket\<close>

text \<open>
  The bytes that are still to come, in the segments in which they become readable: one \<open>read\<close>
  returns at most one segment and at most the size it was asked for. No bytes mean the end of
  the stream or an error.
\<close>

fun socket_read :: "nat \<Rightarrow> string list \<Rightarrow> string \<times> string list" where
  "socket_read n [] = ([], [])"
| "socket_read n (c # q) = (take n c, if length c \<le> n then q else drop n c # q)"

definition request_bytes :: "request_t \<Rightarrow> string" where
  "request_bytes req = req_op req @ req_payload req"

definition request_of :: "string \<Rightarrow> request_t" where
  "request_of bs = \<lparr>req_op = take 64 bs, req_payload = drop 64 bs\<rparr>"

definition request_size :: nat where "request_size = 64 + MAX_MSG_LEN"

definition recv_request :: "string list \<Rightarrow> request_t \<Rightarrow> nat \<times> request_t \<times> string list" where
  \<comment> \<open>\<open>read(fd, req, sizeof(request_t))\<close>: the bytes go to the front of the buffer, what it held
     behind them stays\<close>
  "recv_request q req =
     (case socket_read request_size q of
        (bs, q1) \<Rightarrow> (length bs, request_of (bs @ drop (length bs) (request_bytes req)), q1))"

definition well_sized :: "request_t \<Rightarrow> bool" where
  "well_sized req \<longleftrightarrow> length (req_op req) = 64 \<and> length (req_payload req) = MAX_MSG_LEN"

lemma well_sized_mk_request [simp]: "well_sized (mk_request op payload)"
  by (simp add: well_sized_def mk_request_def)

lemma length_request_bytes [simp]: "well_sized req \<Longrightarrow> length (request_bytes req) = request_size"
  by (simp add: well_sized_def request_bytes_def request_size_def)

lemma request_of_bytes [simp]: "well_sized req \<Longrightarrow> request_of (request_bytes req) = req"
  by (simp add: well_sized_def request_bytes_def request_of_def)

lemma request_size_pos [simp]: "0 < request_size"
  by (simp add: request_size_def)

lemma socket_read_bytes:
  "socket_read n q = (bs, q1) \<Longrightarrow> bs \<noteq> [] \<Longrightarrow> length (concat q1) < length (concat q)"
  by (cases q) (auto split: if_splits)

lemma recv_whole:
  assumes "well_sized r" "well_sized req"
  shows "recv_request (request_bytes r # q) req = (request_size, r, q)"
  using assms by (simp add: recv_request_def)

section \<open>The thread\<close>

text \<open>
  The environment of a request is \<open>es i\<close> for the \<open>i\<close>-th one. The result of the loop is the list
  of the responses it wrote and the server at its end.
\<close>

function client_thread ::
  "(nat \<Rightarrow> env) \<Rightarrow> nat \<Rightarrow> string list \<Rightarrow> request_t \<Rightarrow> uid \<Rightarrow> srv \<Rightarrow> fault + (response list \<times> srv)" where
  "client_thread es i q req cur v =
     (case recv_request q req of
        (n, req1, q1) \<Rightarrow>
          if n = 0 then Inr ([], close_client cur v)
          else
            (case handle_request (es i) (cstr (req_op req1)) (cstr (req_payload req1)) cur v of
               Inl f \<Rightarrow> Inl f
             | Inr (resp, cur1, v1) \<Rightarrow>
                 (case client_thread es (Suc i) q1 req1 cur1 v1 of
                    Inl f \<Rightarrow> Inl f
                  | Inr (rs, v2) \<Rightarrow> Inr (resp # rs, v2))))"
  by pat_completeness auto

termination
  by (relation "measure (\<lambda>(es, i, q, req, cur, v). length (concat q))")
    (auto simp: recv_request_def dest!: socket_read_bytes split: prod.splits)

declare client_thread.simps [simp del]

definition client_thread_main :: "(nat \<Rightarrow> env) \<Rightarrow> string list \<Rightarrow> request_t \<Rightarrow> srv \<Rightarrow> fault + (response list \<times> srv)" where
  \<comment> \<open>\<open>current_userId = 0\<close>, and \<open>req\<close> is whatever the stack holds\<close>
  "client_thread_main es q req v = client_thread es 0 q req 0 v"

text \<open>The reference: the requests one after another, with no bytes in sight.\<close>

fun serve_all ::
  "(nat \<Rightarrow> env) \<Rightarrow> nat \<Rightarrow> request_t list \<Rightarrow> uid \<Rightarrow> srv \<Rightarrow> fault + (response list \<times> srv)" where
  "serve_all es i [] cur v = Inr ([], close_client cur v)"
| "serve_all es i (r # reqs) cur v =
     (case handle_request (es i) (cstr (req_op r)) (cstr (req_payload r)) cur v of
        Inl f \<Rightarrow> Inl f
      | Inr (resp, cur1, v1) \<Rightarrow>
          (case serve_all es (Suc i) reqs cur1 v1 of
             Inl f \<Rightarrow> Inl f
           | Inr (rs, v2) \<Rightarrow> Inr (resp # rs, v2)))"

lemma client_thread_end: "client_thread es i [] req cur v = Inr ([], close_client cur v)"
  by (simp add: client_thread.simps recv_request_def)

lemma client_thread_read:
  assumes "recv_request q req = (n, req1, q1)" "n \<noteq> 0"
    "handle_request (es i) (cstr (req_op req1)) (cstr (req_payload req1)) cur v = Inr (resp, cur1, v1)"
    "client_thread es (Suc i) q1 req1 cur1 v1 = Inr (rs, v2)"
  shows "client_thread es i q req cur v = Inr (resp # rs, v2)"
  using assms by (simp add: client_thread.simps [of es i q])

lemma whole_requests:
  assumes "list_all well_sized reqs" "well_sized req"
  shows "client_thread es i (map request_bytes reqs) req cur v = serve_all es i reqs cur v"
  using assms
proof (induction reqs arbitrary: i req cur v)
  case Nil
  show ?case by (simp add: client_thread_end)
next
  case (Cons r reqs)
  then show ?case
    by (simp add: client_thread.simps [of es i] recv_whole split: sum.splits prod.splits)
qed

text \<open>Whatever the segments, the bank sees a run of its own steps.\<close>

lemma thread_run:
  assumes "client_thread es i q req (cur :: uid) v = Inr (rs, v')" "conns b fd = Some cur" "server b = v"
  shows "any_step\<^sup>*\<^sup>* b (b\<lparr>server := v', conns := (conns b)(fd := None)\<rparr>)"
  using assms
proof (induction es i q req cur v arbitrary: b rs rule: client_thread.induct)
  case (1 es i q req cur v)
  obtain n req1 q1 where q: "recv_request q req = (n, req1, q1)" by (cases "recv_request q req") auto
  show ?case
  proof (cases "n = 0")
    case True
    with 1(2) q have v': "v' = close_client cur v" by (simp add: client_thread.simps [of es i])
    have "server_step (es i) b (b\<lparr>server := v', conns := (conns b)(fd := None)\<rparr>)"
      using server_step.disconnect [OF 1(3), of "es i"] unfolding v' 1(4) .
    then have "any_step b (b\<lparr>server := v', conns := (conns b)(fd := None)\<rparr>)"
      unfolding any_step_def by blast
    then show ?thesis by (rule r_into_rtranclp)
  next
    case False
    with 1(2) q obtain resp cur1 v1 rs1 where
      h: "handle_request (es i) (cstr (req_op req1)) (cstr (req_payload req1)) cur v = Inr (resp, cur1, v1)"
      and rest: "client_thread es (Suc i) q1 req1 cur1 v1 = Inr (rs1, v')"
      by (auto simp: client_thread.simps [of es i] split: sum.splits prod.splits)
    let ?b1 = "b\<lparr>server := v1, conns := (conns b)(fd \<mapsto> cur1)\<rparr>"
    have "server_step (es i) b ?b1"
      using server_step.request [OF 1(3), of "es i" req1] h 1(4) by simp
    then have "any_step b ?b1" unfolding any_step_def by blast
    also have "any_step\<^sup>*\<^sup>* ?b1 (?b1\<lparr>server := v', conns := (conns ?b1)(fd := None)\<rparr>)"
      by (rule 1(1) [OF q [symmetric] refl False h refl refl rest]) simp_all
    finally show ?thesis by (simp del: fun_upd_apply)
  qed
qed

text \<open>
  C27: The thread of a connection serves exactly the requests of its client, whatever its buffer
  held before: when every request arrives in one piece, the loop over the bytes answers them in
  turn and clears the session at the end. However the bytes are cut, the loop ends, and the bank
  goes through an accepted connection, requests and a disconnection, so that everything shown
  for the steps of the server holds.
\<close>

theorem thread_serves_requests:
  "(list_all well_sized reqs \<and> well_sized req \<longrightarrow>
      client_thread_main es (map request_bytes reqs) req v = serve_all es 0 reqs 0 v) \<and>
   (conns b fd = None \<and> client_thread_main es q req (server b) = Inr (rs, v') \<longrightarrow>
      any_step\<^sup>*\<^sup>* b (b\<lparr>server := v'\<rparr>))"
proof (intro conjI impI; elim conjE)
  assume "list_all well_sized reqs" "well_sized req"
  then show "client_thread_main es (map request_bytes reqs) req v = serve_all es 0 reqs 0 v"
    unfolding client_thread_main_def by (rule whole_requests)
next
  let ?b1 = "b\<lparr>conns := (conns b)(fd \<mapsto> 0)\<rparr>"
  assume b: "conns b fd = None" and t: "client_thread_main es q req (server b) = Inr (rs, v')"
  have "any_step b ?b1" unfolding any_step_def using server_step.accept [OF b] by blast
  moreover have "any_step\<^sup>*\<^sup>* ?b1 (?b1\<lparr>server := v', conns := (conns ?b1)(fd := None)\<rparr>)"
    by (rule thread_run [OF t [unfolded client_thread_main_def]]) simp_all
  moreover have "(conns b)(fd := None) = conns b" using b by auto
  ultimately show "any_step\<^sup>*\<^sup>* b (b\<lparr>server := v'\<rparr>)" by (simp add: converse_rtranclp_into_rtranclp)
qed

text \<open>A logout and the end of the stream; then the same request byte by byte.\<close>

lemma serve_all_logout:
  "serve_all es i [mk_request ''LOGOUT'' []] 0 v =
     Inr ([\<lparr>status_code = 0, resp_message = ''Logged out successfully''\<rparr>],
       v\<lparr>active_sessions := remove_active_session 0 (active_sessions v)\<rparr>)"
  by (simp add: mk_request_sel size_defs handle_request_def close_client_def)

theorem thread_serves_requests_witness:
  "client_thread_main (\<lambda>_. demo_env) [request_bytes (mk_request ''LOGOUT'' [])]
      (mk_request ''DEPOSIT'' ''1001 5'') (server installed_server) =
    Inr ([\<lparr>status_code = 0, resp_message = ''Logged out successfully''\<rparr>], server installed_server) \<and>
   any_step\<^sup>*\<^sup>* installed_server (installed_server\<lparr>server := server installed_server\<rparr>)"
proof -
  let ?q = "[request_bytes (mk_request ''LOGOUT'' [])]" and ?v = "server installed_server"
  have "serve_all (\<lambda>_. demo_env) 0 [mk_request ''LOGOUT'' []] 0 ?v =
      Inr ([\<lparr>status_code = 0, resp_message = ''Logged out successfully''\<rparr>], ?v)"
    unfolding serve_all_logout by (simp add: sessions_leave_zero)
  then have r: "client_thread_main (\<lambda>_. demo_env) ?q (mk_request ''DEPOSIT'' ''1001 5'') ?v =
      Inr ([\<lparr>status_code = 0, resp_message = ''Logged out successfully''\<rparr>], ?v)"
    using thread_serves_requests [of "[mk_request ''LOGOUT'' []]" "mk_request ''DEPOSIT'' ''1001 5''"
        "\<lambda>_. demo_env" ?v] by simp
  moreover have "conns installed_server 5 = None"
    by (simp add: installed_server_def server_init_def)
  ultimately show ?thesis using thread_serves_requests by blast
qed

section \<open>A request in two pieces\<close>

definition run_op :: "(st \<Rightarrow> bool \<times> st) \<Rightarrow> srv \<Rightarrow> srv" where
  \<comment> \<open>an operation on the database of the server\<close>
  "run_op f v = (let s = snd (f (start_st v)) in v\<lparr>srv_store := disk s, srv_tick := tick s\<rparr>)"

lemma handle_op:
  assumes "dispatch e op payload (start_st v) = served (f (start_st v))" "op \<noteq> ''LOGIN''" "op \<noteq> ''LOGOUT''"
  shows "handle_request e op payload cur v =
    Inr (\<lparr>status_code = 0, resp_message = resp_msg (snd (f (start_st v)))\<rparr>, cur, run_op f v)"
  using assms by (simp add: handle_request_def served_def run_op_def Let_def)

lemma handle_money:
  assumes "sscanf [Cu, Clf] pl = Inr [Au k, Alf d]"
  shows "\<exists>r. handle_request e ''DEPOSIT'' pl cur v =
      Inr (\<lparr>status_code = 0, resp_message = r\<rparr>, cur, run_op (deposit_money e k d) v)"
    "\<exists>r. handle_request e ''WITHDRAW'' pl cur v =
      Inr (\<lparr>status_code = 0, resp_message = r\<rparr>, cur, run_op (withdraw_money e k d) v)"
    "\<exists>r. handle_request e ''APPLY_LOAN'' pl cur v =
      Inr (\<lparr>status_code = 0, resp_message = r\<rparr>, cur, run_op (apply_loan e k d) v)"
  using handle_op [where f = "deposit_money e k d" and op = "''DEPOSIT''" and payload = pl]
    handle_op [where f = "withdraw_money e k d" and op = "''WITHDRAW''" and payload = pl]
    handle_op [where f = "apply_loan e k d" and op = "''APPLY_LOAN''" and payload = pl]
  by (simp_all add: dispatch_money [OF assms])

lemma unknown_command:
  assumes "is_digit_in 10 c"
  shows "handle_request e (c # w) payload cur v =
    Inr (\<lparr>status_code = 0, resp_message = ''Unknown command''\<rparr>, cur, v)"
proof -
  have "c \<noteq> CHR ''L''" "c \<noteq> CHR ''C''" "c \<noteq> CHR ''V''" "c \<noteq> CHR ''D''" "c \<noteq> CHR ''W''" "c \<noteq> CHR ''T''"
    "c \<noteq> CHR ''A''" "c \<noteq> CHR ''M''" "c \<noteq> CHR ''P''" "c \<noteq> CHR ''S''" "c \<noteq> CHR ''R''"
    using assms by (auto simp: is_digit_in_def digit_val_def)
  then show ?thesis
    by (simp add: handle_request_def routed say_def snprintf_fits size_defs start_st_def)
qed

lemma recv_two_pieces:
  assumes "well_sized r" "well_sized req"
  shows "recv_request (req_op r # q) req = (64, \<lparr>req_op = req_op r, req_payload = req_payload req\<rparr>, q)"
    "recv_request (req_payload r # q) req = (MAX_MSG_LEN,
       request_of (req_payload r @ drop MAX_MSG_LEN (request_bytes req)), q)"
  using assms
  by (simp_all add: recv_request_def request_size_def well_sized_def request_of_def request_bytes_def)

lemma dispatch_requests:
  assumes "m < 100 * 2 ^ 33" "op \<in> {''DEPOSIT'', ''WITHDRAW'', ''APPLY_LOAN''}"
    "req = mk_request op (fmt_u k @ '' '' @ fmt_f 6 (cents m))"
  shows "cstr (req_op req) = op"
    "sscanf [Cu, Clf] (cstr (req_payload req)) = Inr [Au k, Alf (cents m)]"
  using money_request [OF assms(1) _ _ assms(3)] assms(2) by auto

lemma fmt_u_digit: "\<exists>c w. fmt_u (k :: uid) = c # w \<and> is_digit_in 10 c"
proof -
  have "digits_of (unat k) \<noteq> []" "list_all (is_digit_in 10) (digits_of (unat k))"
    using digits_of_digits [of "unat k"] by simp_all
  then show ?thesis by (cases "digits_of (unat k)") (auto simp: fmt_u_def)
qed

lemma first_byte: "\<exists>y. req_payload (mk_request op (c # w)) = c # y"
  by (simp add: mk_request_def snprintf_def init_array_def size_defs take_Cons')

text \<open>
  C22: A request that arrives in two pieces is answered twice, the first time with the old
  payload: when a deposit is followed by a withdrawal whose name and arguments are read
  separately, the server withdraws the amount of the deposit, and answers the arguments with
  \<open>Unknown command\<close>; the amount of the withdrawal is never used.
\<close>

theorem split_withdrawal:
  assumes "m < 100 * 2 ^ 33" "n < 100 * 2 ^ 33" "well_sized req"
    "dep = mk_request ''DEPOSIT'' (fmt_u k @ '' '' @ fmt_f 6 (cents m))"
    "wd = mk_request ''WITHDRAW'' (fmt_u k @ '' '' @ fmt_f 6 (cents n))"
  shows "\<exists>r1 r2. client_thread es i [request_bytes dep, req_op wd, req_payload wd] req cur v =
    Inr ([r1, r2, \<lparr>status_code = 0, resp_message = ''Unknown command''\<rparr>],
      close_client cur (run_op (withdraw_money (es (Suc i)) k (cents m))
        (run_op (deposit_money (es i) k (cents m)) v)))"
proof -
  let ?v1 = "run_op (deposit_money (es i) k (cents m)) v"
  let ?v2 = "run_op (withdraw_money (es (Suc i)) k (cents m)) ?v1"
  let ?mix = "\<lparr>req_op = req_op wd, req_payload = req_payload dep\<rparr>"
  let ?rest = "request_of (req_payload wd @ drop MAX_MSG_LEN (request_bytes ?mix))"
  have ws: "well_sized dep" "well_sized wd" using assms(4,5) by simp_all
  then have wmix: "well_sized ?mix" by (simp add: well_sized_def)
  from dispatch_requests [OF assms(1) _ assms(4)]
  have d: "cstr (req_op dep) = ''DEPOSIT''" "sscanf [Cu, Clf] (cstr (req_payload dep)) = Inr [Au k, Alf (cents m)]"
    by simp_all
  have w: "cstr (req_op wd) = ''WITHDRAW''" using dispatch_requests(1) [OF assms(2) _ assms(5)] by simp
  obtain c x where f: "fmt_u k = c # x" "is_digit_in 10 c" using fmt_u_digit by blast
  then obtain y where "req_payload wd = c # y" using first_byte assms(5) by fastforce
  then have "\<exists>z. req_op ?rest = c # z" by (simp add: request_of_def take_Cons')
  moreover have "c \<noteq> NUL" using f(2) by (auto simp: is_digit_in_def digit_val_def)
  ultimately obtain z where "cstr (req_op ?rest) = c # z" by (auto simp: cstr_def)
  note c = this f(2)
  have u: "handle_request e (cstr (req_op ?rest)) pl cur ?v2 =
      Inr (\<lparr>status_code = 0, resp_message = ''Unknown command''\<rparr>, cur, ?v2)" for e pl
    unfolding c(1) by (rule unknown_command [OF c(2)])
  have "client_thread es (Suc (Suc i)) [req_payload wd] ?mix cur ?v2 =
      Inr ([\<lparr>status_code = 0, resp_message = ''Unknown command''\<rparr>], close_client cur ?v2)"
    using client_thread_read [OF recv_two_pieces(2) [OF ws(2) wmix] _
        u client_thread_end]
    by (simp add: size_defs)
  moreover obtain r2 where "handle_request (es (Suc i)) (cstr (req_op wd)) (cstr (req_payload dep)) cur ?v1 =
      Inr (\<lparr>status_code = 0, resp_message = r2\<rparr>, cur, ?v2)"
    using handle_money(2) [OF d(2)] unfolding w by blast
  ultimately have "client_thread es (Suc i) [req_op wd, req_payload wd] dep cur ?v1 =
      Inr ([\<lparr>status_code = 0, resp_message = r2\<rparr>, \<lparr>status_code = 0, resp_message = ''Unknown command''\<rparr>],
        close_client cur ?v2)"
    using client_thread_read [OF recv_two_pieces(1) [OF ws(2,1)]] by simp
  moreover obtain r1 where "handle_request (es i) (cstr (req_op dep)) (cstr (req_payload dep)) cur v =
      Inr (\<lparr>status_code = 0, resp_message = r1\<rparr>, cur, ?v1)"
    using handle_money(1) [OF d(2)] unfolding d(1) by blast
  ultimately show ?thesis
    using client_thread_read [OF recv_whole [OF ws(1) assms(3)]] by (simp add: request_size_def)
qed

theorem split_withdrawal_witness:
  "\<exists>r1 r2. client_thread (\<lambda>_. demo_env) 0
      [request_bytes (mk_request ''DEPOSIT'' (fmt_u (1005 :: uid) @ '' '' @ fmt_f 6 (cents 25000))),
       req_op (mk_request ''WITHDRAW'' (fmt_u (1005 :: uid) @ '' '' @ fmt_f 6 (cents 100))),
       req_payload (mk_request ''WITHDRAW'' (fmt_u (1005 :: uid) @ '' '' @ fmt_f 6 (cents 100)))]
      (mk_request [] []) 0 (server installed_server) =
    Inr ([r1, r2, \<lparr>status_code = 0, resp_message = ''Unknown command''\<rparr>],
      close_client 0 (run_op (withdraw_money demo_env 1005 (cents 25000))
        (run_op (deposit_money demo_env 1005 (cents 25000)) (server installed_server))))"
  by (rule split_withdrawal [where es = "\<lambda>_. demo_env"]) simp_all

end
