(* ===== verification/Entries.thy ===== *)
theory Entries
  imports Connection
begin

text \<open>
  The entries of the four menus of \<^verbatim>\<open>src/client.c\<close> as data: what is typed for each, the request
  the menu builds from it, and the operation the server runs for it. Left out are the two entries
  of the administrator that can never take effect.
\<close>

section \<open>The entries\<close>

datatype command =
    Balance | Deposit nat | Withdraw nat | Pay nat nat | Borrow nat | Loans
  | Tell string | Feedbacks | History | Details
  | Open_account string string int string string string string string
  | Edit_details nat string string int string string string
  | Pending | Decide "64 word" bool | Assigned | Movements nat
  | Set_active nat bool | Unassigned | Assign int int | Review
  | Change_role int string
  | New_password string

fun entry :: "role_t \<Rightarrow> command \<Rightarrow> int" where
  \<comment> \<open>the number of the entry in the menu of a role, 0 if it has none\<close>
  "entry ROLE_CUSTOMER Balance = 1" | "entry ROLE_CUSTOMER (Deposit m) = 2"
| "entry ROLE_CUSTOMER (Withdraw m) = 3" | "entry ROLE_CUSTOMER (Pay j m) = 4"
| "entry ROLE_CUSTOMER (Borrow m) = 5" | "entry ROLE_CUSTOMER Loans = 6"
| "entry ROLE_CUSTOMER (Tell w) = 7" | "entry ROLE_CUSTOMER Feedbacks = 8"
| "entry ROLE_CUSTOMER History = 9" | "entry ROLE_CUSTOMER Details = 10"
| "entry ROLE_CUSTOMER (New_password pw) = 11"
| "entry ROLE_EMPLOYEE (Open_account f l a ad em ph un pw) = 1"
| "entry ROLE_EMPLOYEE (Edit_details j f l a ad em ph) = 2" | "entry ROLE_EMPLOYEE Pending = 3"
| "entry ROLE_EMPLOYEE (Decide lid yes) = 4" | "entry ROLE_EMPLOYEE Assigned = 5"
| "entry ROLE_EMPLOYEE (Movements j) = 6" | "entry ROLE_EMPLOYEE (New_password pw) = 7"
| "entry ROLE_MANAGER (Set_active j yes) = 1" | "entry ROLE_MANAGER Unassigned = 2"
| "entry ROLE_MANAGER (Assign lid emp) = 3" | "entry ROLE_MANAGER Review = 4"
| "entry ROLE_MANAGER (New_password pw) = 5"
| "entry ROLE_ADMIN (Change_role j role) = 3" | "entry ROLE_ADMIN (New_password pw) = 4"
| "entry ro c = 0"

fun quit_entry :: "role_t \<Rightarrow> int" where
  "quit_entry ROLE_CUSTOMER = 12" | "quit_entry ROLE_EMPLOYEE = 8"
| "quit_entry ROLE_MANAGER = 6" | "quit_entry ROLE_ADMIN = 5"

definition account_line :: "nat \<Rightarrow> string" where
  "account_line j = line (''AC'' @ digits_of j)"

definition yes_no :: "bool \<Rightarrow> int" where
  "yes_no b = (if b then 1 else 0)"

fun answers :: "command \<Rightarrow> string" where
  \<comment> \<open>the lines typed at its prompts; amounts are in hundredths\<close>
  "answers (Deposit m) = line (amount_text m)"
| "answers (Withdraw m) = line (amount_text m)"
| "answers (Pay j m) = account_line j @ line (amount_text m)"
| "answers (Borrow m) = line (amount_text m)"
| "answers (Tell w) = line w"
| "answers (Open_account f l a ad em ph un pw) = customer_lines f l a ad em ph un pw"
| "answers (Edit_details j f l a ad em ph) =
     account_line j @ line f @ line l @ line (fmt_d a) @ line ad @ line em @ line ph"
| "answers (Decide lid yes) = line (fmt_u lid) @ line (fmt_d (yes_no yes))"
| "answers (Movements j) = account_line j"
| "answers (Set_active j yes) = account_line j @ line (fmt_d (yes_no yes))"
| "answers (Assign lid emp) = line (fmt_d lid) @ line (fmt_d emp)"
| "answers (Change_role j role) = line (fmt_d j) @ line role"
| "answers (New_password pw) = line pw"
| "answers c = []"

abbreviation amount_ok :: "nat \<Rightarrow> bool" where "amount_ok m \<equiv> 0 < m \<and> m < 100 * 2 ^ 33"
abbreviation int_ok :: "int \<Rightarrow> bool" where "int_ok i \<equiv> - (2 ^ 31) \<le> i \<and> i < 2 ^ 31"

fun acceptable :: "command \<Rightarrow> bool" where
  \<comment> \<open>words without white space that the validators of the client accept, which also let tabs and,
     in e-mails, blanks through; feedback may be any text; numbers within their range\<close>
  "acceptable (Deposit m) = amount_ok m"
| "acceptable (Withdraw m) = amount_ok m"
| "acceptable (Pay j m) = (j < 2 ^ 31 \<and> amount_ok m)"
| "acceptable (Borrow m) = amount_ok m"
| "acceptable (Tell w) = (is_line w \<and> w \<noteq> [] \<and> length w + 1 < 512)"
| "acceptable (Open_account f l a ad em ph un pw) =
     (name_line f \<and> name_line l \<and> int_ok a \<and> address_line ad \<and> email_line em \<and> phone_line ph \<and>
      credential_line un \<and> credential_line pw)"
| "acceptable (Edit_details j f l a ad em ph) =
     (j < 2 ^ 31 \<and> name_line f \<and> name_line l \<and> int_ok a \<and> address_line ad \<and> email_line em \<and> phone_line ph)"
| "acceptable (Movements j) = (j < 2 ^ 31)"
| "acceptable (Set_active j yes) = (j < 2 ^ 31)"
| "acceptable (Assign lid emp) = (int_ok lid \<and> int_ok emp)"
| "acceptable (Change_role j role) = (int_ok j \<and> role_line role)"
| "acceptable (New_password pw) = credential_line pw"
| "acceptable c = True"

definition proper :: "role_t \<Rightarrow> command \<Rightarrow> bool" where
  "proper ro c \<longleftrightarrow> entry ro c \<noteq> 0 \<and> acceptable c"

fun effect :: "env \<Rightarrow> uid \<Rightarrow> command \<Rightarrow> st \<Rightarrow> bool \<times> st" where
  \<comment> \<open>the operation an entry stands for, by user \<open>k\<close>\<close>
  "effect es k Balance = view_balance k"
| "effect es k (Deposit m) = deposit_money es k (cents m)"
| "effect es k (Withdraw m) = withdraw_money es k (cents m)"
| "effect es k (Pay j m) = transfer_funds es k (of_nat j) (cents m)"
| "effect es k (Borrow m) = apply_loan es k (cents m)"
| "effect es k Loans = view_loan_status k"
| "effect es k (Tell w) = add_feedback es k w"
| "effect es k Feedbacks = view_feedback_status k"
| "effect es k History = view_transaction_history es k"
| "effect es k Details = view_personal_details k"
| "effect es k (Open_account f l a ad em ph un pw) =
     add_new_customer es (set_details f l a ad em ph (stk_user es)) (stk_account es) un pw"
| "effect es k (Edit_details j f l a ad em ph) = modify_customer es (of_nat j) f l a ad em ph"
| "effect es k Pending = process_loans"
| "effect es k (Decide lid yes) = approve_reject_loan es lid (if yes then ''approve'' else ''reject'') k"
| "effect es k Assigned = view_assigned_loans k"
| "effect es k (Movements j) = view_customer_transactions es (of_nat j)"
| "effect es k (Set_active j yes) = set_account_status es (of_nat j) (if yes then 1 else 0)"
| "effect es k Unassigned = view_non_assigned_loans"
| "effect es k (Assign lid emp) = assign_loan_to_employee es (word_of_int lid) (word_of_int emp)"
| "effect es k Review = review_feedbacks es"
| "effect es k (Change_role j role) = change_user_role es (word_of_int j) role"
| "effect es k (New_password pw) = change_password es k pw"

section \<open>From the keyboard to the request\<close>

fun op_name :: "command \<Rightarrow> string" where
  "op_name Balance = ''VIEW_BALANCE''" | "op_name (Deposit m) = ''DEPOSIT''"
| "op_name (Withdraw m) = ''WITHDRAW''" | "op_name (Pay j m) = ''TRANSFER''"
| "op_name (Borrow m) = ''APPLY_LOAN''" | "op_name Loans = ''VIEW_LOAN''"
| "op_name (Tell w) = ''ADD_FEEDBACK''" | "op_name Feedbacks = ''VIEW_FEEDBACK''"
| "op_name History = ''VIEW_TRANSACTIONS''" | "op_name Details = ''VIEW_DETAILS''"
| "op_name (Open_account f l a ad em ph un pw) = ''ADD_CUSTOMER''"
| "op_name (Edit_details j f l a ad em ph) = ''MODIFY_CUSTOMER''"
| "op_name Pending = ''PROCESS_LOANS''" | "op_name (Decide lid yes) = ''APPROVE_REJECT_LOAN''"
| "op_name Assigned = ''VIEW_ASSIGNED_LOANS''" | "op_name (Movements j) = ''VIEW_CUST_TRANSACTIONS''"
| "op_name (Set_active j yes) = ''SET_ACCOUNT_STATUS''" | "op_name Unassigned = ''VIEW_NON_ASSIGNED_LOANS''"
| "op_name (Assign lid emp) = ''ASSIGN_LOAN''" | "op_name Review = ''REVIEW_FEEDBACK''"
| "op_name (Change_role j role) = ''CHANGE_ROLE''" | "op_name (New_password pw) = ''CHANGE_PASSWORD''"

fun arguments :: "uid \<Rightarrow> command \<Rightarrow> string" where
  "arguments k Balance = fmt_d (sint k)"
| "arguments k (Deposit m) = fmt_u k @ '' '' @ fmt_f 6 (cents m)"
| "arguments k (Withdraw m) = fmt_u k @ '' '' @ fmt_f 6 (cents m)"
| "arguments k (Pay j m) = fmt_u k @ '' '' @ fmt_u (of_nat j :: uid) @ '' '' @ fmt_f 6 (cents m)"
| "arguments k (Borrow m) = fmt_u k @ '' '' @ fmt_f 6 (cents m)"
| "arguments k (Tell w) = fmt_u k @ '' '' @ w"
| "arguments k (Open_account f l a ad em ph un pw) = add_customer_payload f l a ad em ph un pw"
| "arguments k (Edit_details j f l a ad em ph) = modify_payload (of_nat j) a f l ad em ph"
| "arguments k Pending = []"
| "arguments k (Decide lid yes) = fmt_u lid @ '' '' @ (if yes then ''approve'' else ''reject'') @ '' '' @ fmt_u k"
| "arguments k (Movements j) = fmt_u (of_nat j :: uid)"
| "arguments k (Set_active j yes) =
     fmt_u (of_nat j :: uid) @ '' '' @ fmt_u (word_of_int (yes_no yes) :: 32 word)"
| "arguments k Unassigned = []"
| "arguments k (Assign lid emp) = fmt_u (word_of_int lid :: 32 word) @ '' '' @ fmt_u (word_of_int emp :: 32 word)"
| "arguments k Review = []"
| "arguments k (Change_role j role) = fmt_u (word_of_int j :: 32 word) @ '' '' @ role"
| "arguments k (New_password pw) = fmt_u k @ '' '' @ pw"
| "arguments k c = fmt_u k"

definition command_request :: "uid \<Rightarrow> command \<Rightarrow> request_t" where
  "command_request k c = mk_request (op_name c) (arguments k c)"

fun role_choice :: "role_t \<Rightarrow> env \<Rightarrow> 'w net \<Rightarrow> uid \<Rightarrow> int \<Rightarrow> 'w tty \<Rightarrow> (action \<times> 'w tty) option" where
  "role_choice ROLE_CUSTOMER e net k = customer_choice e k"
| "role_choice ROLE_EMPLOYEE e net k = employee_choice e k"
| "role_choice ROLE_MANAGER e net k = manager_choice e k"
| "role_choice ROLE_ADMIN e net k = admin_choice e net k"

text \<open>What a menu does with the answers to one entry.\<close>

definition sends :: "'w tty \<Rightarrow> string \<Rightarrow> request_t \<Rightarrow> (action \<times> 'w tty) option \<Rightarrow> bool" where
  \<comment> \<open>the request is ready, the input is used up to \<open>r\<close>, the server has not changed\<close>
  "sends t r req x \<longleftrightarrow> (\<exists>t'. x = Some (Send req, t') \<and> stdin_bytes t' = r \<and> peer t' = peer t)"

lemma sends_again: "sends t r req (Some (Send req, t')) \<longleftrightarrow> stdin_bytes t' = r \<and> peer t' = peer t"
  by (auto simp: sends_def)

lemma ask_int_line:
  assumes "int_ok i" "stdin_bytes t = line (fmt_d i) @ r \<or> stdin_bytes t = LF # line (fmt_d i) @ r"
  shows "ask_int e v p t = (i, (printf p t)\<lparr>stdin_bytes := LF # r\<rparr>)"
  using assms scanf_d_line [of i "printf p t" r] scanf_d_next [of i "printf p t" r]
  by (auto simp: ask_int_def assigned_def)

lemma int_ok_yes_no: "int_ok (yes_no b)"
  by (simp add: yes_no_def)

lemma ask_account_sel:
  assumes "j < 2 ^ 31" "stdin_bytes t = account_line j @ r"
  obtains t' where "ask_account e p t = Some (of_nat j, t')" "stdin_bytes t' = r" "peer t' = peer t"
  using ask_account_typed [OF assms(1), of t r e p] assms(2) by (auto simp: account_line_def)

lemma password_sends:
  assumes "credential_line pw" "stdin_bytes t = line pw @ r"
  shows "sends t r (command_request k (New_password pw)) (change_password_action e k t)"
  using assms ask_line [of pw MAX_PASSWORD_LEN validate_credential t r e "''newpass''"
      "''Enter new password (no spaces)''"] typed_fits(5) [of pw] validators_accept(5) [of pw]
  by (auto simp: change_password_action_def command_request_def sends_def)

lemma customer_sends:
  assumes "proper ROLE_CUSTOMER c" "stdin_bytes t = answers c @ r"
  shows "sends t r (command_request k c) (customer_choice e k (entry ROLE_CUSTOMER c) t)"
proof -
  note defs = customer_choice_def command_request_def sends_def
  have ok: "acceptable c" "entry ROLE_CUSTOMER c \<noteq> 0" using assms(1) by (simp_all add: proper_def)
  show ?thesis
  proof (cases c)
    case (Deposit m)
    with ok assms ask_amount_typed [of m t r e "''Enter deposit amount''"] show ?thesis by (auto simp: defs)
  next
    case (Withdraw m)
    with ok assms ask_amount_typed [of m t r e "''Enter withdrawal amount''"] show ?thesis by (auto simp: defs)
  next
    case (Borrow m)
    with ok assms ask_amount_typed [of m t r e "''Enter loan amount''"] show ?thesis by (auto simp: defs)
  next
    case (Pay j m)
    let ?t0 = "printf ''Enter recipient Account No (e.g., AC1005): '' t"
    have j: "j < 2 ^ 31" "0 < m" "m < 100 * 2 ^ 33" using ok(1) Pay by simp_all
    have "stdin_bytes ?t0 = account_line j @ line (amount_text m) @ r" using assms(2) Pay by simp
    from ask_account_sel [OF j(1) this, of e "[]"] obtain t1 where
      1: "ask_account e [] ?t0 = Some (of_nat j, t1)" "stdin_bytes t1 = line (amount_text m) @ r"
      "peer t1 = peer ?t0" .
    from ask_amount_typed [OF j(2,3) 1(2), of e "''Enter amount''"] 1 Pay show ?thesis
      by (auto simp: defs)
  next
    case (Tell w)
    with ok assms ask_line [of w 512 validate_not_empty t r e "''feedback''" "''Enter feedback (max 512 chars)''"]
    show ?thesis by (auto simp: defs validate_not_empty_def)
  next
    case (New_password pw)
    with ok assms password_sends [of pw t r k e] show ?thesis by (simp add: customer_choice_def)
  qed (use ok assms in \<open>auto simp: defs\<close>)
qed

lemma employee_sends:
  assumes "proper ROLE_EMPLOYEE c" "stdin_bytes t = answers c @ r"
  shows "sends t r (command_request k c) (employee_choice e k (entry ROLE_EMPLOYEE c) t)"
proof -
  note defs = employee_choice_def command_request_def
  have ok: "acceptable c" "entry ROLE_EMPLOYEE c \<noteq> 0" using assms(1) by (simp_all add: proper_def)
  show ?thesis
  proof (cases c)
    case (Open_account f l a ad em ph un pw)
    with ok add_customer_typed [of f l a ad em ph un pw t r e] typed_fits(3) [of em] validators_accept(3) [of em]
      assms(2) show ?thesis by (auto simp: defs sends_def)
  next
    case (Edit_details j f l a ad em ph)
    with ok have j: "j < 2 ^ 31" by simp
    have "stdin_bytes t = account_line j @ line f @ line l @ line (fmt_d a) @ line ad @ line em @ line ph @ r"
      using assms(2) Edit_details by simp
    from ask_account_sel [OF j this, of e "''Enter customer Account No (e.g., AC1004)''"] obtain t1 where
      1: "ask_account e ''Enter customer Account No (e.g., AC1004)'' t = Some (of_nat j, t1)"
      "stdin_bytes t1 = line f @ line l @ line (fmt_d a) @ line ad @ line em @ line ph @ r" "peer t1 = peer t" .
    with modify_details_typed [of f l a ad em ph t1 r e "''MODIFY_CUSTOMER''" "of_nat j"] ok Edit_details
    show ?thesis by (auto simp: defs sends_def)
  next
    case (Decide lid yes)
    let ?t1 = "(printf ''Enter loan ID: '' t)\<lparr>stdin_bytes := LF # line (fmt_d (yes_no yes)) @ r\<rparr>"
    have "stdin_bytes (printf ''Enter loan ID: '' t) = line (fmt_u lid) @ line (fmt_d (yes_no yes)) @ r"
      using assms(2) Decide by simp
    note l = scanf_llu_line [OF this]
    have "stdin_bytes ?t1 = LF # line (fmt_d (yes_no yes)) @ r" by simp
    note a = ask_int_line [OF int_ok_yes_no disjI2 [OF this], of e "''action_code''" "''Approve (1) / Reject (0): ''"]
    show ?thesis
      using Decide by (simp add: defs decide_loan_action_def l assigned_def a) (simp add: yes_no_def sends_again)
  next
    case (Movements j)
    with ok ask_account_typed [of j t r e "''Enter customer Account No (e.g., AC1004)''"] assms(2) show ?thesis
      by (auto simp: defs sends_def account_line_def)
  next
    case (New_password pw)
    with ok assms password_sends [of pw t r k e] show ?thesis by (simp add: employee_choice_def)
  qed (use ok assms in \<open>auto simp: defs sends_def\<close>)
qed

lemma manager_sends:
  assumes "proper ROLE_MANAGER c" "stdin_bytes t = answers c @ r"
  shows "sends t r (command_request k c) (manager_choice e k (entry ROLE_MANAGER c) t)"
proof -
  note defs = manager_choice_def command_request_def
  have ok: "acceptable c" "entry ROLE_MANAGER c \<noteq> 0" using assms(1) by (simp_all add: proper_def)
  show ?thesis
  proof (cases c)
    case (Set_active j yes)
    with ok have j: "j < 2 ^ 31" by simp
    have "stdin_bytes t = account_line j @ line (fmt_d (yes_no yes)) @ r" using assms(2) Set_active by simp
    from ask_account_sel [OF j this, of e "''Enter customer Account No (e.g., AC1004)''"] obtain t1 where
      1: "ask_account e ''Enter customer Account No (e.g., AC1004)'' t = Some (of_nat j, t1)"
      "stdin_bytes t1 = line (fmt_d (yes_no yes)) @ r" "peer t1 = peer t" .
    with ask_int_line [OF int_ok_yes_no disjI1 [OF 1(2)], of e "''status''" "''Activate (1) / Deactivate (0): ''"]
    show ?thesis using Set_active by (simp add: defs sends_again)
  next
    case (Assign lid emp)
    let ?t1 = "(printf ''Enter loan ID: '' t)\<lparr>stdin_bytes := LF # line (fmt_d emp) @ r\<rparr>"
    have i: "int_ok lid" "int_ok emp" using ok(1) Assign by simp_all
    have "stdin_bytes t = line (fmt_d lid) @ line (fmt_d emp) @ r" using assms(2) Assign by simp
    note l = ask_int_line [OF i(1) disjI1 [OF this], of e "''loanId''" "''Enter loan ID: ''"]
    have "stdin_bytes ?t1 = LF # line (fmt_d emp) @ r" by simp
    note m = ask_int_line [OF i(2) disjI2 [OF this], of e "''empId''" "''Enter employee ID: ''"]
    show ?thesis using Assign by (simp add: defs l m sends_again)
  next
    case (New_password pw)
    with ok assms password_sends [of pw t r k e] show ?thesis by (simp add: manager_choice_def)
  qed (use ok assms in \<open>auto simp: defs sends_def\<close>)
qed

text \<open>Before it changes a role the administrator's menu shows the list of users, which changes
  nothing.\<close>

lemma list_users_served:
  assumes "conns b fd = Some cur"
  shows "\<exists>m. serve es fd (mk_request ''LIST_USERS'' []) b = (Replied \<lparr>status_code = 0, resp_message = m\<rparr>, b)"
proof -
  have "dispatch es ''LIST_USERS'' [] (start_st v) = served (list_all_users (start_st v))" for v
    by (simp add: routed)
  from handle_op [where f = list_all_users, OF this]
  have "handle_request es ''LIST_USERS'' [] cur v =
    Inr (\<lparr>status_code = 0, resp_message = resp_msg (snd (list_all_users (start_st v)))\<rparr>, cur,
      run_op list_all_users v)" for v by simp
  moreover have "run_op list_all_users v = v" for v
    by (auto simp: run_op_def list_all_users_def Let_def split: option.splits prod.splits)
  moreover have "(conns b)(fd \<mapsto> cur) = conns b" using assms by auto
  ultimately show ?thesis
    using assms by (simp add: serve_def mk_request_sel size_defs)
qed

lemma admin_sends:
  assumes "proper ROLE_ADMIN c" "stdin_bytes t = answers c @ r" "conns (peer t) fd = Some cur"
  shows "sends t r (command_request k c) (admin_choice e (serve es fd) k (entry ROLE_ADMIN c) t)"
proof -
  have ok: "acceptable c" "entry ROLE_ADMIN c \<noteq> 0" using assms(1) by (simp_all add: proper_def)
  show ?thesis
  proof (cases c)
    case (Change_role j role)
    obtain m where "serve es fd (mk_request ''LIST_USERS'' []) (peer t) =
      (Replied \<lparr>status_code = 0, resp_message = m\<rparr>, peer t)" using list_users_served [OF assms(3)] by blast
    then obtain t1 where 1: "send_request_and_get_response (serve es fd) (mk_request ''LIST_USERS'' [])
        (printf (line ''Fetching user list...'') t) = (\<lparr>status_code = 0, resp_message = m\<rparr>, t1)"
      "stdin_bytes t1 = line (fmt_d j) @ line role @ r" "peer t1 = peer t"
      using assms(2) Change_role by (simp add: send_request_and_get_response_def)
    let ?t2 = "show_response \<lparr>status_code = 0, resp_message = m\<rparr> t1"
    have i: "int_ok j" "role_line role" using ok(1) Change_role by simp_all
    have "stdin_bytes ?t2 = line (fmt_d j) @ line role @ r" "peer ?t2 = peer t"
      using 1(2,3) by (simp_all add: show_response_def)
    note a = ask_int_line [OF i(1) disjI1 [OF this(1)], of e "''targetId''" "''Enter user ID to change role: ''"]
    let ?t3 = "clear_stdin ((printf ''Enter user ID to change role: '' ?t2)\<lparr>stdin_bytes := LF # line role @ r\<rparr>)"
    have "stdin_bytes ?t3 = line role @ r" "peer ?t3 = peer t" using \<open>peer ?t2 = peer t\<close> by simp_all
    with ask_role_typed [OF this(1) i(2), of e "''Enter new role (employee/manager)''"] show ?thesis
      using Change_role by (auto simp: admin_choice_def change_role_action_def 1(1) a command_request_def sends_def)
  next
    case (New_password pw)
    with ok assms password_sends [of pw t r k e] show ?thesis by (simp add: admin_choice_def)
  qed (use ok in simp_all)
qed

lemma entry_sends:
  assumes "proper ro c" "stdin_bytes t = answers c @ r" "conns (peer t) fd = Some cur"
  shows "sends t r (command_request k c) (role_choice ro e (serve es fd) k (entry ro c) t)"
  using assms customer_sends employee_sends manager_sends admin_sends by (cases ro) simp_all

section \<open>From the request to the operation\<close>

lemma length_fmt_llu: "length (fmt_u (l :: 64 word)) \<le> 20"
proof -
  have "unat l < 10 ^ Suc 19" using unat_less [of l] by simp
  from length_digits_of [OF this] show ?thesis by (simp add: fmt_u_def)
qed

lemma arguments_fit:
  assumes "acceptable c"
  shows "clean (arguments k c)" "length (arguments k c) < MAX_MSG_LEN"
proof -
  have d: "length (fmt_d (sint k)) \<le> 11" using length_fmt_d [of "sint k"] sint_ge [of k] sint_lt [of k] by simp
  have u: "length (fmt_u w) \<le> 10" for w :: "32 word" by (rule length_fmt_u)
  note add = add_customer_payload_fits payload_clean and mod = modify_payload_fits
  have role: "role_line w \<Longrightarrow> clean w \<and> length w < 31" for w
    using token_clean by (auto simp: role_line_def token_def)
  show "clean (arguments k c)"
  proof (cases c)
    case (Open_account f l a ad em ph un pw)
    with assms line_clean show ?thesis by (simp add: payload_clean)
  next
    case (Edit_details j f l a ad em ph)
    with assms show ?thesis by (simp add: mod(2))
  next
    case (Change_role j w)
    with assms role show ?thesis by simp
  qed (use assms clean_fmt_cents line_clean(5) is_line_clean in auto)
  show "length (arguments k c) < MAX_MSG_LEN"
  proof (cases c)
    case (Pay j m)
    with assms u [of k] u [of "of_nat j"] length_fmt_cents [of m] show ?thesis by (simp add: size_defs)
  next
    case (Open_account f l a ad em ph un pw)
    with assms typed_lengths(3) [of em] show ?thesis by (simp add: add(1))
  next
    case (Edit_details j f l a ad em ph)
    with assms show ?thesis by (simp add: mod(1))
  next
    case (Decide lid yes)
    with u [of k] length_fmt_llu [of lid] show ?thesis by (simp add: size_defs)
  next
    case (Set_active j yes)
    with u [of "of_nat j"] u [of "word_of_int (yes_no yes)"] show ?thesis by (simp add: size_defs)
  next
    case (Assign lid emp)
    with u [of "word_of_int lid"] u [of "word_of_int emp"] show ?thesis by (simp add: size_defs)
  next
    case (Movements j)
    with u [of "of_nat j"] show ?thesis by (simp add: size_defs)
  next
    case (Change_role j w)
    with assms role u [of "word_of_int j"] show ?thesis by (fastforce simp: size_defs)
  qed (use assms d u [of k] length_fmt_cents typed_lengths(5) in \<open>fastforce simp: size_defs\<close>)+
qed

lemma op_name_fits: "clean (op_name c)" "length (op_name c) \<le> 64" "op_name c \<noteq> ''LOGIN''" "op_name c \<noteq> ''LOGOUT''"
  by (cases c; simp)+

lemma request_sel:
  assumes "acceptable c"
  shows "cstr (req_op (command_request k c)) = op_name c"
    "cstr (req_payload (command_request k c)) = arguments k c"
  using mk_request_sel [OF op_name_fits(1,2) arguments_fit [OF assms]] by (simp_all add: command_request_def)

lemma scan_user: "sscanf [Cu] (fmt_u k) = Inr [Au k]" "sscanf [Cu] (fmt_d (sint k)) = Inr [Au k]"
  "sscanf [Cu] (fmt_u k @ CHR '' '' # w) = Inr [Au k]"
  "sscanf [Cu] (CHR '' '' # fmt_u k) = Inr [Au k]"
  using sscanf_number(1) [of "[]" "[]" k] sscanf_number(3) [of "[]" "[]" k]
    sscanf_number(1) [of "CHR '' '' # w" "[]" k] sscanf_number(2) [of "[]" "[]" k]
  by simp_all

lemma scan_decision:
  "sscanf [Cllu, Cs 32, Cu] (fmt_u lid @ CHR '' '' # ''approve'' @ CHR '' '' # fmt_u k) =
     Inr [Allu lid, As ''approve'', Au k]"
  "sscanf [Cllu, Cs 32, Cu] (fmt_u lid @ CHR '' '' # ''reject'' @ CHR '' '' # fmt_u k) =
     Inr [Allu lid, As ''reject'', Au k]"
proof -
  have t: "token 32 ''approve''" "token 32 ''reject''" by (simp_all add: token_def is_space_def)
  show "sscanf [Cllu, Cs 32, Cu] (fmt_u lid @ CHR '' '' # ''approve'' @ CHR '' '' # fmt_u k) =
     Inr [Allu lid, As ''approve'', Au k]"
    using sscanf_word(2) [OF t(1), of "CHR '' '' # fmt_u k" "[Cu]"] scan_user(4) [of k]
    by (simp add: sscanf_number del: sscanf.simps)
  show "sscanf [Cllu, Cs 32, Cu] (fmt_u lid @ CHR '' '' # ''reject'' @ CHR '' '' # fmt_u k) =
     Inr [Allu lid, As ''reject'', Au k]"
    using sscanf_word(2) [OF t(2), of "CHR '' '' # fmt_u k" "[Cu]"] scan_user(4) [of k]
    by (simp add: sscanf_number del: sscanf.simps)
qed

lemma after_blank: "dropWhile (\<lambda>c. c \<noteq> CHR '' '') (fmt_u k @ CHR '' '' # w) = CHR '' '' # w"
proof -
  have "list_all (\<lambda>c. c \<noteq> CHR '' '') (fmt_u k)"
    using digits_of_digits(1) [of "unat k"]
    by (auto simp: fmt_u_def list_all_iff is_digit_in_def digit_val_def)
  then show ?thesis by (simp add: list_all_iff dropWhile_append2)
qed

lemma dispatch_command:
  assumes "acceptable c"
  shows "dispatch es (op_name c) (arguments k c) s = served (effect es k c s)"
proof -
  note off = sscanf.simps and nums = sscanf_number scan_user
  note sel = request_sel(2) [OF assms, of k, unfolded command_request_def]
  show ?thesis
  proof (cases c)
    case (Pay j m)
    with assms transfer_request(2) [of m _ k "of_nat j", OF _ refl] sel show ?thesis
      by (simp add: routed del: off)
  next
    case (New_password pw)
    with assms typed_tokens(7) [of pw] show ?thesis by (simp add: routed nums sscanf_last del: off)
  next
    case (Tell w)
    then show ?thesis by (simp add: routed scan_user after_blank del: off)
  next
    case (Deposit m)
    with assms money_request(2) [of m "''DEPOSIT''" _ k, OF _ _ _ refl] sel show ?thesis
      by (simp add: dispatch_money del: off)
  next
    case (Withdraw m)
    with assms money_request(2) [of m "''WITHDRAW''" _ k, OF _ _ _ refl] sel show ?thesis
      by (simp add: dispatch_money del: off)
  next
    case (Borrow m)
    with assms money_request(2) [of m "''APPLY_LOAN''" _ k, OF _ _ _ refl] sel show ?thesis
      by (simp add: dispatch_money del: off)
  next
    case (Open_account f l a ad em ph un pw)
    with assms show ?thesis by (simp add: routed scan_add_customer del: off)
  next
    case (Edit_details j f l a ad em ph)
    with assms show ?thesis by (simp add: routed scan_modify_payload del: off)
  next
    case (Decide lid yes)
    then show ?thesis using scan_decision [of lid k] by (simp add: routed arg_llu_def del: off)
  next
    case (Change_role j w)
    with assms token_mono [of 31 w 32] show ?thesis
      by (simp add: routed nums sscanf_last role_line_def del: off)
  qed (simp_all add: routed nums yes_no_def del: off)
qed

lemma serve_command:
  assumes "acceptable c" "conns b fd = Some cur"
  shows "\<exists>m. serve es fd (command_request k c) b =
    (Replied \<lparr>status_code = 0, resp_message = m\<rparr>, b\<lparr>server := run_op (effect es k c) (server b)\<rparr>)"
proof -
  have "(conns b)(fd \<mapsto> cur) = conns b" using assms(2) by auto
  then show ?thesis
    using assms(2) handle_op [where f = "effect es k c", OF dispatch_command [OF assms(1)] op_name_fits(3,4)]
    by (simp add: serve_def request_sel [OF assms(1)])
qed

end
