(* ===== verification/Visit.thy ===== *)
theory Visit
  imports Entries
begin

text \<open>
  A whole visit of a user: from the role menu through the login, any sequence of entries of the
  menu of the role and the logout, typed at the keyboard of \<^verbatim>\<open>src/client.c\<close>, to the operations
  of the four modules on the database of the server.
\<close>

section \<open>The menu loop\<close>

definition typed :: "role_t \<Rightarrow> command \<Rightarrow> string" where
  "typed ro c = line (fmt_d (entry ro c)) @ answers c"

definition run_commands :: "env \<Rightarrow> uid \<Rightarrow> command list \<Rightarrow> srv \<Rightarrow> srv" where
  "run_commands es k cs v = foldl (\<lambda>v c. run_op (effect es k c) v) v cs"

lemma run_commands_simps [simp]:
  "run_commands es k [] v = v"
  "run_commands es k (c # cs) v = run_commands es k cs (run_op (effect es k c) v)"
  by (simp_all add: run_commands_def)

lemma entry_bounds: "- (2 ^ 31) \<le> entry ro c" "entry ro c < 2 ^ 31"
  by (cases ro; cases c; simp)+

lemma entry_not_quit: "(if entry ro c = quit_entry ro then a else b) = b"
  by (cases ro; cases c) simp_all

lemma quit_bounds: "- (2 ^ 31) \<le> quit_entry ro" "quit_entry ro < 2 ^ 31"
  by (cases ro; simp)+

lemma response_ok: "status_code \<lparr>status_code = 0, resp_message = m\<rparr> \<noteq> -1"
  by simp

abbreviation role_loop ::
  "role_t \<Rightarrow> env \<Rightarrow> 'w net \<Rightarrow> string \<Rightarrow> uid \<Rightarrow> 'w tty \<Rightarrow> 'w tty option" where
  "role_loop ro e net menu k \<equiv> menu_loop net menu (role_choice ro e net k) (quit_entry ro)"

lemma menu_round:
  assumes "stdin_bytes t = line (fmt_d i) @ r" "- (2 ^ 31) \<le> i" "i < 2 ^ 31"
    "\<And>t0. stdin_bytes t0 = r \<Longrightarrow> peer t0 = peer t \<Longrightarrow>
      \<exists>t1. pick i t0 = Some (Send req, t1) \<and> stdin_bytes t1 = r1 \<and> peer t1 = peer t"
    "net req (peer t) = (Replied resp, w)" "status_code resp \<noteq> -1"
  shows "\<exists>t2. menu_loop net menu pick quit t = (if i = quit then Some t2 else menu_loop net menu pick quit t2) \<and>
    stdin_bytes t2 = r1 \<and> peer t2 = w"
proof -
  have "stdin_bytes (printf menu t) = line (fmt_d i) @ r" using assms(1) by simp
  note s = scanf_d_line [OF assms(2,3) this]
  let ?t0 = "clear_stdin ((printf menu t)\<lparr>stdin_bytes := LF # r\<rparr>)"
  have "stdin_bytes ?t0 = r" "peer ?t0 = peer t" by simp_all
  from assms(4) [OF this] obtain t1 where
    t1: "pick i ?t0 = Some (Send req, t1)" "stdin_bytes t1 = r1" "peer t1 = peer t" by blast
  have "send_request_and_get_response net req t1 = (resp, t1\<lparr>peer := w\<rparr>)"
    using assms(5) t1(3) by (simp add: send_request_and_get_response_def)
  then show ?thesis
    using assms(6) t1(1,2)
    by (intro exI [of _ "show_response resp (t1\<lparr>peer := w\<rparr>)"])
      (simp add: menu_loop.simps [of net menu] s show_response_def)
qed

lemma commands_run:
  assumes "list_all (proper ro) cs" "conns (peer t) fd = Some cur"
    "stdin_bytes t = concat (map (typed ro) cs) @ r"
  shows "\<exists>t'. role_loop ro e (serve es fd) menu k t = role_loop ro e (serve es fd) menu k t' \<and>
    stdin_bytes t' = r \<and> peer t' = (peer t)\<lparr>server := run_commands es k cs (server (peer t))\<rparr>"
  using assms
proof (induction cs arbitrary: t)
  case Nil
  then show ?case by (intro exI [of _ t]) simp
next
  case (Cons c cs)
  then have c: "proper ro c" and l: "stdin_bytes t = line (fmt_d (entry ro c)) @ answers c @ concat (map (typed ro) cs) @ r"
    by (simp_all, simp add: typed_def)
  obtain m where s: "serve es fd (command_request k c) (peer t) =
      (Replied \<lparr>status_code = 0, resp_message = m\<rparr>,
       (peer t)\<lparr>server := run_op (effect es k c) (server (peer t))\<rparr>)"
    using serve_command [OF _ Cons.prems(2)] c unfolding proper_def by blast
  have ch: "\<exists>t1. role_choice ro e (serve es fd) k (entry ro c) t0 = Some (Send (command_request k c), t1) \<and>
      stdin_bytes t1 = concat (map (typed ro) cs) @ r \<and> peer t1 = peer t"
    if "stdin_bytes t0 = answers c @ concat (map (typed ro) cs) @ r" "peer t0 = peer t" for t0
    using entry_sends [OF c that(1), of fd cur k e es] that(2) Cons.prems(2) by (simp add: sends_def)
  obtain t1 where t1: "role_loop ro e (serve es fd) menu k t = role_loop ro e (serve es fd) menu k t1"
    "stdin_bytes t1 = concat (map (typed ro) cs) @ r"
    "peer t1 = (peer t)\<lparr>server := run_op (effect es k c) (server (peer t))\<rparr>"
    using menu_round [where net = "serve es fd" and pick = "role_choice ro e (serve es fd) k" and menu = menu
        and quit = "quit_entry ro", OF l entry_bounds ch s response_ok] unfolding entry_not_quit by blast
  with Cons.IH [of t1] Cons.prems show ?case by auto
qed

text \<open>The last entry, and the way in.\<close>

lemma user_leaves:
  assumes "conns (peer t) fd = Some cur" "stdin_bytes t = line (fmt_d (quit_entry ro)) @ r"
  shows "\<exists>t'. role_loop ro e (serve es fd) menu k t = Some t' \<and> stdin_bytes t' = r \<and>
    peer t' = (peer t)\<lparr>server := (server (peer t))\<lparr>active_sessions :=
        remove_active_session cur (active_sessions (server (peer t)))\<rparr>, conns := (conns (peer t))(fd \<mapsto> 0)\<rparr>"
proof -
  let ?b = "(peer t)\<lparr>server := (server (peer t))\<lparr>active_sessions :=
        remove_active_session cur (active_sessions (server (peer t)))\<rparr>, conns := (conns (peer t))(fd \<mapsto> 0)\<rparr>"
  have "cstr (req_op (mk_request ''LOGOUT'' [])) = ''LOGOUT''" by (simp add: mk_request_sel size_defs)
  then have s: "serve es fd (mk_request ''LOGOUT'' []) (peer t) =
      (Replied \<lparr>status_code = 0, resp_message = ''Logged out successfully''\<rparr>, ?b)"
    using assms(1) by (simp add: serve_def handle_request_def)
  have "\<exists>t1. role_choice ro e (serve es fd) k (quit_entry ro) t0 = Some (Send (mk_request ''LOGOUT'' []), t1) \<and>
      stdin_bytes t1 = r \<and> peer t1 = peer t" if "stdin_bytes t0 = r" "peer t0 = peer t" for t0
    using that
    by (cases ro) (simp_all add: customer_choice_def employee_choice_def manager_choice_def admin_choice_def)
  from menu_round [where net = "serve es fd" and pick = "role_choice ro e (serve es fd) k" and menu = menu
      and quit = "quit_entry ro", OF assms(2) quit_bounds this s response_ok]
  show ?thesis by (simp only: if_True) simp
qed

fun role_number_typed :: "role_t \<Rightarrow> int" where
  "role_number_typed ROLE_CUSTOMER = 1" | "role_number_typed ROLE_EMPLOYEE = 2"
| "role_number_typed ROLE_MANAGER = 3" | "role_number_typed ROLE_ADMIN = 4"

lemma role_typed_valid: "valid_role (role_number_typed ro) (role_str ro)" "role_number_typed ro \<noteq> 5"
  "- (2 ^ 31) \<le> role_number_typed ro" "role_number_typed ro < 2 ^ 31"
  by (cases ro; simp add: valid_role_def)+

lemma user_logs_in:
  assumes "credential_line un" "credential_line pw" "conns (peer t) fd = Some 0"
    "login_user es un pw (start_st (server (peer t))) = Login_ok k (role_str ro) nm"
    "nm \<noteq> []" "LF \<notin> set nm" "length nm < MAX_FNAME_LEN"
    "k \<notin> set (active_sessions (server (peer t)))" "0 \<in> set (active_sessions (server (peer t)))"
    "stdin_bytes t = line (fmt_d (role_number_typed ro)) @ line un @ line pw @ r"
  shows "\<exists>t'. login_loop e (serve es fd) t = Some (Inr (Some (k, role_str ro, nm)), t') \<and> stdin_bytes t' = r \<and>
    peer t' = (peer t)\<lparr>server := (server (peer t))\<lparr>active_sessions :=
        replace_first 0 k (active_sessions (server (peer t)))\<rparr>, conns := (conns (peer t))(fd \<mapsto> k)\<rparr>"
proof -
  let ?n = "role_number_typed ro"
  let ?b = "(peer t)\<lparr>server := (server (peer t))\<lparr>active_sessions :=
        replace_first 0 k (active_sessions (server (peer t)))\<rparr>, conns := (conns (peer t))(fd \<mapsto> k)\<rparr>"
  let ?resp = "\<lparr>status_code = 0, resp_message = login_reply k (role_str ro) nm\<rparr>"
  have "stdin_bytes (printf role_text t) = line (fmt_d ?n) @ line un @ line pw @ r" using assms(10) by simp
  note s = scanf_d_line [OF role_typed_valid(3,4) this]
  let ?t0 = "clear_stdin ((printf role_text t)\<lparr>stdin_bytes := LF # line un @ line pw @ r\<rparr>)"
  have t0: "stdin_bytes ?t0 = line un @ line pw @ r" "peer ?t0 = peer t" by simp_all
  obtain t1 where 1: "ask_username e ''Username'' ?t0 = Some (un, t1)" "stdin_bytes t1 = line pw @ r"
    "peer t1 = peer ?t0" using ask_field(6) [OF t0(1) assms(1)] by blast
  obtain t2 where 2: "ask_password e ''Password'' t1 = Some (pw, t2)" "stdin_bytes t2 = r" "peer t2 = peer t"
    using ask_field(7) [OF 1(2) assms(2)] 1(3) t0(2) by metis
  have "open_session k 0 (active_sessions (server (peer t))) =
      (True, k, replace_first 0 k (active_sessions (server (peer t))))"
    using assms(8,9) by (simp add: open_session_def)
  from serve_login [OF assms(1-4,7) this] have
    "send_request_and_get_response (serve es fd) (mk_request ''LOGIN'' (un @ '' '' @ pw)) t2 =
      (?resp, t2\<lparr>peer := ?b\<rparr>)" using 2(3) by (simp add: send_request_and_get_response_def)
  moreover have tw: "takeWhile (\<lambda>c. c \<noteq> LF) nm = nm" using assms(6) by (auto simp: takeWhile_eq_all_conv)
  have "parse_login (resp_message ?resp) = Inr (Some (k, role_str ro, nm))"
    using parse_login_success [of "role_str ro" nm k] role_str_token [of ro] assms(5,7)
    by (simp add: login_reply_def tw)
  ultimately have "\<exists>t3. login_attempt e (serve es fd) ?n ?t0 = Some (Inr (Some (k, role_str ro, nm)), t3) \<and>
      stdin_bytes t3 = r \<and> peer t3 = ?b"
    using 1(1) 2(1,2) role_typed_valid(1) [of ro] by (simp add: login_attempt_def)
  then show ?thesis
    using role_typed_valid(2) [of ro] by (auto simp: login_loop.simps [of e "serve es fd" t] s)
qed

lemma client_exits:
  assumes "stdin_bytes t = line (fmt_d 5) @ r"
  shows "\<exists>t'. client_main e net t = Some (Inr (), t') \<and> stdin_bytes t' = r \<and> peer t' = peer t"
proof -
  have "stdin_bytes (printf role_text t) = line (fmt_d 5) @ r" using assms by simp
  note s = scanf_d_line [OF _ _ this, simplified]
  show ?thesis by (simp add: client_main.simps [of e net t] login_loop.simps [of e net t] s)
qed

section \<open>The visit\<close>

lemma run_op_sessions:
  "run_op f (v\<lparr>active_sessions := ss\<rparr>) = (run_op f v)\<lparr>active_sessions := ss\<rparr>"
  "active_sessions (run_op f v) = active_sessions v"
  by (simp_all add: run_op_def start_st_def Let_def)

lemma run_commands_sessions:
  "run_commands es k cs (v\<lparr>active_sessions := ss\<rparr>) = (run_commands es k cs v)\<lparr>active_sessions := ss\<rparr>"
  "active_sessions (run_commands es k cs v) = active_sessions v"
  by (induction cs arbitrary: v) (simp_all add: run_op_sessions)

text \<open>The menu a role leads to.\<close>

lemma role_menu_loop:
  assumes "k \<noteq> 0"
  obtains menu where "role_menu e net k (role_str ro) nm t = role_loop ro e net menu k t"
  using assms that
  by (cases ro) (simp_all add: role_menu_def customer_menu_def employee_menu_def manager_menu_def admin_menu_def)


text \<open>An employee with a name, who approves the loan that is assigned to her, looks at the
  movements of the customer and changes her password.\<close>

definition visitor :: user_rec where
  "visitor = (demo_user 1003 ROLE_EMPLOYEE ''eve'')\<lparr>first_name := init_array MAX_FNAME_LEN ''Eve''\<rparr>"

definition visited :: bank where
  "visited = \<lparr>server = (demo_server (slot_table []))\<lparr>srv_store := demo_store\<lparr>users_db := Some [visitor]\<rparr>\<rparr>,
     conns = [3 \<mapsto> 0]\<rparr>"

definition errands :: "command list" where
  "errands = [Decide 1 True, Movements 1001, New_password ''pw2'']"

definition errand_lines :: string where
  "errand_lines = line (fmt_d (role_number_typed ROLE_EMPLOYEE)) @ line ''eve'' @ line ''pw'' @
     concat (map (typed ROLE_EMPLOYEE) errands) @ line (fmt_d (quit_entry ROLE_EMPLOYEE)) @ line (fmt_d 5) @ []"

lemma visitor_login:
  "login_user demo_env ''eve'' ''pw'' (start_st (server visited)) = Login_ok 1003 ''employee'' ''Eve''"
proof -
  have "accounts_db (disk (start_st (server visited))) = Some [holder 1001 500, holder 1002 40]"
    by (simp add: visited_def start_st_def demo_store_def)
  then have "read_account 1003 (start_st (server visited)) = None"
    by (simp add: read_account_def read_rec_def holder_def)
  moreover have "cstr (strncpy ((stk_arr demo_env ''name'')[0 := NUL]) (cstr (first_name visitor)) (MAX_FNAME_LEN - 1)) = ''Eve''"
    by code_simp
  moreover have "cstr (username visitor) = ''eve''" "cstr (password_hash visitor) = ''$6$IIITB$pw''"
    by code_simp+
  ultimately show ?thesis
    using demo_verify by (simp add: login_user_def visited_def start_st_def visitor_def)
qed


end
