(* ===== verification/Locks.thy ===== *)
theory Locks
  imports Customer
begin

text \<open>
  The \<^verbatim>\<open>fcntl\<close> locks of \<^verbatim>\<open>src/utils.c\<close> and the system calls of its three kinds of writers, so that
  several threads interleave on one file: \<open>atomic_update_*\<close>, \<open>append_*\<close> and \<open>write_*\<close>. Every call that
  reads or changes what the threads share is a step of its own: each \<open>read\<close> of the search loops, the
  \<open>lseek\<close> that asks for the size, each lock, write, unlock and close; an \<open>open\<close> and a \<open>lseek\<close> to a
  known offset belong to the step after them. A POSIX record lock belongs to a process: it only
  keeps other processes out, it is granted only on a descriptor open for writing, and closing any
  descriptor of the file drops all locks the process has on it. Opening, locking a record and
  writing may fail; reading a record that is there does not, and a write is done whole or not at
  all. A thread that waits for a lock has no step. The file exists and is any of the five: \<open>key\<close>
  is the field its records are found by.
\<close>

section \<open>Record locks\<close>

text \<open>\<open>Except is\<close> is the whole file (\<open>l_len = 0\<close>) without the records of \<open>is\<close>, which were
  unlocked one by one.\<close>

datatype range = Except "nat list" | Rec nat

abbreviation Whole :: range where "Whole \<equiv> Except []"

fun overlap :: "range \<Rightarrow> range \<Rightarrow> bool" where
  "overlap (Rec i) (Rec j) = (i = j)"
| "overlap (Rec i) (Except js) = (i \<notin> set js)"
| "overlap (Except is) (Rec j) = (j \<notin> set is)"
| "overlap (Except is) (Except js) = True"

type_synonym lock_table = "(nat \<times> range) list"

datatype lock_result = Bad_descriptor | Wait | Granted lock_table

definition fcntl_setlkw :: "bool \<Rightarrow> nat \<Rightarrow> range \<Rightarrow> lock_table \<Rightarrow> lock_result" where
  \<comment> \<open>\<open>fcntl(fd, F_SETLKW, F_WRLCK)\<close> of process \<open>p\<close> on a descriptor that is \<open>writable\<close> or not\<close>
  "fcntl_setlkw writable p rg h =
     (if \<not> writable then Bad_descriptor
      else if list_ex (\<lambda>(q, r). q \<noteq> p \<and> overlap r rg) h then Wait
      else Granted ((p, rg) # h))"

definition lock_file :: "bool \<Rightarrow> nat \<Rightarrow> lock_table \<Rightarrow> lock_result" where
  "lock_file writable p h = fcntl_setlkw writable p Whole h"

definition lock_record :: "nat \<Rightarrow> nat \<Rightarrow> lock_table \<Rightarrow> lock_result" where
  \<comment> \<open>only called on descriptors that are open for writing\<close>
  "lock_record p i h = fcntl_setlkw True p (Rec i) h"

definition unlock_file :: "nat \<Rightarrow> lock_table \<Rightarrow> lock_table" where
  "unlock_file p h = filter (\<lambda>(q, r). q \<noteq> p) h"

fun unlock_range :: "nat \<Rightarrow> range \<Rightarrow> range option" where
  \<comment> \<open>what is left of a locked range without record \<open>i\<close>\<close>
  "unlock_range i (Rec j) = (if j = i then None else Some (Rec j))"
| "unlock_range i (Except js) = Some (Except (i # js))"

fun unlock_record :: "nat \<Rightarrow> nat \<Rightarrow> lock_table \<Rightarrow> lock_table" where
  "unlock_record p i [] = []"
| "unlock_record p i ((q, r) # h) =
     (if q \<noteq> p then (q, r) # unlock_record p i h
      else (case unlock_range i r of
              None \<Rightarrow> unlock_record p i h
            | Some r' \<Rightarrow> (q, r') # unlock_record p i h))"

definition close_fd :: "nat \<Rightarrow> lock_table \<Rightarrow> lock_table" where
  "close_fd p h = filter (\<lambda>(q, r). q \<noteq> p) h"

section \<open>Interleaved writers\<close>

text \<open>
  What a thread does to the file: an update of the record with a key by what the modifier makes
  of it; the same with a modifier that searches the file itself, as the two that call
  \<open>check_uniqueness\<close> do; an append of the record built from the number of records; a record to be
  put in the place of the one with its key, or at the end.
\<close>

datatype ('k, 'r) job =
    Update 'k "'r \<Rightarrow> 'r option" | Recheck 'k "'r list \<Rightarrow> 'r \<Rightarrow> 'r option"
  | Append "nat \<Rightarrow> 'r" | Put 'r

fun search_key :: "('k, 'r) job \<Rightarrow> 'k option" where
  "search_key (Update k m) = Some k"
| "search_key (Recheck k m) = Some k"
| "search_key j = None"

text \<open>How far a thread is. Of the search for the record: \<open>Searching n\<close> has read \<open>n\<close> records in vain,
  \<open>Found\<close> has left the loop and \<open>Searched\<close> has unlocked the file. Of an update: \<open>Holding i r\<close> has read
  record \<open>i\<close> and the modifier has turned the copy into \<open>r\<close>; \<open>Checking i r us\<close> is in
  \<open>check_uniqueness\<close> with the copy \<open>r\<close> and has read the records \<open>us\<close>, \<open>Checked\<close> and \<open>Rechecked\<close> know what
  becomes of the copy. Of an append: \<open>Appending r\<close> has numbered its record. Of \<open>write_*\<close>: \<open>Placing n\<close>
  has read \<open>n\<close> records in vain, \<open>At_end\<close> all of them, \<open>Placed i r\<close> knows where \<open>r\<close> goes. The flag of the
  last phases says whether the record reached the file; \<open>Ending\<close> has unlocked it.\<close>

datatype 'r phase = Start
  | Searching nat | Found "nat option" | Searched "nat option"
  | Located nat | Locked nat | Holding nat 'r
  | Checking nat 'r "'r list" | Checked nat "'r option" | Rechecked nat "'r option" | Leaving nat bool
  | Inside | Appending 'r | Placing nat | At_end | Placed nat 'r | Closing bool
  | Ending bool | Finished bool

record 'r shared =
  rec_file :: "'r list"
  held :: lock_table
  phase_of :: "nat \<Rightarrow> 'r phase"

definition read_lock :: "nat \<Rightarrow> lock_table \<Rightarrow> lock_table" where
  \<comment> \<open>\<open>lock_file\<close> on a read-only descriptor, its error ignored\<close>
  "read_lock p h = (case lock_file False p h of Granted h1 \<Rightarrow> h1 | _ \<Rightarrow> h)"

definition place_of :: "('r \<Rightarrow> 'k) \<Rightarrow> 'r \<Rightarrow> 'r list \<Rightarrow> nat" where
  \<comment> \<open>\<open>pos\<close> of the loop in \<open>write_account\<close>, or the end of the file\<close>
  "place_of key r rs = (case scan_offset (\<lambda>x. key x = key r) rs of Some i \<Rightarrow> i | None \<Rightarrow> length rs)"

fun go_on :: "nat option \<Rightarrow> 'r phase" where
  \<comment> \<open>\<open>if (offset < 0) return 0\<close>\<close>
  "go_on None = Finished False"
| "go_on (Some i) = Located i"

fun outcome_phase :: "nat \<Rightarrow> 'r option \<Rightarrow> 'r phase" where
  \<comment> \<open>what the modifier returned\<close>
  "outcome_phase i None = Leaving i False"
| "outcome_phase i (Some r) = Holding i r"

inductive file_step ::
  "('r \<Rightarrow> 'k) \<Rightarrow> (nat \<Rightarrow> nat) \<Rightarrow> (nat \<Rightarrow> ('k, 'r) job) \<Rightarrow> nat \<Rightarrow> 'r shared \<Rightarrow> 'r shared \<Rightarrow> bool"
  for key :: "'r \<Rightarrow> 'k" and pid :: "nat \<Rightarrow> nat" and jobs :: "nat \<Rightarrow> ('k, 'r) job" and t :: nat where
  \<comment> \<open>\<open>find_*_offset\<close>\<close>
  search_open_fails: "phase_of s t = Start \<Longrightarrow> search_key (jobs t) = Some k \<Longrightarrow>
     file_step key pid jobs t s (s\<lparr>phase_of := (phase_of s)(t := Finished False)\<rparr>)"
| search: "phase_of s t = Start \<Longrightarrow> search_key (jobs t) = Some k \<Longrightarrow>
     file_step key pid jobs t s
       (s\<lparr>held := read_lock (pid t) (held s), phase_of := (phase_of s)(t := Searching 0)\<rparr>)"
| search_on: "phase_of s t = Searching n \<Longrightarrow> search_key (jobs t) = Some k \<Longrightarrow> n < length (rec_file s) \<Longrightarrow>
     key (rec_file s ! n) \<noteq> k \<Longrightarrow>
     file_step key pid jobs t s (s\<lparr>phase_of := (phase_of s)(t := Searching (Suc n))\<rparr>)"
| search_hit: "phase_of s t = Searching n \<Longrightarrow> search_key (jobs t) = Some k \<Longrightarrow> n < length (rec_file s) \<Longrightarrow>
     key (rec_file s ! n) = k \<Longrightarrow>
     file_step key pid jobs t s (s\<lparr>phase_of := (phase_of s)(t := Found (Some n))\<rparr>)"
| search_end: "phase_of s t = Searching n \<Longrightarrow> length (rec_file s) \<le> n \<Longrightarrow>
     file_step key pid jobs t s (s\<lparr>phase_of := (phase_of s)(t := Found None)\<rparr>)"
| search_unlock: "phase_of s t = Found pos \<Longrightarrow>
     file_step key pid jobs t s
       (s\<lparr>held := unlock_file (pid t) (held s), phase_of := (phase_of s)(t := Searched pos)\<rparr>)"
| search_close: "phase_of s t = Searched pos \<Longrightarrow>
     file_step key pid jobs t s
       (s\<lparr>held := close_fd (pid t) (held s), phase_of := (phase_of s)(t := go_on pos)\<rparr>)"
  \<comment> \<open>\<open>atomic_update_*\<close>\<close>
| reopen_fails: "phase_of s t = Located i \<Longrightarrow>
     file_step key pid jobs t s (s\<lparr>phase_of := (phase_of s)(t := Finished False)\<rparr>)"
| lock_refused: "phase_of s t = Located i \<Longrightarrow>
     file_step key pid jobs t s
       (s\<lparr>held := close_fd (pid t) (held s), phase_of := (phase_of s)(t := Finished False)\<rparr>)"
| lock: "phase_of s t = Located i \<Longrightarrow> lock_record (pid t) i (held s) = Granted h \<Longrightarrow>
     file_step key pid jobs t s (s\<lparr>held := h, phase_of := (phase_of s)(t := Locked i)\<rparr>)"
| modify: "phase_of s t = Locked i \<Longrightarrow> jobs t = Update k m \<Longrightarrow> i < length (rec_file s) \<Longrightarrow>
     m (rec_file s ! i) = Some r \<Longrightarrow>
     file_step key pid jobs t s (s\<lparr>phase_of := (phase_of s)(t := Holding i r)\<rparr>)"
| refuse: "phase_of s t = Locked i \<Longrightarrow> jobs t = Update k m \<Longrightarrow>
     i < length (rec_file s) \<longrightarrow> m (rec_file s ! i) = None \<Longrightarrow>
     file_step key pid jobs t s (s\<lparr>phase_of := (phase_of s)(t := Leaving i False)\<rparr>)"
| put: "phase_of s t = Holding i r \<Longrightarrow>
     file_step key pid jobs t s
       (s\<lparr>rec_file := put_rec i r (rec_file s), phase_of := (phase_of s)(t := Leaving i True)\<rparr>)"
| put_fails: "phase_of s t = Holding i r \<Longrightarrow>
     file_step key pid jobs t s (s\<lparr>phase_of := (phase_of s)(t := Leaving i False)\<rparr>)"
| leave: "phase_of s t = Leaving i ok \<Longrightarrow>
     file_step key pid jobs t s
       (s\<lparr>held := unlock_record (pid t) i (held s), phase_of := (phase_of s)(t := Ending ok)\<rparr>)"
  \<comment> \<open>the modifier that calls \<open>check_uniqueness\<close>; it takes a file it cannot open for unique\<close>
| recheck_gone: "phase_of s t = Locked i \<Longrightarrow> jobs t = Recheck k f \<Longrightarrow> length (rec_file s) \<le> i \<Longrightarrow>
     file_step key pid jobs t s (s\<lparr>phase_of := (phase_of s)(t := Leaving i False)\<rparr>)"
| recheck_unread: "phase_of s t = Locked i \<Longrightarrow> jobs t = Recheck k f \<Longrightarrow> i < length (rec_file s) \<Longrightarrow>
     file_step key pid jobs t s
       (s\<lparr>phase_of := (phase_of s)(t := outcome_phase i (f [] (rec_file s ! i)))\<rparr>)"
| recheck: "phase_of s t = Locked i \<Longrightarrow> jobs t = Recheck k f \<Longrightarrow> i < length (rec_file s) \<Longrightarrow>
     file_step key pid jobs t s
       (s\<lparr>held := read_lock (pid t) (held s), phase_of := (phase_of s)(t := Checking i (rec_file s ! i) [])\<rparr>)"
| recheck_on: "phase_of s t = Checking i r us \<Longrightarrow> jobs t = Recheck k f \<Longrightarrow> length us < length (rec_file s) \<Longrightarrow>
     file_step key pid jobs t s
       (s\<lparr>phase_of := (phase_of s)(t := Checking i r (us @ [rec_file s ! length us]))\<rparr>)"
| recheck_stop: "phase_of s t = Checking i r us \<Longrightarrow> jobs t = Recheck k f \<Longrightarrow> f us r = None \<Longrightarrow>
     file_step key pid jobs t s (s\<lparr>phase_of := (phase_of s)(t := Checked i None)\<rparr>)"
| recheck_end: "phase_of s t = Checking i r us \<Longrightarrow> jobs t = Recheck k f \<Longrightarrow>
     length (rec_file s) \<le> length us \<Longrightarrow>
     file_step key pid jobs t s (s\<lparr>phase_of := (phase_of s)(t := Checked i (f us r))\<rparr>)"
| recheck_unlock: "phase_of s t = Checked i res \<Longrightarrow> jobs t = Recheck k f \<Longrightarrow>
     file_step key pid jobs t s
       (s\<lparr>held := unlock_file (pid t) (held s), phase_of := (phase_of s)(t := Rechecked i res)\<rparr>)"
| recheck_close: "phase_of s t = Rechecked i res \<Longrightarrow> jobs t = Recheck k f \<Longrightarrow>
     file_step key pid jobs t s
       (s\<lparr>held := close_fd (pid t) (held s), phase_of := (phase_of s)(t := outcome_phase i res)\<rparr>)"
  \<comment> \<open>\<open>append_*\<close> and \<open>write_*\<close>\<close>
| open_fails: "phase_of s t = Start \<Longrightarrow> search_key (jobs t) = None \<Longrightarrow>
     file_step key pid jobs t s (s\<lparr>phase_of := (phase_of s)(t := Finished False)\<rparr>)"
| enter: "phase_of s t = Start \<Longrightarrow> search_key (jobs t) = None \<Longrightarrow>
     lock_file True (pid t) (held s) = Granted h \<Longrightarrow>
     file_step key pid jobs t s (s\<lparr>held := h, phase_of := (phase_of s)(t := Inside)\<rparr>)"
| number: "phase_of s t = Inside \<Longrightarrow> jobs t = Append mk \<Longrightarrow>
     file_step key pid jobs t s (s\<lparr>phase_of := (phase_of s)(t := Appending (mk (length (rec_file s))))\<rparr>)"
| append: "phase_of s t = Appending r \<Longrightarrow>
     file_step key pid jobs t s
       (s\<lparr>rec_file := rec_file s @ [r], phase_of := (phase_of s)(t := Closing True)\<rparr>)"
| append_fails: "phase_of s t = Appending r \<Longrightarrow>
     file_step key pid jobs t s (s\<lparr>phase_of := (phase_of s)(t := Closing False)\<rparr>)"
| place: "phase_of s t = Inside \<Longrightarrow> jobs t = Put r \<Longrightarrow>
     file_step key pid jobs t s (s\<lparr>phase_of := (phase_of s)(t := Placing 0)\<rparr>)"
| place_on: "phase_of s t = Placing n \<Longrightarrow> jobs t = Put r \<Longrightarrow> n < length (rec_file s) \<Longrightarrow>
     key (rec_file s ! n) \<noteq> key r \<Longrightarrow>
     file_step key pid jobs t s (s\<lparr>phase_of := (phase_of s)(t := Placing (Suc n))\<rparr>)"
| place_hit: "phase_of s t = Placing n \<Longrightarrow> jobs t = Put r \<Longrightarrow> n < length (rec_file s) \<Longrightarrow>
     key (rec_file s ! n) = key r \<Longrightarrow>
     file_step key pid jobs t s (s\<lparr>phase_of := (phase_of s)(t := Placed n r)\<rparr>)"
| place_end: "phase_of s t = Placing n \<Longrightarrow> length (rec_file s) \<le> n \<Longrightarrow>
     file_step key pid jobs t s (s\<lparr>phase_of := (phase_of s)(t := At_end)\<rparr>)"
| place_last: "phase_of s t = At_end \<Longrightarrow> jobs t = Put r \<Longrightarrow>
     file_step key pid jobs t s (s\<lparr>phase_of := (phase_of s)(t := Placed (length (rec_file s)) r)\<rparr>)"
| write_at: "phase_of s t = Placed i r \<Longrightarrow>
     file_step key pid jobs t s
       (s\<lparr>rec_file := put_rec i r (rec_file s), phase_of := (phase_of s)(t := Closing True)\<rparr>)"
| write_fails: "phase_of s t = Placed i r \<Longrightarrow>
     file_step key pid jobs t s (s\<lparr>phase_of := (phase_of s)(t := Closing False)\<rparr>)"
| unlock: "phase_of s t = Closing ok \<Longrightarrow>
     file_step key pid jobs t s
       (s\<lparr>held := unlock_file (pid t) (held s), phase_of := (phase_of s)(t := Ending ok)\<rparr>)"
| close: "phase_of s t = Ending ok \<Longrightarrow>
     file_step key pid jobs t s
       (s\<lparr>held := close_fd (pid t) (held s), phase_of := (phase_of s)(t := Finished ok)\<rparr>)"

definition any_file_step ::
  "('r \<Rightarrow> 'k) \<Rightarrow> (nat \<Rightarrow> nat) \<Rightarrow> (nat \<Rightarrow> ('k, 'r) job) \<Rightarrow> 'r shared \<Rightarrow> 'r shared \<Rightarrow> bool" where
  "any_file_step key pid jobs s s' \<longleftrightarrow> (\<exists>t. file_step key pid jobs t s s')"

definition all_start :: "'r list \<Rightarrow> 'r shared" where
  "all_start rs = \<lparr>rec_file = rs, held = [], phase_of = (\<lambda>_. Start)\<rparr>"

inductive_cases file_stepE: "file_step key pid jobs t s s'"

section \<open>One writer at a time\<close>

definition apply_job :: "('r \<Rightarrow> 'k) \<Rightarrow> ('k, 'r) job \<Rightarrow> 'r list \<Rightarrow> 'r list" where
  \<comment> \<open>the whole job in one go\<close>
  "apply_job key j rs =
     (case j of
        Update k m \<Rightarrow>
          (case scan_offset (\<lambda>a. key a = k) rs of
             None \<Rightarrow> rs
           | Some i \<Rightarrow> (case m (rs ! i) of None \<Rightarrow> rs | Some r \<Rightarrow> rs[i := r]))
      | Recheck k f \<Rightarrow>
          (case scan_offset (\<lambda>a. key a = k) rs of
             None \<Rightarrow> rs
           | Some i \<Rightarrow> (case f rs (rs ! i) of None \<Rightarrow> rs | Some r \<Rightarrow> rs[i := r]))
      | Append mk \<Rightarrow> rs @ [mk (length rs)]
      | Put r \<Rightarrow> put_rec (place_of key r rs) r rs)"

text \<open>This is what the routines do when nothing interferes and nothing fails.\<close>

definition job_of :: "'k \<Rightarrow> 'r modifier \<Rightarrow> st \<Rightarrow> ('k, 'r) job" where
  \<comment> \<open>an update as its key and what its modifier does to a record\<close>
  "job_of k m s = Update k (\<lambda>r. case m r s of (ok, r', s') \<Rightarrow> if ok then Some r' else None)"

definition recheck_of :: "'k \<Rightarrow> user_rec modifier \<Rightarrow> st \<Rightarrow> ('k, user_rec) job" where
  \<comment> \<open>an update of the users file whose modifier reads that file\<close>
  "recheck_of k m s = Recheck k (\<lambda>us u.
     case m u (s\<lparr>disk := (disk s)\<lparr>users_db := Some us\<rparr>\<rparr>) of (ok, u', s') \<Rightarrow> if ok then Some u' else None)"

lemma recheck_alone:
  assumes "users_db (disk s) = Some us"
  shows "apply_job key (recheck_of k m s) us = apply_job key (job_of k m s) us"
proof -
  have "s\<lparr>disk := (disk s)\<lparr>users_db := Some us\<rparr>\<rparr> = s" using assms by simp
  then show ?thesis by (simp only: recheck_of_def job_of_def apply_job_def job.case)
qed

context db_file
begin

lemma atomic_update_apply:
  assumes "io_ok e" "get (disk s) = Some rs" "off = find_offset (\<lambda>a. key a = k) (get (disk s))"
    "\<And>r ok r' s1. m r s = (ok, r', s1) \<Longrightarrow> disk s1 = disk s"
    "atomic_update e get upd off m s = (ok, s')"
  shows "get (disk s') = Some (apply_job key (job_of k m s) rs)"
proof (cases "scan_offset (\<lambda>a. key a = k) rs")
  case None
  then show ?thesis
    using assms by (simp add: find_offset_def atomic_update_def apply_job_def job_of_def)
next
  case (Some i)
  obtain ok1 r1 s1 where m: "m (rs ! i) s = (ok1, r1, s1)" by (metis surj_pair)
  with assms(4) have "disk s1 = disk s" by blast
  with m show ?thesis
    using assms(1-3,5) Some scan_offset_SomeD(1) [OF Some]
    by (auto simp: find_offset_def atomic_update_def apply_job_def job_of_def pwrite_def get_upd
        split: if_splits)
qed

lemma append_rec_apply:
  assumes "io_ok e" "get (disk s) = Some rs" "append_rec e get upd set_id r s = (ok, r', s')"
  shows "get (disk s') = Some (apply_job key (Append (\<lambda>n. set_id (of_nat (n + 1)) r)) rs)"
  using assms
  by (auto simp: append_rec_def open_creat_def pwrite_def apply_job_def get_upd put_rec_def Let_def)

lemma write_rec_apply:
  assumes "io_ok e" "get (disk s) = Some rs" "write_rec e get upd (\<lambda>x. key x = key r) r s = (ok, s')"
  shows "get (disk s') = Some (apply_job key (Put r) rs)"
  using assms
  by (auto simp: write_rec_def open_creat_def pwrite_def apply_job_def get_upd place_of_def Let_def
      split: option.splits)

end

lemmas writers_apply =
  users.atomic_update_apply accts.atomic_update_apply loans.atomic_update_apply
  txns.append_rec_apply loans.append_rec_apply fbs.append_rec_apply
  users.write_rec_apply accts.write_rec_apply loans.write_rec_apply fbs.write_rec_apply

section \<open>Processes exclude each other\<close>

fun held_range :: "'r phase \<Rightarrow> range option" where
  "held_range (Locked i) = Some (Rec i)"
| "held_range (Holding i r) = Some (Rec i)"
| "held_range (Leaving i ok) = Some (Rec i)"
| "held_range Inside = Some Whole"
| "held_range (Appending r) = Some Whole"
| "held_range (Placing n) = Some Whole"
| "held_range At_end = Some Whole"
| "held_range (Placed i r) = Some Whole"
| "held_range (Closing ok) = Some Whole"
| "held_range _ = None"

fun target :: "'r phase \<Rightarrow> nat option" where
  "target (Found pos) = pos"
| "target (Searched pos) = pos"
| "target (Located i) = Some i"
| "target (Locked i) = Some i"
| "target (Holding i r) = Some i"
| "target (Leaving i ok) = Some i"
| "target _ = None"

fun stored :: "'r phase \<Rightarrow> bool" where
  \<comment> \<open>the record has reached the file\<close>
  "stored (Leaving i ok) = ok"
| "stored (Closing ok) = ok"
| "stored (Ending ok) = ok"
| "stored (Finished ok) = ok"
| "stored _ = False"

definition well_locked :: "('r \<Rightarrow> 'k) \<Rightarrow> (nat \<Rightarrow> ('k, 'r) job) \<Rightarrow> bool" where
  \<comment> \<open>no modifier opens the file itself or changes the key of a record\<close>
  "well_locked key jobs \<longleftrightarrow> (\<forall>t k f. jobs t \<noteq> Recheck k f) \<and>
     (\<forall>t k m r r'. jobs t = Update k m \<longrightarrow> m r = Some r' \<longrightarrow> key r' = key r)"

definition excl_inv :: "(nat \<Rightarrow> nat) \<Rightarrow> lock_table \<Rightarrow> (nat \<Rightarrow> 'r phase) \<Rightarrow> bool" where
  "excl_inv pid h ph \<longleftrightarrow>
     (\<forall>t rg. held_range (ph t) = Some rg \<longrightarrow> (pid t, rg) \<in> set h) \<and>
     (\<forall>p q rg rg'. (p, rg) \<in> set h \<longrightarrow> (q, rg') \<in> set h \<longrightarrow> p \<noteq> q \<longrightarrow> \<not> overlap rg rg')"

fun ready :: "('r \<Rightarrow> 'k) \<Rightarrow> ('k, 'r) job \<Rightarrow> 'r list \<Rightarrow> 'r phase \<Rightarrow> bool" where
  \<comment> \<open>what a thread has read is still what the file holds\<close>
  "ready key (Update k m) rs (Holding i r) = (i < length rs \<and> m (rs ! i) = Some r)"
| "ready key (Append mk) rs (Appending r) = (r = mk (length rs))"
| "ready key (Put x) rs (Placing n) = (n \<le> length rs \<and> (\<forall>j<n. key (rs ! j) \<noteq> key x))"
| "ready key (Put x) rs At_end = (\<forall>r\<in>set rs. key r \<noteq> key x)"
| "ready key (Put x) rs (Placed i r) = (r = x \<and> i = place_of key x rs)"
| "ready key j rs (Holding i r) = False"
| "ready key j rs (Appending r) = False"
| "ready key j rs (Placing n) = False"
| "ready key j rs At_end = False"
| "ready key j rs (Placed i r) = False"
| "ready key j rs (Checking i r us) = False"
| "ready key j rs (Checked i res) = False"
| "ready key j rs (Rechecked i res) = False"
| "ready key j rs ph = True"

fun searching :: "'r phase \<Rightarrow> nat option" where
  "searching (Searching n) = Some n"
| "searching _ = None"

definition copy_inv ::
  "('r \<Rightarrow> 'k) \<Rightarrow> (nat \<Rightarrow> ('k, 'r) job) \<Rightarrow> 'r list \<Rightarrow> (nat \<Rightarrow> 'r phase) \<Rightarrow> bool" where
  "copy_inv key jobs rs ph \<longleftrightarrow>
     (\<forall>t. ready key (jobs t) rs (ph t)) \<and>
     (\<forall>t i k. target (ph t) = Some i \<longrightarrow> search_key (jobs t) = Some k \<longrightarrow>
        scan_offset (\<lambda>a. key a = k) rs = Some i) \<and>
     (\<forall>t n k. searching (ph t) = Some n \<longrightarrow> search_key (jobs t) = Some k \<longrightarrow>
        n \<le> length rs \<and> (\<forall>j<n. key (rs ! j) \<noteq> k))"

lemma overlap_sym: "overlap a b \<longleftrightarrow> overlap b a"
  by (cases a; cases b) auto

lemma overlap_same [simp]: "overlap (Rec i) (Rec i)" "overlap Whole rg" "overlap rg Whole"
  by (cases rg; simp)+

lemma locks_Granted:
  "lock_record p i h = Granted h' \<Longrightarrow>
     h' = (p, Rec i) # h \<and> (\<forall>q rg. (q, rg) \<in> set h \<longrightarrow> q \<noteq> p \<longrightarrow> \<not> overlap rg (Rec i))"
  "lock_file True p h = Granted h' \<Longrightarrow>
     h' = (p, Whole) # h \<and> (\<forall>q rg. (q, rg) \<in> set h \<longrightarrow> q = p)"
  by (auto simp: lock_record_def lock_file_def fcntl_setlkw_def list_ex_iff split: if_splits)

lemma filter_others: "set (filter (\<lambda>(q, r). q \<noteq> p) h) = {x \<in> set h. fst x \<noteq> p}"
  by auto

lemma read_lock_same [simp]: "read_lock p h = h"
  by (simp add: read_lock_def lock_file_def fcntl_setlkw_def)

lemma close_set: "set (close_fd p h) = {x \<in> set h. fst x \<noteq> p}"
  unfolding close_fd_def by (rule filter_others)

lemma unlock_file_set: "set (unlock_file p h) = {x \<in> set h. fst x \<noteq> p}"
  unfolding unlock_file_def by (rule filter_others)

lemma unlock_record_others:
  "{x \<in> set (unlock_record p i h). fst x \<noteq> p} = {x \<in> set h. fst x \<noteq> p}"
  by (induction p i h rule: unlock_record.induct) (auto split: option.splits)

text \<open>What a process keeps after unlocking a record lies within what it had.\<close>

lemma unlock_range_within: "unlock_range i r = Some r' \<Longrightarrow> overlap r' rg \<Longrightarrow> overlap r rg"
  by (cases r; cases rg) (auto split: if_splits)

lemma unlock_record_within:
  "(q, r') \<in> set (unlock_record p i h) \<Longrightarrow> \<exists>r. (q, r) \<in> set h \<and> (\<forall>rg. overlap r' rg \<longrightarrow> overlap r rg)"
proof (induction p i h rule: unlock_record.induct)
  case (2 p i q1 r h)
  then show ?case using unlock_range_within by (auto split: if_splits option.splits; blast)
qed simp

lemma excl_unlock:
  assumes "excl_inv pid h ph" "inj pid" "held_range x = None"
  shows "excl_inv pid (unlock_record (pid t) i h) (ph(t := x))"
  unfolding excl_inv_def
proof (intro conjI allI impI)
  fix u rg assume u: "held_range ((ph(t := x)) u) = Some rg"
  with assms(3) have "u \<noteq> t" by auto
  with u assms(1,2) have "(pid u, rg) \<in> set h" "pid u \<noteq> pid t"
    by (simp_all add: excl_inv_def inj_eq)
  then have "(pid u, rg) \<in> {y \<in> set (unlock_record (pid t) i h). fst y \<noteq> pid t}"
    unfolding unlock_record_others by simp
  then show "(pid u, rg) \<in> set (unlock_record (pid t) i h)" by simp
next
  fix p q r r' assume r: "(p, r) \<in> set (unlock_record (pid t) i h)"
    "(q, r') \<in> set (unlock_record (pid t) i h)" "p \<noteq> q"
  obtain r1 where 1: "(p, r1) \<in> set h" "\<forall>rg. overlap r rg \<longrightarrow> overlap r1 rg"
    using unlock_record_within [OF r(1)] by blast
  obtain r2 where 2: "(q, r2) \<in> set h" "\<forall>rg. overlap r' rg \<longrightarrow> overlap r2 rg"
    using unlock_record_within [OF r(2)] by blast
  have "\<not> overlap r1 r2" using assms(1) 1(1) 2(1) r(3) unfolding excl_inv_def by metis
  with 1(2) 2(2) overlap_sym show "\<not> overlap r r'" by metis
qed

lemma excl_grant:
  assumes "excl_inv pid h ph" "\<forall>q rg'. (q, rg') \<in> set h \<longrightarrow> q \<noteq> pid t \<longrightarrow> \<not> overlap rg' rg"
    "held_range x = Some rg \<or> held_range x = None"
  shows "excl_inv pid ((pid t, rg) # h) (ph(t := x))"
  unfolding excl_inv_def
proof (intro conjI allI impI)
  fix u rg1 assume "held_range ((ph(t := x)) u) = Some rg1"
  then show "(pid u, rg1) \<in> set ((pid t, rg) # h)"
    using assms(1,3) by (cases "u = t") (auto simp: excl_inv_def)
next
  fix p q r r' assume "(p, r) \<in> set ((pid t, rg) # h)" "(q, r') \<in> set ((pid t, rg) # h)" "p \<noteq> q"
  then consider "(p, r) \<in> set h" "(q, r') \<in> set h" | "(q, r') \<in> set h" "p = pid t" "r = rg"
    | "(p, r) \<in> set h" "q = pid t" "r' = rg" by auto
  then show "\<not> overlap r r'"
    using assms(1,2) \<open>p \<noteq> q\<close> overlap_sym by cases (unfold excl_inv_def; metis)+
qed

lemma excl_drop:
  assumes "excl_inv pid h ph" "inj pid" "set h' = {x \<in> set h. fst x \<noteq> pid t}" "held_range x = None"
  shows "excl_inv pid h' (ph(t := x))"
  unfolding excl_inv_def
proof (intro conjI allI impI)
  fix u rg assume u: "held_range ((ph(t := x)) u) = Some rg"
  with assms(4) have "u \<noteq> t" by auto
  with u assms(1,2) have "(pid u, rg) \<in> set h" "pid u \<noteq> pid t"
    by (simp_all add: excl_inv_def inj_eq)
  with assms(3) show "(pid u, rg) \<in> set h'" by simp
next
  fix p q r r' assume "(p, r) \<in> set h'" "(q, r') \<in> set h'" "p \<noteq> q"
  moreover from this have "(p, r) \<in> set h" "(q, r') \<in> set h" using assms(3) by simp_all
  ultimately show "\<not> overlap r r'" using assms(1) unfolding excl_inv_def by metis
qed

lemma excl_keep:
  assumes "excl_inv pid h ph" "held_range x = held_range (ph t) \<or> held_range x = None"
  shows "excl_inv pid h (ph(t := x))"
  using assms unfolding excl_inv_def by (metis fun_upd_apply option.distinct(1))

lemma outcome_not_stored [simp]: "\<not> stored (outcome_phase i res)"
  by (cases res) simp_all

lemma go_on_simps [simp]:
  "held_range (go_on pos) = None" "target (go_on pos) = pos" "searching (go_on pos) = None"
  "ready key j rs (go_on pos)" "\<not> stored (go_on pos)"
  by (cases pos; cases j; simp)+

lemma excl_step:
  assumes "file_step key pid jobs t s s'" "inj pid" "excl_inv pid (held s) (phase_of s)"
    "well_locked key jobs"
  shows "excl_inv pid (held s') (phase_of s')"
  using assms(1)
proof cases
  case (lock i h)
  with locks_Granted(1) [OF lock(3)] show ?thesis using excl_grant [OF assms(3)] by simp
next
  case (enter h)
  with locks_Granted(2) [OF enter(4)] show ?thesis using excl_grant [OF assms(3)] by auto
next
  case (search_unlock pos)
  then show ?thesis using excl_drop [OF assms(3,2) unlock_file_set] by simp
next
  case (search_close pos)
  then show ?thesis using excl_drop [OF assms(3,2) close_set] by simp
next
  case (unlock ok)
  then show ?thesis using excl_drop [OF assms(3,2) unlock_file_set] by simp
next
  case (lock_refused i)
  then show ?thesis using excl_drop [OF assms(3,2) close_set] by simp
next
  case (leave i ok)
  then show ?thesis using excl_unlock [OF assms(3,2)] by simp
next
  case (close ok)
  then show ?thesis using excl_drop [OF assms(3,2) close_set] by simp
qed (use assms(4) in \<open>simp_all add: excl_keep [OF assms(3)] well_locked_def\<close>)

lemma exclusive_range:
  assumes "excl_inv pid h ph" "inj pid" "held_range (ph t) = Some rg" "t' \<noteq> t"
    "held_range (ph t') = Some rg'"
  shows "\<not> overlap rg rg'"
proof -
  have "pid t \<noteq> pid t'" using assms(2,4) by (auto simp: inj_eq)
  with assms show ?thesis unfolding excl_inv_def by metis
qed

text \<open>The other threads' copies survive a write.\<close>

lemma scan_same_keys:
  "map f rs = map f rs' \<Longrightarrow> scan_offset (\<lambda>a. f a = k) rs = scan_offset (\<lambda>a. f a = k) rs'"
proof -
  have "scan_from (\<lambda>a. f a = k) rs n = scan_from (\<lambda>x. x = k) (map f rs) n" for rs n
    by (induction rs arbitrary: n) auto
  then show "map f rs = map f rs' \<Longrightarrow> scan_offset (\<lambda>a. f a = k) rs = scan_offset (\<lambda>a. f a = k) rs'"
    by (simp add: scan_offset_def)
qed

lemma scan_offset_longer: "scan_offset p rs = Some i \<Longrightarrow> scan_offset p (rs @ [r]) = Some i"
  using scan_offset_SomeD [of p rs i]
  by (intro scan_offset_eqI) (auto simp: nth_append dest: less_trans)

lemma ready_update:
  assumes "ready key j rs ph" "i < length rs"
    "\<forall>rg. held_range ph = Some rg \<longrightarrow> \<not> overlap (Rec i) rg"
  shows "ready key j (rs[i := r]) ph"
  using assms by (cases "(key, j, rs, ph)" rule: ready.cases) auto

lemma ready_outside: "ready key j rs ph \<Longrightarrow> held_range ph = None \<Longrightarrow> ready key j rs' ph"
  by (cases "(key, j, rs, ph)" rule: ready.cases) auto

lemma copy_update:
  assumes "copy_inv key jobs rs ph" "i < length rs" "key r = key (rs ! i)"
    "\<And>t' rg. t' \<noteq> t \<Longrightarrow> held_range (ph t') = Some rg \<Longrightarrow> \<not> overlap (Rec i) rg"
    "\<And>rs. ready key (jobs t) rs x" "target x = target (ph t) \<or> target x = None" "searching x = None"
  shows "copy_inv key jobs (rs[i := r]) (ph(t := x))"
  unfolding copy_inv_def
proof (intro conjI allI impI)
  fix u show "ready key (jobs u) (rs[i := r]) ((ph(t := x)) u)"
    using assms(1,2,4,5) ready_update [of key "jobs u" rs "ph u" i r]
    by (cases "u = t") (simp_all add: copy_inv_def)
next
  fix u j k assume "target ((ph(t := x)) u) = Some j" "search_key (jobs u) = Some k"
  with assms(1,6) have "scan_offset (\<lambda>a. key a = k) rs = Some j"
    unfolding copy_inv_def by (cases "u = t") (metis fun_upd_apply option.distinct(1))+
  moreover have "map key (rs[i := r]) = map key rs" using assms(2,3) by simp
  from scan_same_keys [OF this] have "scan_offset (\<lambda>a. key a = k) (rs[i := r]) = scan_offset (\<lambda>a. key a = k) rs" .
  ultimately show "scan_offset (\<lambda>a. key a = k) (rs[i := r]) = Some j" by simp
next
  fix u n k assume u: "searching ((ph(t := x)) u) = Some n" "search_key (jobs u) = Some k"
  with assms(7) have "u \<noteq> t" by auto
  with u assms(1) have n: "n \<le> length rs" "\<forall>j<n. key (rs ! j) \<noteq> k" by (auto simp: copy_inv_def)
  then show "n \<le> length (rs[i := r])" by simp
  fix j assume "j < n"
  with n assms(2,3) show "key (rs[i := r] ! j) \<noteq> k" by (cases "j = i") auto
qed

lemma copy_append:
  assumes "copy_inv key jobs rs ph" "\<And>t'. t' \<noteq> t \<Longrightarrow> held_range (ph t') = None"
    "ready key (jobs t) (rs @ [r]) x" "target x = None" "searching x = None"
  shows "copy_inv key jobs (rs @ [r]) (ph(t := x))"
  unfolding copy_inv_def
proof (intro conjI allI impI)
  fix u show "ready key (jobs u) (rs @ [r]) ((ph(t := x)) u)"
    using assms(1-3) ready_outside [of key "jobs u" rs "ph u" "rs @ [r]"]
    by (cases "u = t") (simp_all add: copy_inv_def)
next
  fix u j k assume "target ((ph(t := x)) u) = Some j" "search_key (jobs u) = Some k"
  with assms(1,4) have "scan_offset (\<lambda>a. key a = k) rs = Some j"
    by (cases "u = t") (auto simp: copy_inv_def)
  then show "scan_offset (\<lambda>a. key a = k) (rs @ [r]) = Some j" by (rule scan_offset_longer)
next
  fix u n k assume u: "searching ((ph(t := x)) u) = Some n" "search_key (jobs u) = Some k"
  with assms(5) have "u \<noteq> t" by auto
  with u assms(1) have n: "n \<le> length rs" "\<forall>j<n. key (rs ! j) \<noteq> k" by (auto simp: copy_inv_def)
  then show "n \<le> length (rs @ [r])" by simp
  fix j assume "j < n"
  with n show "key ((rs @ [r]) ! j) \<noteq> k" by (simp add: nth_append)
qed

lemma copy_phase:
  assumes "copy_inv key jobs rs ph" "ready key (jobs t) rs x"
    "\<And>i k. target x = Some i \<Longrightarrow> search_key (jobs t) = Some k \<Longrightarrow> scan_offset (\<lambda>a. key a = k) rs = Some i"
    "\<And>n k. searching x = Some n \<Longrightarrow> search_key (jobs t) = Some k \<Longrightarrow>
       n \<le> length rs \<and> (\<forall>j<n. key (rs ! j) \<noteq> k)"
  shows "copy_inv key jobs rs (ph(t := x))"
  unfolding copy_inv_def
proof (intro conjI allI impI)
  fix u show "ready key (jobs u) rs ((ph(t := x)) u)"
    using assms(1,2) by (cases "u = t") (simp_all add: copy_inv_def)
next
  fix u j k assume "target ((ph(t := x)) u) = Some j" "search_key (jobs u) = Some k"
  with assms(1,3) show "scan_offset (\<lambda>a. key a = k) rs = Some j"
    by (cases "u = t") (auto simp: copy_inv_def)
next
  fix u n k assume "searching ((ph(t := x)) u) = Some n" "search_key (jobs u) = Some k"
  with assms(1,4) have "n \<le> length rs \<and> (\<forall>j<n. key (rs ! j) \<noteq> k)"
    by (cases "u = t") (auto simp: copy_inv_def)
  then show "n \<le> length rs" "\<And>j. j < n \<Longrightarrow> key (rs ! j) \<noteq> k" by blast+
qed

lemma copy_step:
  assumes "file_step key pid jobs t s s'" "inj pid" "well_locked key jobs"
    "excl_inv pid (held s) (phase_of s)" "copy_inv key jobs (rec_file s) (phase_of s)"
  shows "copy_inv key jobs (rec_file s') (phase_of s')"
proof -
  note others = exclusive_range [OF assms(4,2), of t]
  have alone: "held_range (phase_of s u) = None" if "held_range (phase_of s t) = Some Whole" "u \<noteq> t" for u
    using others [OF that] by (cases "held_range (phase_of s u)") auto
  have "ready key (jobs t) (rec_file s) (phase_of s t)"
    using assms(5) by (simp add: copy_inv_def)
  note mine = this
  have found: "scan_offset (\<lambda>a. key a = k) (rec_file s) = Some i"
    if "target (phase_of s t) = Some i" "search_key (jobs t) = Some k" for i k
    using assms(5) that by (auto simp: copy_inv_def)
  have passed: "n \<le> length (rec_file s) \<and> (\<forall>j<n. key (rec_file s ! j) \<noteq> k)"
    if "searching (phase_of s t) = Some n" "search_key (jobs t) = Some k" for n k
    using assms(5) that by (auto simp: copy_inv_def)
  show ?thesis
    using assms(1)
  proof cases
    case (search_on n k)
    then have "\<forall>j<Suc n. key (rec_file s ! j) \<noteq> k" using passed [of n k] by (auto simp: less_Suc_eq)
    with search_on have "copy_inv key jobs (rec_file s) ((phase_of s)(t := Searching (Suc n)))"
      by (intro copy_phase [OF assms(5)]) auto
    with search_on show ?thesis by simp
  next
    case (search_hit n k)
    then have "scan_offset (\<lambda>a. key a = k) (rec_file s) = Some n"
      using passed [of n k] by (intro scan_offset_eqI) auto
    with search_hit have "copy_inv key jobs (rec_file s) ((phase_of s)(t := Found (Some n)))"
      by (intro copy_phase [OF assms(5)]) auto
    with search_hit show ?thesis by simp
  next
    case (search_unlock pos)
    with found copy_phase [OF assms(5), of t "Searched pos"] show ?thesis by simp
  next
    case (search_close pos)
    with found copy_phase [OF assms(5), of t "go_on pos"] show ?thesis by simp
  next
    case (place_on n r)
    then have "\<forall>j<Suc n. key (rec_file s ! j) \<noteq> key r" using mine by (auto simp: less_Suc_eq)
    with place_on copy_phase [OF assms(5), of t "Placing (Suc n)"] show ?thesis by simp
  next
    case (place_hit n r)
    then have "scan_offset (\<lambda>a. key a = key r) (rec_file s) = Some n"
      using mine by (intro scan_offset_eqI) auto
    with place_hit copy_phase [OF assms(5), of t "Placed n r"] show ?thesis by (simp add: place_of_def)
  next
    case (place_end n)
    then obtain x where x: "jobs t = Put x" using mine by (cases "jobs t") auto
    with place_end mine have "\<forall>r\<in>set (rec_file s). key r \<noteq> key x" by (auto simp: in_set_conv_nth)
    with x place_end copy_phase [OF assms(5), of t At_end] show ?thesis by simp
  next
    case (place_last r)
    then have "place_of key r (rec_file s) = length (rec_file s)"
      using mine scan_offset_None [of "\<lambda>x. key x = key r" "rec_file s"] by (simp add: place_of_def)
    with place_last copy_phase [OF assms(5), of t "Placed (length (rec_file s)) r"] show ?thesis by simp
  next
    case (put i r)
    then obtain k m where j: "jobs t = Update k m" using mine by (cases "jobs t") auto
    with put mine have i: "i < length (rec_file s)" "m (rec_file s ! i) = Some r" by simp_all
    with j assms(3) have "key r = key (rec_file s ! i)" by (auto simp: well_locked_def)
    with copy_update [OF assms(5) i(1) this, of t "Leaving i True"] others put i(1) show ?thesis by simp
  next
    case (append r)
    then have "copy_inv key jobs (rec_file s @ [r]) ((phase_of s)(t := Closing True))"
      by (intro copy_append [OF assms(5)] alone) simp_all
    with append show ?thesis by simp
  next
    case (write_at i r)
    then have w: "held_range (phase_of s t) = Some Whole" by simp
    from write_at obtain x where j: "jobs t = Put x" "r = x" "i = place_of key x (rec_file s)"
      using mine by (cases "jobs t") auto
    show ?thesis
    proof (cases "scan_offset (\<lambda>y. key y = key x) (rec_file s)")
      case None
      then have "copy_inv key jobs (rec_file s @ [r]) ((phase_of s)(t := Closing True))"
        using w by (intro copy_append [OF assms(5)] alone) simp_all
      with write_at None j show ?thesis by (simp add: place_of_def put_rec_def)
    next
      case (Some n)
      note n = scan_offset_SomeD [OF Some]
      have "copy_inv key jobs ((rec_file s)[n := x]) ((phase_of s)(t := Closing True))"
        using n(1,2) alone [OF w] by (intro copy_update [OF assms(5)]) auto
      with write_at Some j n(1) show ?thesis by (simp add: place_of_def put_rec_def)
    qed
  next
    case (lock i h)
    with found copy_phase [OF assms(5), of t "Locked i"] show ?thesis by simp
  next
    case (modify i k m r)
    with found copy_phase [OF assms(5), of t "Holding i r"] show ?thesis by simp
  next
    case (refuse i k m)
    with found copy_phase [OF assms(5), of t "Leaving i False"] show ?thesis by simp
  next
    case (put_fails i r)
    with found copy_phase [OF assms(5), of t "Leaving i False"] show ?thesis by simp
  qed (use assms(3) in \<open>auto simp: well_locked_def intro!: copy_phase [OF assms(5)]\<close>)
qed

text \<open>Every step changes the file not at all or by one whole job.\<close>

lemma step_refines:
  assumes "file_step key pid jobs t s s'" "copy_inv key jobs (rec_file s) (phase_of s)"
  shows "(rec_file s' = rec_file s \<and> (\<forall>u. stored (phase_of s' u) = stored (phase_of s u))) \<or>
    (rec_file s' = apply_job key (jobs t) (rec_file s) \<and> \<not> stored (phase_of s t) \<and>
     (\<forall>u. stored (phase_of s' u) = (u = t \<or> stored (phase_of s u))))"
proof -
  have mine: "ready key (jobs t) (rec_file s) (phase_of s t)"
    using assms(2) by (simp add: copy_inv_def)
  show ?thesis
    using assms(1)
  proof cases
    case (put i r)
    then obtain k m where j: "jobs t = Update k m" using mine by (cases "jobs t") auto
    with put mine have i: "i < length (rec_file s)" "m (rec_file s ! i) = Some r" by simp_all
    have "scan_offset (\<lambda>a. key a = k) (rec_file s) = Some i"
      using assms(2) put(2) j unfolding copy_inv_def by (metis target.simps(5) search_key.simps(1))
    with put i j show ?thesis by (auto simp: apply_job_def)
  next
    case (append r)
    then show ?thesis using mine by (cases "jobs t") (auto simp: apply_job_def)
  next
    case (write_at i r)
    then show ?thesis using mine by (cases "jobs t") (auto simp: apply_job_def)
  qed auto
qed

definition in_order :: "('r \<Rightarrow> 'k) \<Rightarrow> (nat \<Rightarrow> ('k, 'r) job) \<Rightarrow> nat list \<Rightarrow> 'r list \<Rightarrow> 'r list" where
  "in_order key jobs ts rs = foldl (\<lambda>rs t. apply_job key (jobs t) rs) rs ts"

definition serial_inv ::
  "('r \<Rightarrow> 'k) \<Rightarrow> (nat \<Rightarrow> ('k, 'r) job) \<Rightarrow> 'r list \<Rightarrow> 'r shared \<Rightarrow> bool" where
  "serial_inv key jobs rs s \<longleftrightarrow> (\<exists>ts. distinct ts \<and> set ts = {t. stored (phase_of s t)} \<and>
     rec_file s = in_order key jobs ts rs)"

lemma serial_step:
  assumes "file_step key pid jobs t s s'" "copy_inv key jobs (rec_file s) (phase_of s)"
    "serial_inv key jobs rs s"
  shows "serial_inv key jobs rs s'"
proof -
  obtain ts where ts: "distinct ts" "set ts = {t. stored (phase_of s t)}" "rec_file s = in_order key jobs ts rs"
    using assms(3) by (auto simp: serial_inv_def)
  from step_refines [OF assms(1,2)] show ?thesis
  proof
    assume "rec_file s' = rec_file s \<and> (\<forall>u. stored (phase_of s' u) = stored (phase_of s u))"
    with ts show ?thesis by (auto simp: serial_inv_def)
  next
    assume s': "rec_file s' = apply_job key (jobs t) (rec_file s) \<and> \<not> stored (phase_of s t) \<and>
     (\<forall>u. stored (phase_of s' u) = (u = t \<or> stored (phase_of s u)))"
    with ts have "distinct (ts @ [t])" "set (ts @ [t]) = {u. stored (phase_of s' u)}"
      "rec_file s' = in_order key jobs (ts @ [t]) rs" by (auto simp: in_order_def)
    then show ?thesis unfolding serial_inv_def by blast
  qed
qed

lemma run_serial:
  assumes "(any_file_step key pid jobs)\<^sup>*\<^sup>* (all_start rs) s" "inj pid" "well_locked key jobs"
  shows "excl_inv pid (held s) (phase_of s) \<and> copy_inv key jobs (rec_file s) (phase_of s) \<and>
    serial_inv key jobs rs s"
  using assms(1)
proof (induction rule: rtranclp_induct)
  case base
  have "serial_inv key jobs rs (all_start rs)"
    unfolding serial_inv_def by (rule exI [of _ "[]"]) (simp add: all_start_def in_order_def)
  moreover have "ready key j rs Start" for j :: "('b, 'a) job" by (cases j) simp_all
  ultimately show ?case by (simp add: excl_inv_def copy_inv_def all_start_def)
next
  case (step s s')
  then obtain t where t: "file_step key pid jobs t s s'" by (auto simp: any_file_step_def)
  from excl_step [OF t assms(2) _ assms(3)] copy_step [OF t assms(2,3)] serial_step [OF t] step.IH
  show ?case by blast
qed

section \<open>Runs written out\<close>

definition at_point :: "'r list \<Rightarrow> lock_table \<Rightarrow> (nat \<Rightarrow> 'r phase) \<Rightarrow> 'r shared" where
  "at_point rs h ph = \<lparr>rec_file = rs, held = h, phase_of = ph\<rparr>"

lemma at_point_sel [simp]:
  "rec_file (at_point rs h ph) = rs" "held (at_point rs h ph) = h" "phase_of (at_point rs h ph) = ph"
  by (simp_all add: at_point_def)

lemma at_point_upd [simp]:
  "(at_point rs h ph)\<lparr>phase_of := ph'\<rparr> = at_point rs h ph'"
  "(at_point rs h ph)\<lparr>held := h', phase_of := ph'\<rparr> = at_point rs h' ph'"
  "(at_point rs h ph)\<lparr>rec_file := rs', phase_of := ph'\<rparr> = at_point rs' h ph'"
  by (simp_all add: at_point_def)

lemma own_lock_granted:
  assumes "list_all (\<lambda>x. fst x = p) h"
  shows "lock_record p i h = Granted ((p, Rec i) # h)" "lock_file True p h = Granted ((p, Whole) # h)"
  using assms by (auto simp: lock_record_def lock_file_def fcntl_setlkw_def list_ex_iff list_all_iff)

lemma step_here: "file_step key pid jobs t s s' \<Longrightarrow> any_file_step key pid jobs s s'"
  by (auto simp: any_file_step_def)

lemma path_here: "file_step key pid jobs t s s' \<Longrightarrow> (any_file_step key pid jobs)\<^sup>*\<^sup>* s s'"
  using step_here by (rule r_into_rtranclp)

lemmas path_trans [trans] = rtranclp_trans

lemma close_unlock: "close_fd p (unlock_file p h) = close_fd p h"
  by (simp add: close_fd_def unlock_file_def)

text \<open>The search loop, undisturbed.\<close>

lemma searching_path:
  assumes "n \<le> length rs" "\<And>j. j < n \<Longrightarrow> key (rs ! j) \<noteq> k" "search_key (jobs t) = Some k"
  shows "(any_file_step key pid jobs)\<^sup>*\<^sup>* (at_point rs h (ph(t := Searching 0))) (at_point rs h (ph(t := Searching n)))"
  using assms(1,2)
proof (induction n)
  case (Suc n)
  then have "file_step key pid jobs t (at_point rs h (ph(t := Searching n))) (at_point rs h (ph(t := Searching (Suc n))))"
    using file_step.search_on [where jobs = jobs and key = key and s = "at_point rs h (ph(t := Searching n))" and t = t and n = n and k = k,
        OF _ assms(3)] by simp
  with Suc show ?case using path_here path_trans by (metis Suc_leD less_SucI)
qed simp

lemma search_path:
  assumes "ph t = Start" "search_key (jobs t) = Some k" "scan_offset (\<lambda>a. key a = k) rs = Some i"
  shows "(any_file_step key pid jobs)\<^sup>*\<^sup>* (at_point rs h ph) (at_point rs (close_fd (pid t) h) (ph(t := Located i)))"
proof -
  note i = scan_offset_SomeD [OF assms(3)]
  let ?at = "\<lambda>h x. at_point rs h (ph(t := x))" and ?R = "any_file_step key pid jobs"
  have "?R\<^sup>*\<^sup>* (at_point rs h ph) (?at h (Searching 0))"
    using file_step.search [where jobs = jobs and key = key and s = "at_point rs h ph" and t = t, OF _ assms(2)] assms(1)
    by (intro path_here [where t = t]) simp
  also have "?R\<^sup>*\<^sup>* (?at h (Searching 0)) (?at h (Searching i))"
    using i assms(2) by (intro searching_path) auto
  also have "?R\<^sup>*\<^sup>* (?at h (Searching i)) (?at h (Found (Some i)))"
    using file_step.search_hit [where jobs = jobs and key = key and s = "?at h (Searching i)" and t = t and n = i, OF _ assms(2)] i
    by (intro path_here [where t = t]) simp
  also have "?R\<^sup>*\<^sup>* (?at h (Found (Some i))) (?at (unlock_file (pid t) h) (Searched (Some i)))"
    using file_step.search_unlock [where s = "?at h (Found (Some i))" and t = t and pos = "Some i"]
    by (intro path_here [where t = t]) simp
  also have "?R\<^sup>*\<^sup>* (?at (unlock_file (pid t) h) (Searched (Some i))) (?at (close_fd (pid t) h) (Located i))"
    using file_step.search_close [where pid = pid and jobs = jobs and key = key and s = "?at (unlock_file (pid t) h) (Searched (Some i))" and t = t and pos = "Some i"]
    by (intro path_here [where t = t]) (simp add: close_unlock)
  finally show ?thesis .
qed

lemma update_points:
  "ph t = Start \<Longrightarrow> jobs t = Update k m \<Longrightarrow> scan_offset (\<lambda>a. key a = k) rs = Some i \<Longrightarrow>
     (any_file_step key pid jobs)\<^sup>*\<^sup>* (at_point rs h ph) (at_point rs (close_fd (pid t) h) (ph(t := Located i)))"
  "ph t = Located i \<Longrightarrow> list_all (\<lambda>x. fst x = pid t) h \<Longrightarrow>
     (any_file_step key pid jobs)\<^sup>*\<^sup>* (at_point rs h ph) (at_point rs ((pid t, Rec i) # h) (ph(t := Locked i)))"
  "ph t = Locked i \<Longrightarrow> jobs t = Update k m \<Longrightarrow> i < length rs \<Longrightarrow> m (rs ! i) = Some r \<Longrightarrow>
     (any_file_step key pid jobs)\<^sup>*\<^sup>* (at_point rs h ph) (at_point rs h (ph(t := Holding i r)))"
  "ph t = Holding i r \<Longrightarrow> i < length rs \<Longrightarrow>
     (any_file_step key pid jobs)\<^sup>*\<^sup>* (at_point rs h ph) (at_point (rs[i := r]) h (ph(t := Leaving i True)))"
  "ph t = Leaving i ok \<Longrightarrow>
     (any_file_step key pid jobs)\<^sup>*\<^sup>* (at_point rs h ph)
       (at_point rs (close_fd (pid t) (unlock_record (pid t) i h)) (ph(t := Finished ok)))"
  subgoal by (rule search_path) simp_all
  subgoal using file_step.lock [where s = "at_point rs h ph" and t = t and i = i, OF _ own_lock_granted(1)]
    by (intro path_here [where t = t]) simp
  subgoal using file_step.modify [where s = "at_point rs h ph" and t = t and k = k and m = m]
    by (intro path_here [where t = t]) simp
  subgoal using file_step.put [where s = "at_point rs h ph" and t = t and i = i and r = r] put_rec_in
    by (intro path_here [where t = t]) simp
  subgoal using path_trans [OF
        path_here [OF file_step.leave [where s = "at_point rs h ph" and t = t and i = i and ok = ok]]
        path_here [OF file_step.close [where t = t and ok = ok]]]
    by simp
  done

lemma append_points:
  "ph t = Start \<Longrightarrow> jobs t = Append mk \<Longrightarrow> list_all (\<lambda>x. fst x = pid t) h \<Longrightarrow>
     (any_file_step key pid jobs)\<^sup>*\<^sup>* (at_point rs h ph) (at_point rs ((pid t, Whole) # h) (ph(t := Inside)))"
  "ph t = Inside \<Longrightarrow> jobs t = Append mk \<Longrightarrow>
     (any_file_step key pid jobs)\<^sup>*\<^sup>* (at_point rs h ph) (at_point rs h (ph(t := Appending (mk (length rs)))))"
  "ph t = Appending r \<Longrightarrow>
     (any_file_step key pid jobs)\<^sup>*\<^sup>* (at_point rs h ph) (at_point (rs @ [r]) h (ph(t := Closing True)))"
  "ph t = Closing ok \<Longrightarrow>
     (any_file_step key pid jobs)\<^sup>*\<^sup>* (at_point rs h ph)
       (at_point rs (close_fd (pid t) (unlock_file (pid t) h)) (ph(t := Finished ok)))"
  subgoal using file_step.enter [where s = "at_point rs h ph" and t = t and jobs = jobs, OF _ _ own_lock_granted(2)]
    by (intro path_here [where t = t]) simp
  subgoal using file_step.number [where s = "at_point rs h ph" and t = t and mk = mk]
    by (intro path_here [where t = t]) simp
  subgoal using file_step.append [where s = "at_point rs h ph" and t = t and r = r]
    by (intro path_here [where t = t]) simp
  subgoal using path_trans [OF
        path_here [OF file_step.unlock [where s = "at_point rs h ph" and t = t and ok = ok]]
        path_here [OF file_step.close [where t = t and ok = ok]]]
    by simp
  done

text \<open>Only what the process itself holds is left when its threads are the only ones.\<close>

lemma own_locks_dropped:
  assumes "list_all (\<lambda>x. fst x = p) h"
  shows "close_fd p h = []" "close_fd p (unlock_record p i h) = []" "close_fd p (unlock_file p h) = []"
proof -
  have "{x \<in> set h. fst x \<noteq> p} = {}" using assms by (auto simp: list_all_iff)
  then have "set (close_fd p h) = {}" "set (close_fd p (unlock_record p i h)) = {}"
    "set (close_fd p (unlock_file p h)) = {}"
    unfolding close_set unlock_record_others unlock_file_set by simp_all
  then show "close_fd p h = []" "close_fd p (unlock_record p i h) = []" "close_fd p (unlock_file p h) = []"
    by simp_all
qed

lemma close_fd_Nil [simp]: "close_fd p [] = []"
  by (simp add: close_fd_def)

text \<open>Both threads read the record before either writes it: the first update is overwritten.\<close>

lemma lost_update:
  assumes "pid t1 = pid t2" "t1 \<noteq> t2" "jobs t1 = Update k m1" "jobs t2 = Update k m2"
    "scan_offset (\<lambda>a. key a = k) rs = Some i" "m1 (rs ! i) = Some r1" "m2 (rs ! i) = Some r2"
  shows "\<exists>s. (any_file_step key pid jobs)\<^sup>*\<^sup>* (all_start rs) s \<and> rec_file s = rs[i := r2] \<and>
    phase_of s t1 = Finished True \<and> phase_of s t2 = Finished True"
proof -
  let ?p = "pid t2" and ?h = "[(pid t2, Rec i)]"
  let ?ph = "\<lambda>a b. (\<lambda>_. Start)(t1 := a, t2 := b)"
  let ?R = "any_file_step key pid jobs"
  note st = update_points [where pid = pid and jobs = jobs and key = key]
  note dr = own_locks_dropped [where p = "pid t2"]
  note i = scan_offset_SomeD(1) [OF assms(5)]
  have start: "all_start rs = at_point rs [] (?ph Start Start)"
    by (simp add: all_start_def at_point_def fun_eq_iff)
  have "?R\<^sup>*\<^sup>* (at_point rs [] (?ph Start Start)) (at_point rs [] (?ph (Located i) Start))"
    using st(1) [of "?ph Start Start" t1 k m1 rs i "[]"] assms dr by (simp add: fun_upd_twist)
  also have "?R\<^sup>*\<^sup>* (at_point rs [] (?ph (Located i) Start)) (at_point rs [] (?ph (Located i) (Located i)))"
    using st(1) [of "?ph (Located i) Start" t2 k m2 rs i "[]"] assms dr by simp
  also have "?R\<^sup>*\<^sup>* (at_point rs [] (?ph (Located i) (Located i))) (at_point rs ?h (?ph (Locked i) (Located i)))"
    using st(2) [of "?ph (Located i) (Located i)" t1 i "[]" rs] assms by (simp add: fun_upd_twist)
  also have "?R\<^sup>*\<^sup>* (at_point rs ?h (?ph (Locked i) (Located i))) (at_point rs (?h @ ?h) (?ph (Locked i) (Locked i)))"
    using st(2) [of "?ph (Locked i) (Located i)" t2 i ?h rs] by simp
  also have "?R\<^sup>*\<^sup>* (at_point rs (?h @ ?h) (?ph (Locked i) (Locked i)))
      (at_point rs (?h @ ?h) (?ph (Holding i r1) (Locked i)))"
    using st(3) [of "?ph (Locked i) (Locked i)" t1 i k m1 rs r1] assms i by (simp add: fun_upd_twist)
  also have "?R\<^sup>*\<^sup>* (at_point rs (?h @ ?h) (?ph (Holding i r1) (Locked i)))
      (at_point rs (?h @ ?h) (?ph (Holding i r1) (Holding i r2)))"
    using st(3) [of "?ph (Holding i r1) (Locked i)" t2 i k m2 rs r2] assms i by simp
  also have "?R\<^sup>*\<^sup>* (at_point rs (?h @ ?h) (?ph (Holding i r1) (Holding i r2)))
      (at_point (rs[i := r1]) (?h @ ?h) (?ph (Leaving i True) (Holding i r2)))"
    using st(4) [of "?ph (Holding i r1) (Holding i r2)" t1 i r1 rs] assms(2) i by (simp add: fun_upd_twist)
  also have "?R\<^sup>*\<^sup>* (at_point (rs[i := r1]) (?h @ ?h) (?ph (Leaving i True) (Holding i r2)))
      (at_point (rs[i := r2]) (?h @ ?h) (?ph (Leaving i True) (Leaving i True)))"
    using st(4) [of "?ph (Leaving i True) (Holding i r2)" t2 i r2 "rs[i := r1]"] i by simp
  also have "?R\<^sup>*\<^sup>* (at_point (rs[i := r2]) (?h @ ?h) (?ph (Leaving i True) (Leaving i True)))
      (at_point (rs[i := r2]) [] (?ph (Finished True) (Leaving i True)))"
    using st(5) [of "?ph (Leaving i True) (Leaving i True)" t1 i True "rs[i := r2]" "?h @ ?h"] assms(1,2) dr(2)
    by (simp add: fun_upd_twist)
  also have "?R\<^sup>*\<^sup>* (at_point (rs[i := r2]) [] (?ph (Finished True) (Leaving i True)))
      (at_point (rs[i := r2]) [] (?ph (Finished True) (Finished True)))"
    using st(5) [of "?ph (Finished True) (Leaving i True)" t2 i True "rs[i := r2]" "[]"] dr(2) by simp
  finally have "?R\<^sup>*\<^sup>* (all_start rs) (at_point (rs[i := r2]) [] (?ph (Finished True) (Finished True)))"
    unfolding start .
  then show ?thesis using assms(2) by (intro exI [of _ "at_point (rs[i := r2]) [] (?ph (Finished True) (Finished True))"]) simp
qed

text \<open>A modifier that searches the file itself gives up the lock of its own process: a second
  process gets in between, and what it wrote is overwritten.\<close>

lemma checking_path:
  assumes "n \<le> length rs" "jobs t = Recheck k f"
  shows "(any_file_step key pid jobs)\<^sup>*\<^sup>* (at_point rs h (ph(t := Checking i r []))) (at_point rs h (ph(t := Checking i r (take n rs))))"
  using assms(1)
proof (induction n)
  case (Suc n)
  then have "file_step key pid jobs t (at_point rs h (ph(t := Checking i r (take n rs))))
      (at_point rs h (ph(t := Checking i r (take (Suc n) rs))))"
    using file_step.recheck_on [where jobs = jobs and key = key and s = "at_point rs h (ph(t := Checking i r (take n rs)))" and t = t and i = i
        and r = r and us = "take n rs", OF _ assms(2)] by (simp add: take_Suc_conv_app_nth)
  with Suc show ?case using path_here path_trans by (metis Suc_leD)
qed simp

lemma recheck_path:
  assumes "ph t = Locked i" "jobs t = Recheck k f" "i < length rs" "f rs (rs ! i) = Some r"
  shows "(any_file_step key pid jobs)\<^sup>*\<^sup>* (at_point rs h ph) (at_point rs (close_fd (pid t) h) (ph(t := Holding i r)))"
proof -
  let ?at = "\<lambda>h x. at_point rs h (ph(t := x))" and ?R = "any_file_step key pid jobs"
  have "?R\<^sup>*\<^sup>* (at_point rs h ph) (?at h (Checking i (rs ! i) []))"
    using file_step.recheck [where jobs = jobs and key = key and s = "at_point rs h ph" and t = t, OF _ assms(2)] assms(1,3)
    by (intro path_here [where t = t]) simp
  also have "?R\<^sup>*\<^sup>* (?at h (Checking i (rs ! i) [])) (?at h (Checking i (rs ! i) rs))"
    using checking_path [of "length rs" rs jobs t k f, OF _ assms(2)] by simp
  also have "?R\<^sup>*\<^sup>* (?at h (Checking i (rs ! i) rs)) (?at h (Checked i (Some r)))"
    using file_step.recheck_end [where jobs = jobs and key = key and s = "?at h (Checking i (rs ! i) rs)" and t = t and i = i
        and r = "rs ! i" and us = rs, OF _ assms(2)] assms(4)
    by (intro path_here [where t = t]) simp
  also have "?R\<^sup>*\<^sup>* (?at h (Checked i (Some r))) (?at (unlock_file (pid t) h) (Rechecked i (Some r)))"
    using file_step.recheck_unlock [where jobs = jobs and key = key and s = "?at h (Checked i (Some r))" and t = t and i = i and res = "Some r", OF _ assms(2)]
    by (intro path_here [where t = t]) simp
  also have "?R\<^sup>*\<^sup>* (?at (unlock_file (pid t) h) (Rechecked i (Some r))) (?at (close_fd (pid t) h) (Holding i r))"
    using file_step.recheck_close [where pid = pid and jobs = jobs and key = key and s = "?at (unlock_file (pid t) h) (Rechecked i (Some r))" and t = t
        and i = i and res = "Some r", OF _ assms(2)]
    by (intro path_here [where t = t]) (simp add: close_unlock)
  finally show ?thesis .
qed

lemma recheck_points:
  "ph t = Start \<Longrightarrow> jobs t = Recheck k f \<Longrightarrow> scan_offset (\<lambda>a. key a = k) rs = Some i \<Longrightarrow>
     (any_file_step key pid jobs)\<^sup>*\<^sup>* (at_point rs h ph) (at_point rs (close_fd (pid t) h) (ph(t := Located i)))"
  "ph t = Locked i \<Longrightarrow> jobs t = Recheck k f \<Longrightarrow> i < length rs \<Longrightarrow> f rs (rs ! i) = Some r \<Longrightarrow>
     (any_file_step key pid jobs)\<^sup>*\<^sup>* (at_point rs h ph) (at_point rs (close_fd (pid t) h) (ph(t := Holding i r)))"
  subgoal by (rule search_path) simp_all
  subgoal by (rule recheck_path)
  done

lemma recheck_overwrites:
  assumes "pid t1 \<noteq> pid t2" "jobs t1 = Recheck k f" "jobs t2 = Update k m"
    "scan_offset (\<lambda>a. key a = k) rs = Some i" "f rs (rs ! i) = Some r1" "m (rs ! i) = Some r2"
  shows "\<exists>s. (any_file_step key pid jobs)\<^sup>*\<^sup>* (all_start rs) s \<and> rec_file s = rs[i := r1] \<and>
    phase_of s t1 = Finished True \<and> phase_of s t2 = Finished True"
proof -
  have ne: "t1 \<noteq> t2" using assms(1) by auto
  let ?ph = "\<lambda>a b. (\<lambda>_. Start)(t1 := a, t2 := b)"
  let ?R = "any_file_step key pid jobs" and ?h2 = "[(pid t2, Rec i)]"
  note st = update_points [where pid = pid and jobs = jobs and key = key]
  note re = recheck_points [where pid = pid and jobs = jobs and key = key]
  note dr = own_locks_dropped [where p = "pid t1"] own_locks_dropped [where p = "pid t2"]
  note i = scan_offset_SomeD(1) [OF assms(4)]
  have start: "all_start rs = at_point rs [] (?ph Start Start)"
    by (simp add: all_start_def at_point_def fun_eq_iff)
  have "?R\<^sup>*\<^sup>* (at_point rs [] (?ph Start Start)) (at_point rs [] (?ph (Located i) Start))"
    using re(1) [of "?ph Start Start" t1 k f rs i "[]"] assms ne dr by (simp add: fun_upd_twist)
  also have "?R\<^sup>*\<^sup>* (at_point rs [] (?ph (Located i) Start)) (at_point rs [(pid t1, Rec i)] (?ph (Locked i) Start))"
    using st(2) [of "?ph (Located i) Start" t1 i "[]" rs] ne by (simp add: fun_upd_twist)
  also have "?R\<^sup>*\<^sup>* (at_point rs [(pid t1, Rec i)] (?ph (Locked i) Start)) (at_point rs [] (?ph (Holding i r1) Start))"
    using re(2) [of "?ph (Locked i) Start" t1 i k f rs r1 "[(pid t1, Rec i)]"] assms ne i dr
    by (simp add: fun_upd_twist)
  also have "?R\<^sup>*\<^sup>* (at_point rs [] (?ph (Holding i r1) Start)) (at_point rs [] (?ph (Holding i r1) (Located i)))"
    using st(1) [of "?ph (Holding i r1) Start" t2 k m rs i "[]"] assms dr by simp
  also have "?R\<^sup>*\<^sup>* (at_point rs [] (?ph (Holding i r1) (Located i))) (at_point rs ?h2 (?ph (Holding i r1) (Locked i)))"
    using st(2) [of "?ph (Holding i r1) (Located i)" t2 i "[]" rs] by simp
  also have "?R\<^sup>*\<^sup>* (at_point rs ?h2 (?ph (Holding i r1) (Locked i))) (at_point rs ?h2 (?ph (Holding i r1) (Holding i r2)))"
    using st(3) [of "?ph (Holding i r1) (Locked i)" t2 i k m rs r2] assms i by simp
  also have "?R\<^sup>*\<^sup>* (at_point rs ?h2 (?ph (Holding i r1) (Holding i r2)))
      (at_point (rs[i := r2]) ?h2 (?ph (Holding i r1) (Leaving i True)))"
    using st(4) [of "?ph (Holding i r1) (Holding i r2)" t2 i r2 rs] i by simp
  also have "?R\<^sup>*\<^sup>* (at_point (rs[i := r2]) ?h2 (?ph (Holding i r1) (Leaving i True)))
      (at_point (rs[i := r2]) [] (?ph (Holding i r1) (Finished True)))"
    using st(5) [of "?ph (Holding i r1) (Leaving i True)" t2 i True "rs[i := r2]" ?h2] dr(5) by simp
  also have "?R\<^sup>*\<^sup>* (at_point (rs[i := r2]) [] (?ph (Holding i r1) (Finished True)))
      (at_point (rs[i := r1]) [] (?ph (Leaving i True) (Finished True)))"
    using st(4) [of "?ph (Holding i r1) (Finished True)" t1 i r1 "rs[i := r2]"] i ne by (simp add: fun_upd_twist)
  also have "?R\<^sup>*\<^sup>* (at_point (rs[i := r1]) [] (?ph (Leaving i True) (Finished True)))
      (at_point (rs[i := r1]) [] (?ph (Finished True) (Finished True)))"
    using st(5) [of "?ph (Leaving i True) (Finished True)" t1 i True "rs[i := r1]" "[]"] dr(2) ne
    by (simp add: fun_upd_twist)
  finally have "?R\<^sup>*\<^sup>* (all_start rs) (at_point (rs[i := r1]) [] (?ph (Finished True) (Finished True)))"
    unfolding start .
  then show ?thesis using ne by (intro exI [of _ "at_point (rs[i := r1]) [] (?ph (Finished True) (Finished True))"]) simp
qed

text \<open>Both threads number their record before either writes it: both get the same number.\<close>

lemma same_number:
  assumes "pid t1 = pid t2" "t1 \<noteq> t2" "jobs t1 = Append mk1" "jobs t2 = Append mk2"
  shows "\<exists>s. (any_file_step key pid jobs)\<^sup>*\<^sup>* (all_start rs) s \<and>
    rec_file s = rs @ [mk1 (length rs), mk2 (length rs)] \<and>
    phase_of s t1 = Finished True \<and> phase_of s t2 = Finished True"
proof -
  let ?h = "[(pid t2, Whole)]" and ?ph = "\<lambda>a b. (\<lambda>_. Start)(t1 := a, t2 := b)"
  let ?R = "any_file_step key pid jobs" and ?r1 = "mk1 (length rs)" and ?r2 = "mk2 (length rs)"
  note st = append_points [where pid = pid and jobs = jobs and key = key]
  note dr = own_locks_dropped [where p = "pid t2"]
  have start: "all_start rs = at_point rs [] (?ph Start Start)"
    by (simp add: all_start_def at_point_def fun_eq_iff)
  have "?R\<^sup>*\<^sup>* (at_point rs [] (?ph Start Start)) (at_point rs ?h (?ph Inside Start))"
    using st(1) [of "?ph Start Start" t1 mk1 "[]" rs] assms by (simp add: fun_upd_twist)
  also have "?R\<^sup>*\<^sup>* (at_point rs ?h (?ph Inside Start)) (at_point rs (?h @ ?h) (?ph Inside Inside))"
    using st(1) [of "?ph Inside Start" t2 mk2 ?h rs] assms by simp
  also have "?R\<^sup>*\<^sup>* (at_point rs (?h @ ?h) (?ph Inside Inside)) (at_point rs (?h @ ?h) (?ph (Appending ?r1) Inside))"
    using st(2) [of "?ph Inside Inside" t1 mk1 rs] assms by (simp add: fun_upd_twist)
  also have "?R\<^sup>*\<^sup>* (at_point rs (?h @ ?h) (?ph (Appending ?r1) Inside))
      (at_point rs (?h @ ?h) (?ph (Appending ?r1) (Appending ?r2)))"
    using st(2) [of "?ph (Appending ?r1) Inside" t2 mk2 rs] assms by simp
  also have "?R\<^sup>*\<^sup>* (at_point rs (?h @ ?h) (?ph (Appending ?r1) (Appending ?r2)))
      (at_point (rs @ [?r1]) (?h @ ?h) (?ph (Closing True) (Appending ?r2)))"
    using st(3) [of "?ph (Appending ?r1) (Appending ?r2)" t1 ?r1 rs] assms by (simp add: fun_upd_twist)
  also have "?R\<^sup>*\<^sup>* (at_point (rs @ [?r1]) (?h @ ?h) (?ph (Closing True) (Appending ?r2)))
      (at_point (rs @ [?r1, ?r2]) (?h @ ?h) (?ph (Closing True) (Closing True)))"
    using st(3) [of "?ph (Closing True) (Appending ?r2)" t2 ?r2 "rs @ [?r1]"] by simp
  also have "?R\<^sup>*\<^sup>* (at_point (rs @ [?r1, ?r2]) (?h @ ?h) (?ph (Closing True) (Closing True)))
      (at_point (rs @ [?r1, ?r2]) [] (?ph (Finished True) (Closing True)))"
    using st(4) [of "?ph (Closing True) (Closing True)" t1 True "rs @ [?r1, ?r2]" "?h @ ?h"] assms dr(3)
    by (simp add: fun_upd_twist)
  also have "?R\<^sup>*\<^sup>* (at_point (rs @ [?r1, ?r2]) [] (?ph (Finished True) (Closing True)))
      (at_point (rs @ [?r1, ?r2]) [] (?ph (Finished True) (Finished True)))"
    using st(4) [of "?ph (Finished True) (Closing True)" t2 True "rs @ [?r1, ?r2]" "[]"] dr(3) by simp
  finally have "?R\<^sup>*\<^sup>* (all_start rs) (at_point (rs @ [?r1, ?r2]) [] (?ph (Finished True) (Finished True)))"
    unfolding start .
  then show ?thesis using assms(2)
    by (intro exI [of _ "at_point (rs @ [?r1, ?r2]) [] (?ph (Finished True) (Finished True))"]) simp
qed

end
