(* ===== verification/Registration.thy ===== *)
theory Registration
  imports Router
begin

text \<open>
  \<open>add_new_customer\<close> and \<open>add_employee\<close> as the threads of the server run them: the uniqueness
  check, the choice of the identifier and the writes each open, lock and close their file on
  their own, so that other threads run between them. A schedule says whose turn it is; one turn
  is one routine of \<^verbatim>\<open>utils.c\<close>.
\<close>

section \<open>One registration in steps\<close>

record customer_job =
  j_user :: user_rec
  j_account :: account_rec
  j_username :: string
  j_password :: string

record staff_job =
  s_first_name :: string
  s_last_name :: string
  s_age :: int
  s_address :: string
  s_role :: string
  s_email :: string
  s_phone :: string
  s_username :: string
  s_password :: string

datatype registration = New_customer customer_job | New_staff staff_job

text \<open>What the check looks at.\<close>

fun reg_username :: "registration \<Rightarrow> string" where
  "reg_username (New_customer j) = j_username j" | "reg_username (New_staff j) = s_username j"

fun reg_email :: "registration \<Rightarrow> string" where
  "reg_email (New_customer j) = cstr (email (j_user j))" | "reg_email (New_staff j) = s_email j"

fun reg_phone :: "registration \<Rightarrow> string" where
  "reg_phone (New_customer j) = cstr (phone (j_user j))" | "reg_phone (New_staff j) = s_phone j"

definition customer_record :: "env \<Rightarrow> customer_job \<Rightarrow> uid \<Rightarrow> nat \<Rightarrow> user_rec" where
  \<comment> \<open>the record filled in at tick \<open>n\<close>\<close>
  "customer_record e j new_id n = (j_user j)\<lparr>
     u_user_id := new_id, u_role := ROLE_CUSTOMER, u_active := STATUS_ACTIVE, created_at := now e n,
     username := strncpy (username (j_user j)) (j_username j) (MAX_USERNAME_LEN - 1),
     password_hash := generate_password_hash e (j_password j) (password_hash (j_user j))\<rparr>"

definition staff_record :: "env \<Rightarrow> staff_job \<Rightarrow> role_t \<Rightarrow> uid \<Rightarrow> nat \<Rightarrow> user_rec" where
  "staff_record e j role new_id n =
     (set_details (s_first_name j) (s_last_name j) (s_age j) (s_address j) (s_email j) (s_phone j) zero_user)\<lparr>
       u_user_id := new_id, u_active := STATUS_ACTIVE, created_at := now e n,
       username := strncpy (username zero_user) (s_username j) (MAX_USERNAME_LEN - 1), u_role := role,
       password_hash := generate_password_hash e (s_password j) (password_hash zero_user)\<rparr>"

fun reg_record :: "env \<Rightarrow> registration \<Rightarrow> uid \<Rightarrow> nat \<Rightarrow> user_rec option" where
  \<comment> \<open>\<open>None\<close> for a role that is turned away, after the number was drawn\<close>
  "reg_record e (New_customer j) new_id n = Some (customer_record e j new_id n)"
| "reg_record e (New_staff j) new_id n = map_option (\<lambda>r. staff_record e j r new_id n) (staff_role (s_role j))"

definition customer_account :: "customer_job \<Rightarrow> uid \<Rightarrow> account_rec" where
  "customer_account j new_id = (j_account j)\<lparr>
     a_user_id := new_id, account_id := new_id, balance := dzero, a_active := STATUS_ACTIVE\<rparr>"

fun added_text :: "registration \<Rightarrow> user_rec \<Rightarrow> string" where
  "added_text (New_customer j) u = snprintf MAX_MSG_LEN
     (''Customer Added (ID: '' @ fmt_u (u_user_id u) @ '', Username: '' @ cstr (username u) @ '')'')"
| "added_text (New_staff j) u = snprintf MAX_MSG_LEN
     (''Employee Added (ID: '' @ fmt_u (u_user_id u) @ '', Role: '' @ s_role j @ '')'')"

fun not_added_text :: "registration \<Rightarrow> string" where
  "not_added_text (New_customer j) = snprintf MAX_MSG_LEN ''Customer Add Failed (Persistence Error)''"
| "not_added_text (New_staff j) = snprintf MAX_MSG_LEN ''Employee Add Failed (Write Error)''"

definition bad_role_text :: string where
  "bad_role_text = snprintf MAX_MSG_LEN (''Invalid role. Must be '' @ [CHR 0x27] @ ''employee'' @
     [CHR 0x27] @ '' or '' @ [CHR 0x27] @ ''manager'' @ [CHR 0x27])"

datatype reg_phase = Entering | Checked | Numbered user_rec | Stored user_rec | Answered bool string

text \<open>A customer needs an account as well; the turn after a stored record writes it.\<close>

fun when_stored :: "registration \<Rightarrow> user_rec \<Rightarrow> reg_phase" where
  "when_stored (New_customer j) u = Stored u"
| "when_stored (New_staff j) u = Answered True (added_text (New_staff j) u)"

fun reg_step :: "env \<Rightarrow> registration \<Rightarrow> reg_phase \<Rightarrow> st \<Rightarrow> reg_phase \<times> st" where
  "reg_step e r Entering s =
     (case check_uniqueness (reg_username r) (reg_email r) (reg_phone r) 0 s of
        (uniq, s1) \<Rightarrow> (if uniq then Checked else Answered False (resp_msg s1), s1))"
| "reg_step e r Checked s =
     (case generate_new_userId e s of
        (new_id, s1) \<Rightarrow>
          (case reg_record e r new_id (tick s1) of
             None \<Rightarrow> Answered False bad_role_text
           | Some u \<Rightarrow> Numbered u, s1))"
| "reg_step e r (Numbered u) s =
     (case write_user e u s of
        (wu, s1) \<Rightarrow> (if wu then when_stored r u else Answered False (not_added_text r), s1))"
| "reg_step e (New_customer j) (Stored u) s =
     (case write_account e (customer_account j (u_user_id u)) s of
        (wa, s1) \<Rightarrow>
          (Answered wa (if wa then added_text (New_customer j) u else not_added_text (New_customer j)), s1))"
| "reg_step e (New_staff j) (Stored u) s = (Stored u, s)"
| "reg_step e r (Answered ok m) s = (Answered ok m, s)"

text \<open>On its own, four turns are the operation.\<close>

fun register :: "env \<Rightarrow> registration \<Rightarrow> st \<Rightarrow> bool \<times> st" where
  "register e (New_customer j) s = add_new_customer e (j_user j) (j_account j) (j_username j) (j_password j) s"
| "register e (New_staff j) s = add_employee e (s_first_name j) (s_last_name j) (s_age j) (s_address j)
     (s_role j) (s_email j) (s_phone j) (s_username j) (s_password j) s"

fun turns :: "nat \<Rightarrow> env \<Rightarrow> registration \<Rightarrow> reg_phase \<Rightarrow> st \<Rightarrow> reg_phase \<times> st" where
  "turns 0 e r ph s = (ph, s)"
| "turns (Suc n) e r ph s = (case reg_step e r ph s of (ph1, s1) \<Rightarrow> turns n e r ph1 s1)"

lemma register_alone:
  assumes "turns 4 e r Entering s = (ph, s1)" "register e r s = (ok, s2)"
  shows "ph = Answered ok (resp_msg s2) \<and> disk s1 = disk s2 \<and> tick s1 = tick s2"
proof (cases r)
  case (New_customer j)
  with assms show ?thesis
    by (auto simp: numeral_eq_Suc add_new_customer_def customer_record_def customer_account_def Let_def
        split: prod.splits if_splits)
next
  case (New_staff j)
  with assms show ?thesis
    by (auto simp: numeral_eq_Suc add_employee_def staff_record_def bad_role_text_def Let_def
        set_details_def split: prod.splits if_splits option.splits)
qed

section \<open>Several at once\<close>

record desk =
  world :: st
  at_phase :: "nat \<Rightarrow> reg_phase"

definition turn :: "env \<Rightarrow> (nat \<Rightarrow> registration) \<Rightarrow> nat \<Rightarrow> desk \<Rightarrow> desk" where
  "turn e jobs t d =
     (case reg_step e (jobs t) (at_phase d t) (world d) of
        (ph, s) \<Rightarrow> \<lparr>world = s, at_phase = (at_phase d)(t := ph)\<rparr>)"

fun run_schedule :: "env \<Rightarrow> (nat \<Rightarrow> registration) \<Rightarrow> nat list \<Rightarrow> desk \<Rightarrow> desk" where
  "run_schedule e jobs [] d = d"
| "run_schedule e jobs (t # ts) d = run_schedule e jobs ts (turn e jobs t d)"

definition open_desk :: "st \<Rightarrow> desk" where
  "open_desk s = \<lparr>world = s, at_phase = (\<lambda>_. Entering)\<rparr>"

definition admissible :: "registration \<Rightarrow> st \<Rightarrow> bool" where
  "admissible r s \<longleftrightarrow> fst (check_uniqueness (reg_username r) (reg_email r) (reg_phone r) 0 s)"

lemma admissible_step: "admissible r s \<Longrightarrow> reg_step e r Entering s = (Checked, s)"
  by (auto simp: admissible_def check_uniqueness_def split: option.splits)

lemma next_number:
  "users_db (disk s) = Some us \<Longrightarrow> generate_new_userId e s = (next_uid us, s)"
  by (simp add: generate_new_userId_def open_creat_def next_uid_def)

lemma reg_record_id: "reg_record e r k n = Some u \<Longrightarrow> u_user_id u = k"
  by (cases r) (auto simp: customer_record_def staff_record_def)

lemma numbered_step:
  assumes "users_db (disk s) = Some us" "reg_record e r (next_uid us) (tick s) = Some u"
  shows "reg_step e r Checked s = (Numbered u, s)"
  using assms by (simp add: next_number [OF assms(1)])

lemma scan_offset_last:
  assumes "k \<notin> f ` set rs" "f v = k"
  shows "scan_offset (\<lambda>w. f w = k) (rs @ [v]) = Some (length rs)"
proof (rule scan_offset_eqI)
  fix j assume "j < length rs"
  then have "rs ! j \<in> set rs" by simp
  with assms(1) \<open>j < length rs\<close> show "f ((rs @ [v]) ! j) \<noteq> k" by (auto simp: nth_append)
qed (use assms(2) in auto)

lemma store_new_user:
  assumes "io_ok e" "users_db (disk s) = Some us" "u_user_id u \<notin> u_user_id ` set us"
  shows "write_user e u s = (True, s\<lparr>disk := (disk s)\<lparr>users_db := Some (us @ [u])\<rparr>, tick := Suc (tick s)\<rparr>)"
  using assms scan_offset_fresh [OF assms(3)]
  by (simp add: write_user_def write_rec_def open_creat_def pwrite_def put_rec_def)

lemma store_same_user:
  assumes "io_ok e" "users_db (disk s) = Some (us @ [v])" "u_user_id u \<notin> u_user_id ` set us"
    "u_user_id v = u_user_id u"
  shows "write_user e u s = (True, s\<lparr>disk := (disk s)\<lparr>users_db := Some (us @ [u])\<rparr>, tick := Suc (tick s)\<rparr>)"
  using assms scan_offset_last [OF assms(3,4)]
  by (simp add: write_user_def write_rec_def open_creat_def pwrite_def put_rec_def)

lemma stored_step:
  assumes "io_ok e" "accounts_db (disk s) = Some as"
  shows "\<exists>s' as'. reg_step e r (when_stored r u) s = (Answered True (added_text r u), s') \<and>
    users_db (disk s') = users_db (disk s) \<and> accounts_db (disk s') = Some as'"
  using assms
  by (cases r) (auto simp: write_account_def write_rec_def open_creat_def pwrite_def split: option.splits)

text \<open>
  Two threads in lock step draw the same identifier, and \<open>write_user\<close> of the second one finds
  the record of the first and replaces it, whether customers or staff are registered.
\<close>

lemma lock_step_registration:
  assumes "io_ok e" "a \<noteq> b" "users_db (disk s) = Some us" "accounts_db (disk s) = Some as"
    "fresh_uid (tables_of (disk s))" "admissible (jobs a) s" "admissible (jobs b) s"
    "reg_record e (jobs a) (next_uid us) (tick s) = Some ua"
    "reg_record e (jobs b) (next_uid us) (tick s) = Some ub"
  shows "\<exists>w. run_schedule e jobs [a, b, a, b, a, b, a, b] (open_desk s) =
    \<lparr>world = w, at_phase = (\<lambda>_. Entering)(a := Answered True (added_text (jobs a) ua),
       b := Answered True (added_text (jobs b) ub))\<rparr> \<and> users_db (disk w) = Some (us @ [ub])"
proof -
  have id: "u_user_id ua = next_uid us" "u_user_id ub = next_uid us"
    using reg_record_id assms(8,9) by auto
  have new: "next_uid us \<notin> u_user_id ` set us" using assms(3,5) by (simp add: fresh_uid_def)
  let ?D = "\<lambda>w x y. \<lparr>world = w, at_phase = (\<lambda>_. Entering)(a := x, b := y)\<rparr>"
  let ?W = "\<lambda>u n. s\<lparr>disk := (disk s)\<lparr>users_db := Some (us @ [u])\<rparr>, tick := n\<rparr>"
  have start: "open_desk s = ?D s Entering Entering" by (simp add: open_desk_def fun_eq_iff)
  have ta: "turn e jobs a (?D w x y) = ?D w' x' y" if "reg_step e (jobs a) x w = (x', w')" for w x y w' x'
    using that assms(2) by (simp add: turn_def fun_upd_twist)
  have tb: "turn e jobs b (?D w x y) = ?D w' x y'" if "reg_step e (jobs b) y w = (y', w')" for w x y w' y'
    using that assms(2) by (simp add: turn_def)
  have 5: "reg_step e (jobs a) (Numbered ua) s = (when_stored (jobs a) ua, ?W ua (Suc (tick s)))"
    using store_new_user [OF assms(1,3), of ua] new id by simp
  have 6: "reg_step e (jobs b) (Numbered ub) (?W ua n) = (when_stored (jobs b) ub, ?W ub (Suc n))" for n
    using store_same_user [OF assms(1), of "?W ua n" us ua ub] new id by simp
  have "accounts_db (disk (?W ub (Suc (Suc (tick s))))) = Some as" using assms(4) by simp
  from stored_step [OF assms(1) this, of "jobs a" ua] obtain w7 as7 where
    7: "reg_step e (jobs a) (when_stored (jobs a) ua) (?W ub (Suc (Suc (tick s)))) =
      (Answered True (added_text (jobs a) ua), w7)"
    "users_db (disk w7) = Some (us @ [ub])" "accounts_db (disk w7) = Some as7" by auto
  from stored_step [OF assms(1) 7(3), of "jobs b" ub] obtain w8 as8 where
    8: "reg_step e (jobs b) (when_stored (jobs b) ub) w7 = (Answered True (added_text (jobs b) ub), w8)"
    "users_db (disk w8) = Some (us @ [ub])" using 7(2) by auto
  have "run_schedule e jobs [a, b, a, b, a, b, a, b] (open_desk s) =
      ?D w8 (Answered True (added_text (jobs a) ua)) (Answered True (added_text (jobs b) ub))"
    unfolding start run_schedule.simps ta [OF admissible_step [OF assms(6)]]
      tb [OF admissible_step [OF assms(7)]] ta [OF numbered_step [OF assms(3,8)]]
      tb [OF numbered_step [OF assms(3,9)]] ta [OF 5] tb [OF 6] ta [OF 7(1)] tb [OF 8(1)] ..
  with 8(2) show ?thesis by blast
qed

text \<open>The first of the two is not in the file.\<close>

lemma unknown_user_fails:
  assumes "users_db (disk s) = Some us" "\<forall>v\<in>set us. cstr (username v) \<noteq> un"
  shows "login_user e un p s = Login_failed"
proof -
  have "List.find (\<lambda>v. cstr (username v) = un) us = None"
    using assms(2) by (simp add: find_None_iff)
  with assms(1) show ?thesis by (simp add: login_user_def)
qed

lemma admissible_new_name:
  assumes "admissible r s" "0 \<notin> u_user_id ` set (users (disk s))"
  shows "\<forall>v\<in>set (users (disk s)). cstr (username v) \<noteq> reg_username r"
proof -
  obtain ok s' where "check_uniqueness (reg_username r) (reg_email r) (reg_phone r) 0 s = (ok, s')" by fastforce
  from check_uniquenessD(4) [OF this] this assms show ?thesis
    by (auto simp: admissible_def image_iff)
qed

end
