(* ===== verification/Concurrency.thy ===== *)
theory Concurrency
  imports Locks Registration Fixtures
begin

text \<open>
  Properties of interleaved requests: the writers of different processes are isolated
  by the file and record locks, those of the threads of one process are not; two registrations at the
  same time draw one identifier.
\<close>

definition pay_in :: "uid \<Rightarrow> (nat \<Rightarrow> double) \<Rightarrow> nat \<Rightarrow> (uid, account_rec) job" where
  \<comment> \<open>every thread deposits its amount on the account of \<open>k\<close>\<close>
  "pay_in k a t = job_of k (deposit_modifier (a t)) demo_st"

lemma pay_in_eq:
  "pay_in k a t = Update k (\<lambda>r. if a_active r = STATUS_INACTIVE then None
                              else Some (r\<lparr>balance := dadd (balance r) (a t)\<rparr>))"
  by (simp add: pay_in_def job_of_def deposit_modifier_def fun_eq_iff)

lemma pay_in_locked: "well_locked a_user_id (pay_in k a)"
  by (auto simp: well_locked_def pay_in_eq split: if_splits)

definition log_entry :: "(nat \<Rightarrow> txn_rec) \<Rightarrow> nat \<Rightarrow> (64 word, txn_rec) job" where
  \<comment> \<open>every thread logs its transaction: \<open>append_transaction\<close>\<close>
  "log_entry tx t = Append (\<lambda>n. (tx t)\<lparr>txn_id := of_nat (n + 1)\<rparr>)"

lemma append_transaction_entry:
  assumes "io_ok e" "txns_db (disk s) = Some ts" "append_transaction e (tx t) s = (ok, tx', s')"
  shows "txns_db (disk s') = Some (apply_job txn_id (log_entry tx t) ts)"
  using txns.append_rec_apply [OF assms(1,2) assms(3) [unfolded append_transaction_def]]
  by (simp add: log_entry_def)

lemma logged_in_order:
  assumes "numbered txn_id 1 xs"
  shows "numbered txn_id 1 (in_order txn_id (log_entry tx) ts xs) \<and>
    length (in_order txn_id (log_entry tx) ts xs) = length xs + length ts"
  using assms
proof (induction ts arbitrary: xs)
  case (Cons t ts)
  have "numbered txn_id 1 (xs @ [(tx t)\<lparr>txn_id := of_nat (length xs + 1)\<rparr>])"
    by (rule numbered_append [OF Cons.prems]) simp
  from Cons.IH [OF this] show ?case
    by (simp add: in_order_def log_entry_def apply_job_def)
qed (simp add: in_order_def)

text \<open>
  C39: Between processes the writers of one file are serialisable, as long as no modifier opens
  the file itself (as those of \<open>modify_customer\<close> and \<open>modify_user\<close> do, see C13) or changes the key of
  a record: when every thread runs in a process of its own, then after any interleaving of the
  system calls of such updates, of the appends and of the \<open>write_*\<close> routines, with any failing opens,
  record locks and writes, the file is what the jobs that reached it give one after the other, in
  some order.
\<close>

theorem processes_serialise:
  assumes "(any_file_step key pid jobs)\<^sup>*\<^sup>* (all_start rs) s" "inj pid" "well_locked key jobs"
  shows "\<exists>ts. distinct ts \<and> set ts = {t. stored (phase_of s t)} \<and> rec_file s = in_order key jobs ts rs"
  using run_serial [OF assms] by (simp add: serial_inv_def)

text \<open>Two processes deposit on one account; both have found the record before either locks it.\<close>

theorem processes_serialise_witness:
  "\<exists>(s :: account_rec shared) ts. set ts = {1, 2} \<and> map balance (rec_file s) = [dbl 530] \<and>
     rec_file s = in_order a_user_id (pay_in 1001 (\<lambda>t. dbl (int t * 10))) ts [holder 1001 500]"
proof -
  let ?rs = "[holder 1001 500]" and ?jobs = "pay_in 1001 (\<lambda>t. dbl (int t * 10))"
  let ?r1 = "(holder 1001 500)\<lparr>balance := dadd (dbl 500) (dbl 10)\<rparr>"
  let ?r2 = "(holder 1001 500)\<lparr>balance := dadd (dadd (dbl 500) (dbl 10)) (dbl 20)\<rparr>"
  let ?ph = "\<lambda>a b. (\<lambda>_. Start)(1 := a, 2 := b)" and ?R = "any_file_step a_user_id id ?jobs"
  let ?h1 = "[(1, Rec 0)]" and ?h2 = "[(2, Rec 0)]"
  note st = update_points [where pid = id and jobs = ?jobs and key = a_user_id]
  note dr = own_locks_dropped [where p = 1] own_locks_dropped [where p = 2]
  have start: "all_start ?rs = at_point ?rs [] (?ph Start Start)"
    by (simp add: all_start_def at_point_def fun_eq_iff)
  have "?R\<^sup>*\<^sup>* (at_point ?rs [] (?ph Start Start)) (at_point ?rs [] (?ph (Located 0) Start))"
    using st(1) [of "?ph Start Start" 1, OF _ pay_in_eq, of ?rs 0 "[]"]
    by (simp add: scan_offset_def fun_upd_twist)
  also have "?R\<^sup>*\<^sup>* \<dots> (at_point ?rs [] (?ph (Located 0) (Located 0)))"
    using st(1) [of "?ph (Located 0) Start" 2, OF _ pay_in_eq, of ?rs 0 "[]"]
    by (simp add: scan_offset_def)
  also have "?R\<^sup>*\<^sup>* \<dots> (at_point ?rs ?h1 (?ph (Locked 0) (Located 0)))"
    using st(2) [of "?ph (Located 0) (Located 0)" 1 0 "[]" ?rs] by (simp add: fun_upd_twist)
  also have "?R\<^sup>*\<^sup>* \<dots> (at_point ?rs ?h1 (?ph (Holding 0 ?r1) (Located 0)))"
    using st(3) [of "?ph (Locked 0) (Located 0)" 1 0, OF _ pay_in_eq, of ?rs ?r1 ?h1] by (simp add: fun_upd_twist)
  also have "?R\<^sup>*\<^sup>* \<dots> (at_point [?r1] ?h1 (?ph (Leaving 0 True) (Located 0)))"
    using st(4) [of "?ph (Holding 0 ?r1) (Located 0)" 1 0 ?r1 ?rs ?h1] by (simp add: fun_upd_twist)
  also have "?R\<^sup>*\<^sup>* \<dots> (at_point [?r1] [] (?ph (Finished True) (Located 0)))"
    using st(5) [of "?ph (Leaving 0 True) (Located 0)" 1 0 True "[?r1]" ?h1] dr(2) [of ?h1 0]
    by (simp add: fun_upd_twist)
  also have "?R\<^sup>*\<^sup>* \<dots> (at_point [?r1] ?h2 (?ph (Finished True) (Locked 0)))"
    using st(2) [of "?ph (Finished True) (Located 0)" 2 0 "[]" "[?r1]"] by simp
  also have "?R\<^sup>*\<^sup>* \<dots> (at_point [?r1] ?h2 (?ph (Finished True) (Holding 0 ?r2)))"
    using st(3) [of "?ph (Finished True) (Locked 0)" 2 0, OF _ pay_in_eq, of "[?r1]" ?r2 ?h2] by simp
  also have "?R\<^sup>*\<^sup>* \<dots> (at_point [?r2] ?h2 (?ph (Finished True) (Leaving 0 True)))"
    using st(4) [of "?ph (Finished True) (Holding 0 ?r2)" 2 0 ?r2 "[?r1]" ?h2] by simp
  finally have run: "?R\<^sup>*\<^sup>* (all_start ?rs) (at_point [?r2] ?h2 (?ph (Finished True) (Leaving 0 True)))"
    unfolding start .
  have "{t. stored (?ph (Finished True) (Leaving 0 True) t)} = {1 :: nat, 2}" by auto
  with processes_serialise [OF run inj_on_id pay_in_locked] obtain ts where
    ts: "set ts = {1, 2}" "[?r2] = in_order a_user_id ?jobs ts ?rs" unfolding at_point_sel by metis
  have "map balance [?r2] = [dbl 530]" by (simp add: dadd_dbl)
  with ts show ?thesis
    by (intro exI [of _ "at_point [?r2] ?h2 (?ph (Finished True) (Leaving 0 True))"] exI [of _ ts])
      (simp only: at_point_sel simp_thms)
qed

text \<open>
  C40: Between the threads of the server, which share one process, the record lock excludes
  nobody: two deposits on the same active account can both report success although only the
  second one is in the file, the first amount is lost.
\<close>

theorem threads_lose_updates:
  assumes "pid t1 = pid t2" "t1 \<noteq> t2" "scan_offset (\<lambda>a. a_user_id a = k) rs = Some i"
    "a_active (rs ! i) = STATUS_ACTIVE"
  shows "\<exists>s. (any_file_step a_user_id pid (pay_in k a))\<^sup>*\<^sup>* (all_start rs) s \<and>
    phase_of s t1 = Finished True \<and> phase_of s t2 = Finished True \<and>
    rec_file s = rs[i := (rs ! i)\<lparr>balance := dadd (balance (rs ! i)) (a t2)\<rparr>]"
  using lost_update [where jobs = "pay_in k a", OF assms(1,2) pay_in_eq pay_in_eq assms(3)] assms(4)
  by fastforce

theorem threads_lose_updates_witness:
  "\<exists>s. (any_file_step a_user_id (\<lambda>_. 7) (pay_in 1001 (\<lambda>t. if t = 1 then dbl 100 else dbl 5)))\<^sup>*\<^sup>*
      (all_start [holder 1001 500]) s \<and>
    phase_of s 1 = Finished True \<and> phase_of s 2 = Finished True \<and>
    map balance (rec_file s) = [dbl 505]"
proof -
  have "dadd (dbl 500) (dbl 5) = dbl 505" by (subst dadd_dbl) simp_all
  with threads_lose_updates [of "\<lambda>_. 7" 1 2 1001 "[holder 1001 500]" 0 "\<lambda>t. if t = 1 then dbl 100 else dbl 5"]
  show ?thesis by (auto simp: scan_offset_def)
qed

text \<open>
  C13: The record lock does not protect a change of details even between processes:
  \<open>modify_customer\<close> checks the uniqueness of the new contacts while it holds the lock, and the
  check opens and closes the users file, which gives the lock up; a change of the password by
  another process gets in between, is answered with success, and is overwritten with the old
  password.
\<close>

theorem details_overwrite_password:
  assumes "pid t1 \<noteq> pid t2"
    "jobs t1 = recheck_of k (modify_customer_modifier fname lname a ad em ph) s"
    "jobs t2 = job_of k (change_pass_modifier e newpass) s"
    "scan_offset (\<lambda>u. u_user_id u = k) us = Some i" "u_role (us ! i) = ROLE_CUSTOMER"
    "uniqueness_scan (cstr (username (us ! i))) em ph k us = None"
  shows "\<exists>s'. (any_file_step u_user_id pid jobs)\<^sup>*\<^sup>* (all_start us) s' \<and>
    phase_of s' t1 = Finished True \<and> phase_of s' t2 = Finished True \<and>
    rec_file s' = us[i := set_details fname lname a ad em ph (us ! i)] \<and>
    password_hash (rec_file s' ! i) = password_hash (us ! i)"
proof -
  note i = scan_offset_SomeD(1,2) [OF assms(4)]
  let ?f = "\<lambda>us u. case modify_customer_modifier fname lname a ad em ph u
      (s\<lparr>disk := (disk s)\<lparr>users_db := Some us\<rparr>\<rparr>) of (ok, u', s') \<Rightarrow> if ok then Some u' else None"
  have f1: "jobs t1 = Recheck k ?f" using assms(2) by (simp only: recheck_of_def)
  have f2: "?f us (us ! i) = Some (set_details fname lname a ad em ph (us ! i))"
    using i(2) by (simp add: modify_customer_modifier_def check_uniqueness_def assms(5,6) Let_def)
  obtain m r where m: "jobs t2 = Update k m" "m (us ! i) = Some r"
    using assms(3) by (auto simp: job_of_def change_pass_modifier_def)
  have "password_hash (set_details fname lname a ad em ph (us ! i)) = password_hash (us ! i)"
    by (simp add: set_details_def)
  moreover obtain s' where "(any_file_step u_user_id pid jobs)\<^sup>*\<^sup>* (all_start us) s'"
    "rec_file s' = us[i := set_details fname lname a ad em ph (us ! i)]"
    "phase_of s' t1 = Finished True" "phase_of s' t2 = Finished True"
    using recheck_overwrites [where pid = pid and jobs = jobs and key = u_user_id,
        OF assms(1) f1 m(1) assms(4) f2 m(2)] by blast
  ultimately show ?thesis using i(1) by (intro exI [of _ s'] conjI) simp_all
qed

theorem details_overwrite_password_witness:
  "\<exists>s'. (any_file_step u_user_id id
      ((\<lambda>_. job_of 1001 (change_pass_modifier demo_env ''new'') demo_st)
        (1 := recheck_of 1001 (modify_customer_modifier ''Ann'' ''Ray'' 41 ''Hill_4'' ''a@b.in'' ''5550009999'') demo_st)))\<^sup>*\<^sup>*
      (all_start (users demo_store)) s' \<and>
    phase_of s' 1 = Finished True \<and> phase_of s' 2 = Finished True \<and>
    cstr (password_hash (rec_file s' ! 0)) = ''$6$IIITB$pw''"
proof -
  let ?jobs = "(\<lambda>_ :: nat. job_of 1001 (change_pass_modifier demo_env ''new'') demo_st)
    (1 := recheck_of 1001 (modify_customer_modifier ''Ann'' ''Ray'' 41 ''Hill_4'' ''a@b.in'' ''5550009999'') demo_st)"
  have u: "users demo_store ! 0 = demo_user 1001 ROLE_CUSTOMER ''ann''" by (simp add: demo_store_def)
  have j: "id (1::nat) \<noteq> id 2"
    "?jobs 1 = recheck_of 1001 (modify_customer_modifier ''Ann'' ''Ray'' 41 ''Hill_4'' ''a@b.in'' ''5550009999'') demo_st"
    "?jobs 2 = job_of 1001 (change_pass_modifier demo_env ''new'') demo_st" by simp_all
  have o: "scan_offset (\<lambda>u. u_user_id u = 1001) (users demo_store) = Some 0"
    by (simp add: demo_store_def scan_offset_def)
  have r: "u_role (users demo_store ! 0) = ROLE_CUSTOMER" by (simp add: u)
  have q: "uniqueness_scan (cstr (username (users demo_store ! 0))) ''a@b.in'' ''5550009999'' 1001
      (users demo_store) = None" by code_simp
  have h: "cstr (password_hash (users demo_store ! 0)) = ''$6$IIITB$pw''" by code_simp
  from details_overwrite_password [OF j o r q] obtain s' where
    s': "(any_file_step u_user_id id ?jobs)\<^sup>*\<^sup>* (all_start (users demo_store)) s'"
    "phase_of s' 1 = Finished True" "phase_of s' 2 = Finished True"
    "password_hash (rec_file s' ! 0) = password_hash (users demo_store ! 0)" by blast
  show ?thesis by (intro exI [of _ s'] conjI s'(1-3)) (simp only: s'(4) h)
qed

text \<open>
  C26: The numbering of the audit log survives any interleaving of appends by different
  processes, with any failing opens and writes: the entries stay numbered from 1, and every append that
  was stored adds exactly one.
\<close>

theorem log_numbers_survive:
  assumes "(any_file_step txn_id pid (log_entry tx))\<^sup>*\<^sup>* (all_start xs) s" "inj pid" "numbered txn_id 1 xs"
  shows "numbered txn_id 1 (rec_file s) \<and>
    length (rec_file s) = length xs + card {t. stored (phase_of s t)}"
proof -
  have "well_locked txn_id (log_entry tx)" by (simp add: well_locked_def log_entry_def)
  from run_serial [OF assms(1,2) this] obtain ts where
    ts: "distinct ts" "set ts = {t. stored (phase_of s t)}" "rec_file s = in_order txn_id (log_entry tx) ts xs"
    by (auto simp: serial_inv_def)
  from ts(1,2) have "card {t. stored (phase_of s t)} = length ts" by (metis distinct_card)
  with logged_in_order [OF assms(3), of tx ts] ts(3) show ?thesis by simp
qed

theorem log_numbers_survive_witness:
  "\<exists>s :: txn_rec shared. length (rec_file s) = Suc 0 \<and> numbered txn_id 1 (rec_file s) \<and>
     rec_file s = [(mk_txn 0 1001 (dbl 5) 0 ''deposit'')\<lparr>txn_id := 1\<rparr>]"
proof -
  let ?tx = "\<lambda>_ :: nat. mk_txn 0 1001 (dbl 5) 0 ''deposit''"
  let ?r = "(mk_txn 0 1001 (dbl 5) 0 ''deposit'')\<lparr>txn_id := 1\<rparr>"
  let ?ph = "\<lambda>x. (\<lambda>_. Start)(1 := x)" and ?R = "any_file_step txn_id id (log_entry ?tx)"
  note st2 = append_points [where pid = id and jobs = "log_entry ?tx" and key = txn_id and t = 1]
  have "?R\<^sup>*\<^sup>* (all_start []) (at_point [] [(1, Whole)] (?ph Inside))"
    using st2(1) [of "\<lambda>_. Start", OF _ log_entry_def, of "[]" "[]"] by (simp add: all_start_def at_point_def)
  also have "?R\<^sup>*\<^sup>* (at_point [] [(1, Whole)] (?ph Inside)) (at_point [] [(1, Whole)] (?ph (Appending ?r)))"
    using st2(2) [of "?ph Inside", OF _ log_entry_def, of "[]" "[(1, Whole)]"] by simp
  also have "?R\<^sup>*\<^sup>* (at_point [] [(1, Whole)] (?ph (Appending ?r))) (at_point [?r] [(1, Whole)] (?ph (Closing True)))"
    using st2(3) [of "?ph (Appending ?r)" ?r "[]"] by simp
  finally have run: "?R\<^sup>*\<^sup>* (all_start []) (at_point [?r] [(1, Whole)] (?ph (Closing True)))" .
  have "numbered txn_id 1 ([] :: txn_rec list)" by (simp add: numbered_def)
  from log_numbers_survive [OF run inj_on_id this] show ?thesis
    by (intro exI [of _ "at_point [?r] [(1, Whole)] (?ph (Closing True))"]) simp
qed

text \<open>
  C25: The threads of the server can give two entries of the audit log the same number: both
  count the entries before either appends its own. No entry is lost.
\<close>

theorem threads_share_numbers:
  assumes "pid t1 = pid t2" "t1 \<noteq> t2"
  shows "\<exists>s x y. (any_file_step txn_id pid (log_entry tx))\<^sup>*\<^sup>* (all_start xs) s \<and>
    phase_of s t1 = Finished True \<and> phase_of s t2 = Finished True \<and>
    rec_file s = xs @ [x, y] \<and> txn_id x = txn_id y \<and>
    x = (tx t1)\<lparr>txn_id := of_nat (length xs + 1)\<rparr> \<and> y = (tx t2)\<lparr>txn_id := of_nat (length xs + 1)\<rparr>"
  using same_number [where jobs = "log_entry tx" and key = txn_id and rs = xs, OF assms log_entry_def log_entry_def]
  by fastforce

theorem threads_share_numbers_witness:
  "\<exists>s. (any_file_step txn_id (\<lambda>_. 7) (log_entry (\<lambda>t. mk_txn 0 1001 (dbl (int t)) 0 ''deposit'')))\<^sup>*\<^sup>*
      (all_start []) s \<and> map txn_id (rec_file s) = [1, 1]"
  using threads_share_numbers [of "\<lambda>_. 7" 1 2 "\<lambda>t. mk_txn 0 1001 (dbl (int t)) 0 ''deposit''" "[]"]
  by fastforce

text \<open>
  C29: Two registrations at the same time can collide, of customers, of staff or of one each:
  although user names and contacts passed the check, both requests are answered with success and
  the same identifier, the second record replaces the first one, and the first user cannot log
  in with any password.
\<close>

theorem registrations_collide:
  assumes "io_ok e" "a \<noteq> b" "users_db (disk s) = Some us" "accounts_db (disk s) = Some as"
    "fresh_uid (tables_of (disk s))" "admissible (jobs a) s" "admissible (jobs b) s"
    "reg_record e (jobs a) (next_uid us) (tick s) = Some ua"
    "reg_record e (jobs b) (next_uid us) (tick s) = Some ub"
    "reg_username (jobs a) \<noteq> reg_username (jobs b)" "cstr (username ub) = reg_username (jobs b)"
  shows "\<exists>sched d. run_schedule e jobs sched (open_desk s) = d \<and> u_user_id ua = u_user_id ub \<and>
    at_phase d a = Answered True (added_text (jobs a) ua) \<and>
    at_phase d b = Answered True (added_text (jobs b) ub) \<and>
    users_db (disk (world d)) = Some (us @ [ub]) \<and>
    (\<forall>p. login_user e (reg_username (jobs a)) p (world d) = Login_failed)"
proof -
  let ?d = "run_schedule e jobs [a, b, a, b, a, b, a, b] (open_desk s)"
  obtain w where d: "?d = \<lparr>world = w, at_phase = (\<lambda>_. Entering)(a := Answered True (added_text (jobs a) ua),
       b := Answered True (added_text (jobs b) ub))\<rparr>" and w: "users_db (disk w) = Some (us @ [ub])"
    using lock_step_registration [OF assms(1-9)] by blast
  have "\<forall>v\<in>set (us @ [ub]). cstr (username v) \<noteq> reg_username (jobs a)"
    using admissible_new_name [OF assms(6)] assms(3,5,10,11) by (simp add: fresh_uid_def)
  then have "login_user e (reg_username (jobs a)) p w = Login_failed" for p
    by (rule unknown_user_fails [OF w])
  moreover have "u_user_id ua = u_user_id ub" using reg_record_id assms(8,9) by metis
  ultimately show ?thesis
    using assms(2) w by (intro exI [of _ "[a, b, a, b, a, b, a, b]"] exI [of _ ?d])
      (simp add: d del: run_schedule.simps)
qed

text \<open>A customer and an employee.\<close>

definition joining :: "nat \<Rightarrow> registration" where
  "joining t = (if t = 1 then
     New_customer \<lparr>j_user = demo_user 0 ROLE_CUSTOMER ''joe'', j_account = zero_account,
       j_username = ''joe'', j_password = ''pw''\<rparr>
   else
     New_staff \<lparr>s_first_name = ''Sue'', s_last_name = ''Lee'', s_age = 30, s_address = ''Hill_4'',
       s_role = ''employee'', s_email = ''s@b.in'', s_phone = ''5550009999'', s_username = ''sue'',
       s_password = ''pw''\<rparr>)"

lemma joining_admissible: "admissible (joining 1) demo_st" "admissible (joining 2) demo_st"
proof -
  have "admissible (joining 1) demo_st \<and> admissible (joining 2) demo_st"
    by (simp add: admissible_def check_uniqueness_def demo_users_db)
      (simp add: joining_def demo_user_def cstr_init_array size_defs)
  then show "admissible (joining 1) demo_st" "admissible (joining 2) demo_st" by simp_all
qed

theorem registrations_collide_witness:
  "\<exists>sched d. run_schedule demo_env joining sched (open_desk demo_st) = d \<and>
    (\<exists>m1 m2. at_phase d 1 = Answered True m1 \<and> at_phase d 2 = Answered True m2) \<and>
    login_user demo_env ''joe'' ''pw'' (world d) = Login_failed"
proof -
  have f: "fresh_uid (tables_of (disk demo_st))"
    by (simp add: fresh_uid_def next_uid_def demo_user_def)
  have j: "reg_username (joining 1) = ''joe''" "reg_username (joining 2) = ''sue''"
    by (simp_all add: joining_def)
  obtain us as where db: "users_db (disk demo_st) = Some us" "accounts_db (disk demo_st) = Some as"
    by (simp add: demo_store_def)
  obtain ua where a: "reg_record demo_env (joining 1) (next_uid us) (tick demo_st) = Some ua"
    by (simp add: joining_def)
  obtain ub where b: "reg_record demo_env (joining 2) (next_uid us) (tick demo_st) = Some ub"
    by (simp add: joining_def staff_role_def)
  have n: "cstr (username ub) = ''sue''"
  proof -
    have "cstr (strncpy (username zero_user) ''sue'' (MAX_USERNAME_LEN - 1)) = ''sue''" by code_simp
    with b show ?thesis by (auto simp: joining_def staff_role_def staff_record_def)
  qed
  have "(1::nat) \<noteq> 2" "reg_username (joining 1) \<noteq> reg_username (joining 2)"
    "cstr (username ub) = reg_username (joining 2)" unfolding j n by simp_all
  from registrations_collide [where jobs = joining, OF demo_env_ok(1) this(1) db f joining_admissible a b this(2,3)]
  show ?thesis unfolding j by blast
qed

end
