(* ===== verification/Lifecycle.thy ===== *)
theory Lifecycle
  imports Service ClientMain
begin

text \<open>
  From the command line to the first request: \<open>main\<close>, \<open>server_init\<close>, \<open>server_start\<close>,
  \<open>server_stop\<close> and the signal handler of \<^verbatim>\<open>src/server.c\<close>, and the set-up of the socket in
  \<open>main\<close> of \<^verbatim>\<open>src/client.c\<close>. What the system calls answer is a record of the environment.
\<close>

definition DEFAULT_PORT :: "32 word" where "DEFAULT_PORT = 9090"

section \<open>Setting the server up\<close>

record host =
  dir_there :: bool
  mkdir_ok :: bool
  socket_ok :: bool
  sockopt_ok :: bool
  port_free :: "16 word \<Rightarrow> bool"
  listen_ok :: bool

definition ensure_db_dir_exists :: "host \<Rightarrow> int" where
  "ensure_db_dir_exists h = (if \<not> dir_there h \<and> \<not> mkdir_ok h then - 1 else 0)"

text \<open>\<open>server_ctx_t\<close>, without the thread handle nobody uses; \<open>mutex_ready\<close> is what
  \<open>pthread_mutex_init\<close> and \<open>pthread_mutex_destroy\<close> make of \<open>db_lock\<close>.\<close>

record server_ctx =
  listen_open :: bool
  ctx_port :: "32 word"
  mutex_ready :: bool
  running :: bool

definition zero_ctx :: server_ctx where
  \<comment> \<open>the global before \<open>main\<close>\<close>
  "zero_ctx = \<lparr>listen_open = False, ctx_port = 0, mutex_ready = False, running = False\<rparr>"

definition server_init_ctx :: "host \<Rightarrow> 32 word \<Rightarrow> server_ctx \<Rightarrow> int \<times> server_ctx" where
  \<comment> \<open>\<open>server_init\<close>; the session table it clears belongs to the bank\<close>
  "server_init_ctx h port ctx =
     (if ensure_db_dir_exists h \<noteq> 0 then (- 1, ctx)
      else if \<not> socket_ok h then (- 1, ctx\<lparr>ctx_port := port, listen_open := False\<rparr>)
      else (0, ctx\<lparr>ctx_port := port, listen_open := True, running := True, mutex_ready := True\<rparr>))"

definition htons_port :: "32 word \<Rightarrow> 16 word" where
  \<comment> \<open>\<open>sin_port = htons(ctx->port)\<close>: the port keeps its low 16 bits\<close>
  "htons_port port = ucast port"

definition start_listening :: "host \<Rightarrow> server_ctx \<Rightarrow> int" where
  \<comment> \<open>\<open>server_start\<close> up to its loop\<close>
  "start_listening h ctx =
     (if \<not> sockopt_ok h then - 1
      else if \<not> port_free h (htons_port (ctx_port ctx)) then - 1
      else if \<not> listen_ok h then - 1
      else 0)"

definition server_stop :: "server_ctx \<Rightarrow> server_ctx" where
  "server_stop ctx = ctx\<lparr>running := False, listen_open := False, mutex_ready := False\<rparr>"

definition port_argument :: "string list \<Rightarrow> 32 word" where
  \<comment> \<open>the arguments without the program's name\<close>
  "port_argument args = (case args of [] \<Rightarrow> DEFAULT_PORT | p # _ \<Rightarrow> atoi p)"

datatype launch = Exited int | Accepting_on "16 word" server_ctx

definition server_main :: "host \<Rightarrow> string list \<Rightarrow> launch" where
  \<comment> \<open>\<open>main\<close> up to the accept loop: it exits with a status, or it serves; the result of
     \<open>server_start\<close> is not looked at\<close>
  "server_main h args =
     (case server_init_ctx h (port_argument args) zero_ctx of
        (rc, ctx) \<Rightarrow>
          if rc \<noteq> 0 then Exited 1
          else if start_listening h ctx \<noteq> 0 then Exited 0
          else Accepting_on (htons_port (ctx_port ctx)) ctx)"

section \<open>The accept loop and the threads\<close>

datatype loop_phase = Testing | Accepting | Accepted nat | Returned

record process =
  ctx :: server_ctx
  accept_loop :: loop_phase
  bank_of :: bank

text \<open>
  One event of the server's process: a step of the loop in \<open>server_start\<close>, a request or the end
  of a client's thread, or \<open>SIGINT\<close>. \<open>accept\<close> may always fail, and does when the socket is
  closed; while it waits for a connection the loop has no step of its own, and the other threads
  go on. The signal is assumed to be handled by the main thread, where it ends a waiting \<open>accept\<close>;
  handled by a client's thread, which the code does not prevent, it would leave the main thread
  waiting. A thread that needs the mutex after it
  was destroyed has no step here: what it does is undefined.
\<close>

definition needs_mutex :: "env \<Rightarrow> string \<Rightarrow> string \<Rightarrow> srv \<Rightarrow> bool" where
  \<comment> \<open>the requests that enter a critical section: \<open>LOGOUT\<close>, and \<open>LOGIN\<close> with the right password\<close>
  "needs_mutex e op payload v =
     (if op = ''LOGIN'' then
        (case sscanf [Cs MAX_USERNAME_LEN, Cs MAX_PASSWORD_LEN] payload of
           Inl f \<Rightarrow> False
         | Inr as \<Rightarrow>
             (case login_user e (arg_s e as 0 ''username'') (arg_s e as 1 ''password'') (start_st v) of
                Login_ok k role nm \<Rightarrow> True
              | _ \<Rightarrow> False))
      else op = ''LOGOUT'')"

inductive loop_step :: "process \<Rightarrow> process \<Rightarrow> bool" where
  finish: "accept_loop p = Testing \<Longrightarrow> \<not> running (ctx p) \<Longrightarrow> loop_step p (p\<lparr>accept_loop := Returned\<rparr>)"
| malloc_fails: "accept_loop p = Testing \<Longrightarrow> running (ctx p) \<Longrightarrow> loop_step p p"
| malloc: "accept_loop p = Testing \<Longrightarrow> running (ctx p) \<Longrightarrow> loop_step p (p\<lparr>accept_loop := Accepting\<rparr>)"
| accept_fails: "accept_loop p = Accepting \<Longrightarrow> loop_step p (p\<lparr>accept_loop := Testing\<rparr>)"
| accepts: "accept_loop p = Accepting \<Longrightarrow> listen_open (ctx p) \<Longrightarrow> conns (bank_of p) fd = None \<Longrightarrow>
     loop_step p (p\<lparr>accept_loop := Accepted fd\<rparr>)"
| spawns: "accept_loop p = Accepted fd \<Longrightarrow> conns (bank_of p) fd = None \<Longrightarrow>
     loop_step p (p\<lparr>accept_loop := Testing,
       bank_of := (bank_of p)\<lparr>conns := (conns (bank_of p))(fd \<mapsto> 0)\<rparr>\<rparr>)"
| spawn_fails: "accept_loop p = Accepted fd \<Longrightarrow> loop_step p (p\<lparr>accept_loop := Testing\<rparr>)"

inductive process_step :: "env \<Rightarrow> process \<Rightarrow> process \<Rightarrow> bool" for e :: env where
  main_thread: "loop_step p p' \<Longrightarrow> process_step e p p'"
| client_request: "accept_loop p \<noteq> Returned \<Longrightarrow> conns (bank_of p) fd = Some cur \<Longrightarrow>
     (needs_mutex e (cstr (req_op (req :: request_t))) (cstr (req_payload req)) (server (bank_of p)) \<longrightarrow>
       mutex_ready (ctx p)) \<Longrightarrow>
     handle_request e (cstr (req_op req)) (cstr (req_payload req)) cur (server (bank_of p))
       = Inr (resp, cur', v') \<Longrightarrow>
     process_step e p
       (p\<lparr>bank_of := (bank_of p)\<lparr>server := v', conns := (conns (bank_of p))(fd \<mapsto> cur')\<rparr>\<rparr>)"
| client_exit: "accept_loop p \<noteq> Returned \<Longrightarrow> conns (bank_of p) fd = Some cur \<Longrightarrow>
     (cur \<noteq> 0 \<longrightarrow> mutex_ready (ctx p)) \<Longrightarrow>
     process_step e p
       (p\<lparr>bank_of := (bank_of p)\<lparr>server := close_client cur (server (bank_of p)),
                               conns := (conns (bank_of p))(fd := None)\<rparr>\<rparr>)"
| sigint: "accept_loop p \<noteq> Returned \<Longrightarrow> process_step e p (p\<lparr>ctx := server_stop (ctx p)\<rparr>)"

definition process_of :: "server_ctx \<Rightarrow> store \<Rightarrow> process" where
  \<comment> \<open>the process when the loop starts\<close>
  "process_of c d = \<lparr>ctx = c, accept_loop = Testing, bank_of = server_init d\<rparr>"

definition any_event :: "process \<Rightarrow> process \<Rightarrow> bool" where
  "any_event p p' \<longleftrightarrow> (\<exists>e. process_step e p p')"

inductive_cases loop_stepE: "loop_step p p'"
inductive_cases process_stepE: "process_step e p p'"

section \<open>The process refines the bank\<close>

lemma loop_step_bank:
  "loop_step p p' \<Longrightarrow> bank_of p' = bank_of p \<or> server_step e (bank_of p) (bank_of p')"
  by (erule loop_stepE) (auto intro: server_step.accept)

lemma process_step_bank:
  "process_step e p p' \<Longrightarrow> bank_of p' = bank_of p \<or> server_step e (bank_of p) (bank_of p')"
  by (erule process_stepE) (auto dest: loop_step_bank intro: server_step.request server_step.disconnect)

lemma events_bank: "any_event\<^sup>*\<^sup>* p p' \<Longrightarrow> any_step\<^sup>*\<^sup>* (bank_of p) (bank_of p')"
proof (induction rule: rtranclp_induct)
  case (step q r)
  then show ?case
    using process_step_bank by (auto simp: any_event_def any_step_def) (metis any_step_def rtranclp.rtrancl_into_rtrancl)
qed simp

section \<open>Stopping\<close>

definition stopped :: "process \<Rightarrow> bool" where
  "stopped p \<longleftrightarrow> \<not> running (ctx p) \<and> \<not> listen_open (ctx p)"

fun turns_left :: "loop_phase \<Rightarrow> nat" where
  "turns_left Returned = 0"
| "turns_left Testing = 1"
| "turns_left Accepting = 2"
| "turns_left (Accepted fd) = 2"

lemma loop_step_stopped:
  "loop_step p p' \<Longrightarrow> stopped p \<Longrightarrow> stopped p' \<and> turns_left (accept_loop p') < turns_left (accept_loop p)"
  by (erule loop_stepE) (auto simp: stopped_def)

lemma loop_not_stuck: "accept_loop p \<noteq> Returned \<Longrightarrow> \<exists>p'. loop_step p p'"
  by (cases "accept_loop p"; cases "running (ctx p)") (blast intro: loop_step.intros)+

lemma turns_left_le: "turns_left l \<le> 2"
  by (cases l) simp_all

lemma loop_steps_stopped:
  "(loop_step ^^ n) p p' \<Longrightarrow> stopped p \<Longrightarrow> stopped p' \<and> n + turns_left (accept_loop p') \<le> turns_left (accept_loop p)"
proof (induction n arbitrary: p')
  case (Suc n)
  then obtain q where q: "(loop_step ^^ n) p q" "loop_step q p'" by auto
  with Suc loop_step_stopped [OF q(2)] show ?case by fastforce
qed simp

definition late :: "process \<Rightarrow> nat set" where
  \<comment> \<open>the connections that are served, or accepted and about to be\<close>
  "late p = dom (conns (bank_of p)) \<union> {fd. accept_loop p = Accepted fd}"

lemma event_stopped:
  assumes "process_step e p p'" "stopped p"
  shows "stopped p' \<and> late p' \<subseteq> late p"
  using assms(1)
proof (cases rule: process_step.cases)
  case main_thread
  then show ?thesis using assms(2) by (auto simp: stopped_def late_def elim!: loop_stepE)
qed (use assms(2) in \<open>auto simp: stopped_def server_stop_def late_def split: if_splits\<close>)

lemma events_stopped: "any_event\<^sup>*\<^sup>* p q \<Longrightarrow> stopped p \<Longrightarrow> stopped q \<and> late q \<subseteq> late p"
proof (induction rule: rtranclp_induct)
  case (step q r)
  then obtain e where "process_step e q r" by (auto simp: any_event_def)
  with event_stopped [OF this] step show ?case by blast
qed simp

section \<open>Setting the client up\<close>

record client_host =
  c_socket_ok :: bool
  c_address :: "string \<Rightarrow> bool"
  c_connects :: "string \<Rightarrow> 16 word \<Rightarrow> bool"

definition usage :: "string \<Rightarrow> 'w tty \<Rightarrow> 'w tty" where
  "usage prog t = printf (line (''Usage: '' @ prog @ '' <server-ip>'')) t"

definition greeting :: "string \<Rightarrow> string" where
  "greeting ip = line (LF # CHR 0x09 # ''***** WELCOME TO THE BANK! *****'') @
     line (''Connected to server at '' @ ip)"

definition client_program ::
  "client_host \<Rightarrow> env \<Rightarrow> 'w net \<Rightarrow> string list \<Rightarrow> 'w tty \<Rightarrow> ((fault + int) \<times> 'w tty) option" where
  \<comment> \<open>\<open>main\<close> with \<open>argv[0]\<close> first; the result is the exit status\<close>
  "client_program h e net argv t =
     (case argv of
        [prog, ip] \<Rightarrow>
          if \<not> c_socket_ok h then Some (Inr 1, t)
          else if \<not> c_address h ip then Some (Inr 1, t)
          else if \<not> c_connects h ip (htons_port DEFAULT_PORT) then Some (Inr 1, t)
          else do {
            (r, t1) \<leftarrow> client_main e net (printf (greeting ip) t);
            Some (map_sum id (\<lambda>_. 0) r, t1) }
      | prog # args \<Rightarrow> Some (Inr 1, usage prog t)
      | [] \<Rightarrow> Some (Inr 1, usage ''(null)'' t))"

end
