(* ===== verification/Daemon.thy ===== *)
theory Daemon
  imports Lifecycle Requests
begin

text \<open>
  Properties of the server as a process: what \<open>main\<close> starts is the bank of \<open>Service\<close>, and the
  accept loop ends after \<open>SIGINT\<close>.
\<close>

text \<open>
  C21: What \<open>main\<close> runs is the modelled bank: if it gets as far as its accept loop, on the port
  of the command line cut to 16 bits, then after any interleaving of the loop, the client
  threads and \<open>SIGINT\<close>, with any failing allocation, \<open>accept\<close> or thread creation, connections
  and database are those of a run of the server from its initial state, and logins are
  exclusive.
\<close>

theorem process_runs_the_bank:
  assumes "server_main h args = Accepting_on port c" "any_event\<^sup>*\<^sup>* (process_of c d) p"
  shows "port = ucast (port_argument args) \<and> running c \<and> mutex_ready c \<and>
    any_step\<^sup>*\<^sup>* (server_init d) (bank_of p) \<and> sessions_inv (bank_of p)"
proof -
  have "port = ucast (port_argument args)" "running c" "mutex_ready c"
    using assms(1)
    by (auto simp: server_main_def server_init_ctx_def htons_port_def split: if_splits prod.splits)
  moreover have "any_step\<^sup>*\<^sup>* (server_init d) (bank_of p)"
    using events_bank [OF assms(2)] by (simp add: process_of_def)
  ultimately show ?thesis using run_sessions sessions_init by blast
qed

definition good_host :: host where
  "good_host = \<lparr>dir_there = True, mkdir_ok = False, socket_ok = True, sockopt_ok = True,
     port_free = (\<lambda>_. True), listen_ok = True\<rparr>"

definition started :: server_ctx where
  "started = \<lparr>listen_open = True, ctx_port = 70080, mutex_ready = True, running = True\<rparr>"

lemma typed_port: "atoi ''70080'' = 70080"
  by (simp add: atoi_def scan_eval)

lemma started_main: "server_main good_host [''70080''] = Accepting_on 4544 started"
  by (simp add: typed_port server_main_def server_init_ctx_def good_host_def zero_ctx_def started_def
      start_listening_def port_argument_def ensure_db_dir_exists_def htons_port_def)

definition connected :: "store \<Rightarrow> process" where
  "connected d = \<lparr>ctx = started, accept_loop = Testing,
     bank_of = (server_init d)\<lparr>conns := [3 \<mapsto> 0]\<rparr>\<rparr>"

lemma connected_run: "any_event\<^sup>*\<^sup>* (process_of started d) (connected d)"
proof -
  let ?p = "\<lambda>l. (process_of started d)\<lparr>accept_loop := l\<rparr>"
  have c: "conns (server_init d) = Map.empty" by (simp add: server_init_def)
  have "loop_step (process_of started d) (?p Accepting)"
    by (rule loop_step.malloc) (simp_all add: process_of_def started_def)
  moreover have "loop_step (?p Accepting) ((?p Accepting)\<lparr>accept_loop := Accepted 3\<rparr>)"
    by (rule loop_step.accepts) (simp_all add: process_of_def started_def c)
  then have "loop_step (?p Accepting) (?p (Accepted 3))" by simp
  moreover have "loop_step (?p (Accepted 3)) (connected d)"
    using loop_step.spawns [of "?p (Accepted 3)" 3] by (simp add: process_of_def connected_def c)
  ultimately have "loop_step\<^sup>*\<^sup>* (process_of started d) (connected d)"
    by (meson converse_rtranclp_into_rtranclp rtranclp.rtrancl_refl)
  then show ?thesis
    by (rule rtranclp_mono [THEN predicate2D, rotated]) (auto simp: any_event_def intro!: exI process_step.main_thread)
qed

theorem process_runs_the_bank_witness:
  "any_step\<^sup>*\<^sup>* (server_init installed) ((server_init installed)\<lparr>conns := [3 \<mapsto> 0]\<rparr>) \<and>
   (4544 :: 16 word) = ucast (70080 :: 32 word)"
proof -
  have "port_argument [''70080''] = 70080" by (simp add: port_argument_def typed_port)
  with process_runs_the_bank [OF started_main connected_run, of installed] show ?thesis
    by (simp add: connected_def)
qed

text \<open>
  C34: After \<open>SIGINT\<close> the server winds up: the loop of \<open>server_start\<close> is never stuck, returns
  within two of its steps whatever the client threads do in between, and no connection is
  served that had not been accepted before the signal.
\<close>

theorem sigint_ends_the_loop:
  assumes "any_event\<^sup>*\<^sup>* (p\<lparr>ctx := server_stop (ctx p)\<rparr>) q"
  shows "(\<forall>n r. (loop_step ^^ n) q r \<longrightarrow> n \<le> 2) \<and>
    (accept_loop q = Returned \<or> (\<exists>r. loop_step q r)) \<and>
    dom (conns (bank_of q)) \<subseteq> dom (conns (bank_of p)) \<union> {fd. accept_loop p = Accepted fd}"
proof -
  have q: "stopped q \<and> late q \<subseteq> late p"
    using events_stopped [OF assms] by (simp add: stopped_def server_stop_def late_def)
  have "n \<le> 2" if "(loop_step ^^ n) q r" for n r
    using loop_steps_stopped [OF that] q turns_left_le [of "accept_loop q"] by simp
  moreover have "dom (conns (bank_of q)) \<subseteq> dom (conns (bank_of p)) \<union> {fd. accept_loop p = Accepted fd}"
    using q by (auto simp: late_def)
  ultimately show ?thesis using loop_not_stuck by blast
qed

theorem sigint_ends_the_loop_witness:
  "\<exists>r. loop_step ((connected installed)\<lparr>ctx := server_stop started\<rparr>) r \<and>
     (\<forall>n r. (loop_step ^^ n) ((connected installed)\<lparr>ctx := server_stop started\<rparr>) r \<longrightarrow> n \<le> 2)"
proof -
  have c: "ctx (connected installed) = started" by (simp add: connected_def)
  from sigint_ends_the_loop [of "connected installed", OF rtranclp.rtrancl_refl]
  show ?thesis by (simp add: c connected_def)
qed

end
