(* ===== verification/Inspector.thy ===== *)
theory Inspector
  imports Client
begin

text \<open>
  \<^verbatim>\<open>src/db_inspector.c\<close>: the program that prints the five files. The output is a string;
  \<open>ctime\<close> is an argument, and what \<open>perror\<close> writes to the error stream is not part of it.
\<close>

definition print_timestamp :: "(int \<Rightarrow> string) \<Rightarrow> int \<Rightarrow> string \<Rightarrow> string" where
  "print_timestamp ctime t label =
     (if t = 0 then label @ line '': (not set)''
      else label @ '': '' @ line (takeWhile (\<lambda>c. c \<noteq> LF) (take 63 (ctime t))))"

fun get_role_str :: "role_t \<Rightarrow> string" where
  "get_role_str ROLE_CUSTOMER = ''CUSTOMER''"
| "get_role_str ROLE_EMPLOYEE = ''EMPLOYEE''"
| "get_role_str ROLE_MANAGER = ''MANAGER''"
| "get_role_str ROLE_ADMIN = ''ADMIN''"

fun get_loan_status_str :: "loan_status_t \<Rightarrow> string" where
  "get_loan_status_str LOAN_PENDING = ''PENDING''"
| "get_loan_status_str LOAN_ASSIGNED = ''ASSIGNED''"
| "get_loan_status_str LOAN_APPROVED = ''APPROVED''"
| "get_loan_status_str LOAN_REJECTED = ''REJECTED''"

fun role_number :: "role_t \<Rightarrow> nat" where
  "role_number ROLE_CUSTOMER = 0"
| "role_number ROLE_EMPLOYEE = 1"
| "role_number ROLE_MANAGER = 2"
| "role_number ROLE_ADMIN = 3"

fun loan_status_number :: "loan_status_t \<Rightarrow> nat" where
  "loan_status_number LOAN_PENDING = 0"
| "loan_status_number LOAN_ASSIGNED = 1"
| "loan_status_number LOAN_APPROVED = 2"
| "loan_status_number LOAN_REJECTED = 3"

definition banner :: "string \<Rightarrow> string \<Rightarrow> string" where
  "banner what path =
     line ([LF] @ ''=========================================='') @
     line (''  DUMPING '' @ what @ '' (from '' @ path @ '')'') @
     line ''==========================================''"

text \<open>The loop \<open>while (read(fd, &r, sizeof r) == sizeof r)\<close> with its counter.\<close>

fun dump_loop :: "string \<Rightarrow> ('r \<Rightarrow> string) \<Rightarrow> 'r list \<Rightarrow> nat \<Rightarrow> string" where
  "dump_loop kind body [] n = []"
| "dump_loop kind body (r # rs) n =
     line ([LF] @ ''--- '' @ kind @ '' Record '' @ digits_of n @ '' ---'') @ body r @
     dump_loop kind body rs (Suc n)"

definition dump_file :: "string \<Rightarrow> string \<Rightarrow> string \<Rightarrow> ('r \<Rightarrow> string) \<Rightarrow> 'r list option \<Rightarrow> string" where
  "dump_file what path kind body f =
     banner what path @ (case f of None \<Rightarrow> [] | Some rs \<Rightarrow> dump_loop kind body rs 1)"

definition user_body :: "(int \<Rightarrow> string) \<Rightarrow> user_rec \<Rightarrow> string" where
  "user_body ctime u =
     line (''  User ID:      '' @ fmt_u (u_user_id u)) @
     line (''  Username:     '' @ cstr (username u)) @
     line (''  Password Hash:'' @ cstr (password_hash u)) @
     line (''  Role:         '' @ get_role_str (u_role u) @ '' ('' @ digits_of (role_number (u_role u)) @ '')'') @
     line (''  Name:         '' @ cstr (first_name u) @ '' '' @ cstr (last_name u)) @
     line (''  Age:          '' @ fmt_u (age u)) @
     line (''  Address:      '' @ cstr (address u)) @
     line (''  Email:        '' @ cstr (email u)) @
     line (''  Phone:        '' @ cstr (phone u)) @
     line (''  User Status:  '' @ (if u_active u = STATUS_ACTIVE then ''ACTIVE'' else ''INACTIVE'')) @
     print_timestamp ctime (created_at u) ''  Created At''"

definition account_body :: "account_rec \<Rightarrow> string" where
  "account_body a =
     line (''  Account ID:   '' @ fmt_u (account_id a)) @
     line (''  User ID:      '' @ fmt_u (a_user_id a)) @
     line (''  Balance:      '' @ fmt_f 2 (balance a)) @
     line (''  Acct Status:  '' @ (if a_active a = STATUS_ACTIVE then ''ACTIVE'' else ''INACTIVE''))"

definition txn_body :: "(int \<Rightarrow> string) \<Rightarrow> txn_rec \<Rightarrow> string" where
  "txn_body ctime x =
     line (''  Txn ID:       '' @ fmt_u (txn_id x)) @
     line (''  From Acct:    '' @ fmt_u (from_account x)) @
     line (''  To Acct:      '' @ fmt_u (to_account x)) @
     line (''  Amount:       '' @ fmt_f 2 (t_amount x)) @
     line (''  Narration:    '' @ cstr (narration x)) @
     print_timestamp ctime (timestamp x) ''  Timestamp''"

definition loan_body :: "(int \<Rightarrow> string) \<Rightarrow> loan_rec \<Rightarrow> string" where
  "loan_body ctime l =
     line (''  Loan ID:      '' @ fmt_u (loan_id l)) @
     line (''  User ID:      '' @ fmt_u (l_user_id l)) @
     line (''  Amount:       '' @ fmt_f 2 (l_amount l)) @
     line (''  Status:       '' @ get_loan_status_str (l_status l) @ '' ('' @
       digits_of (loan_status_number (l_status l)) @ '')'') @
     line (''  Assigned To:  '' @ fmt_u (assigned_to l)) @
     line (''  Remarks:      '' @ cstr (remarks l)) @
     print_timestamp ctime (applied_at l) ''  Applied At'' @
     print_timestamp ctime (processed_at l) ''  Processed At''"

definition feedback_body :: "(int \<Rightarrow> string) \<Rightarrow> feedback_rec \<Rightarrow> string" where
  "feedback_body ctime f =
     line (''  Feedback ID:  '' @ fmt_u (fb_id f)) @
     line (''  User ID:      '' @ fmt_u (f_user_id f)) @
     line (''  Reviewed:     '' @ (if reviewed f \<noteq> 0 then ''YES'' else ''NO'')) @
     line (''  Message:      '' @ cstr (message f)) @
     line (''  Action Taken: '' @ cstr (action_taken f)) @
     print_timestamp ctime (submitted_at f) ''  Submitted At''"

definition print_users :: "(int \<Rightarrow> string) \<Rightarrow> store \<Rightarrow> string" where
  "print_users ctime d = dump_file ''USERS'' ''./db/users.db'' ''User'' (user_body ctime) (users_db d)"

definition print_accounts :: "store \<Rightarrow> string" where
  "print_accounts d = dump_file ''ACCOUNTS'' ''./db/accounts.db'' ''Account'' account_body (accounts_db d)"

definition print_transactions :: "(int \<Rightarrow> string) \<Rightarrow> store \<Rightarrow> string" where
  "print_transactions ctime d =
     dump_file ''TRANSACTIONS'' ''./db/transactions.db'' ''Transaction'' (txn_body ctime) (txns_db d)"

definition print_loans :: "(int \<Rightarrow> string) \<Rightarrow> store \<Rightarrow> string" where
  "print_loans ctime d = dump_file ''LOANS'' ''./db/loans.db'' ''Loan'' (loan_body ctime) (loans_db d)"

definition print_feedback :: "(int \<Rightarrow> string) \<Rightarrow> store \<Rightarrow> string" where
  "print_feedback ctime d =
     dump_file ''FEEDBACK'' ''./db/feedback.db'' ''Feedback'' (feedback_body ctime) (feedback_db d)"

definition inspector_main :: "(int \<Rightarrow> string) \<Rightarrow> bool \<Rightarrow> store \<Rightarrow> int \<times> string" where
  \<comment> \<open>exit status and output; \<open>dir_exists\<close> is the outcome of \<open>access(DB_DIR, F_OK)\<close>\<close>
  "inspector_main ctime dir_exists d =
     (let start = line ''--- [Database Inspector Utility] ---''
      in if \<not> dir_exists then (1, start)
         else (0, start @ print_users ctime d @ print_accounts d @ print_transactions ctime d @
                  print_loans ctime d @ print_feedback ctime d @
                  line ([LF] @ ''--- [Inspection Complete] ---'')))"

text \<open>Every record of a file is printed once, in file order, under its position.\<close>

lemma dump_loop_eq:
  "dump_loop kind body rs n = concat (map (\<lambda>(i, r). line ([LF] @ ''--- '' @ kind @ '' Record '' @
     digits_of i @ '' ---'') @ body r) (zip [n..<n + length rs] rs))"
proof (induction rs arbitrary: n)
  case (Cons r rs)
  have "[n..<n + length (r # rs)] = n # [Suc n..<Suc n + length rs]"
    by (subst upt_rec) simp
  with Cons show ?case by simp
qed simp

lemma dump_loop_append:
  "dump_loop kind body (rs @ [r]) n = dump_loop kind body rs n @
     line ([LF] @ ''--- '' @ kind @ '' Record '' @ digits_of (n + length rs) @ '' ---'') @ body r"
  by (induction rs arbitrary: n) simp_all

lemma dump_file_append:
  "dump_file what path kind body (Some (rs @ [r])) = dump_file what path kind body (Some rs) @
     line ([LF] @ ''--- '' @ kind @ '' Record '' @ digits_of (Suc (length rs)) @ '' ---'') @ body r"
  by (simp only: dump_file_def option.case dump_loop_append append_assoc plus_1_eq_Suc)

end
