(* ===== verification/Spec2Isabelle.thy ===== *)
theory Spec2Isabelle
  imports Requests Visit Concurrency Daemon Inspector
begin

text \<open>
  A verification development for the Banking Management System, a multi-threaded TCP server
  in C that keeps its users, accounts, transactions, loans and feedback in five binary files.

  \<^bold>\<open>The program and its theories.\<close> A client connects and sends fixed-size requests (an
  operation name and a payload); \<^verbatim>\<open>client_thread_main\<close> in \<^verbatim>\<open>src/server.c\<close> parses the
  payload with \<^verbatim>\<open>sscanf\<close>, calls one function of the four modules and sends the reply. The
  modules change the files only through the routines of \<^verbatim>\<open>src/utils.c\<close>.

    \<^item> \<open>Prelude\<close>, \<open>CDouble\<close>, \<open>CString\<close>: search loops and writes at an offset; \<^verbatim>\<open>double\<close> as
      IEEE 754 binary64; character arrays, \<^verbatim>\<open>strncpy\<close>, \<^verbatim>\<open>snprintf\<close> and number formats.
    \<^item> \<open>ServerTypes\<close>: \<^verbatim>\<open>include/server.h\<close>. A file is \<open>None\<close> when it does not exist and otherwise
      the list of its records, so a file offset is an index. The state \<open>st\<close> of a request is the
      files, the number of writes made and the reply; the environment \<open>env\<close> decides which writes,
      locks and file creations fail, what \<^verbatim>\<open>crypt\<close>, \<^verbatim>\<open>time\<close> and \<^verbatim>\<open>strftime\<close> answer, and what
      uninitialised variables hold.
    \<^item> \<open>Utils\<close>: \<^verbatim>\<open>src/utils.c\<close>, each routine under its C name. \<open>Tables\<close> states what the modules
      rely on as locales (\<open>db_file\<close>: one file, \<open>keyed_service\<close>: lookup and update by
      identifier) and interprets them on the routines.
    \<^item> \<open>Listing\<close>, \<open>Customer\<close>, \<open>Employee\<close>, \<open>Manager\<close>, \<open>Admin\<close>: the four modules, each
      operation under its C name, with its replies.
    \<^item> \<open>Scanf\<close>, \<open>Server\<close>: the conversions of \<^verbatim>\<open>sscanf\<close>, the routes, the session table and the
      step relation \<open>server_step\<close> (accept, request, disconnect). A token that overflows its
      buffer is a \<open>fault\<close>.
    \<^item> \<open>Bootstrap\<close>: \<^verbatim>\<open>src/bootstrap.c\<close>.
    \<^item> \<open>ClientInput\<close>, \<open>Client\<close>, \<open>ClientMain\<close>: \<^verbatim>\<open>src/client.c\<close>. A terminal \<open>tty\<close> is the bytes
      still to be read, the text printed and the peer; prompts and menus are partial functions,
      \<open>None\<close> when they loop for ever. \<open>serve\<close> plugs the modelled server in as the peer.
    \<^item> \<open>Formats\<close>, \<open>Amounts\<close>: printing and scanning are inverse, for numbers, words and amounts.
      \<open>Prompts\<close>, \<open>Keyboard\<close>: what the prompts return and the requests they lead to.
    \<^item> \<open>Connection\<close>: \<open>client_thread_main\<close> as the loop over the bytes its \<^verbatim>\<open>read\<close> returns, with the
      request buffer that keeps its old contents. \<open>Entries\<close>, \<open>Visit\<close>: the entries of the four
      menus as data, what is typed for them, the operation each stands for, and whole visits.
    \<^item> \<open>Locks\<close>: the \<^verbatim>\<open>fcntl\<close> locks of \<^verbatim>\<open>src/utils.c\<close> and its three kinds of writers, \<open>atomic_update_*\<close>,
      \<open>append_*\<close> and \<open>write_*\<close>, with a step for every system call that reads or changes what the
      threads share, the reads of the search loops and of \<open>check_uniqueness\<close> included, for any
      number of threads on any of the files. \<open>Inspector\<close>: \<^verbatim>\<open>src/db_inspector.c\<close>.
    \<^item> \<open>Registration\<close>: \<open>add_new_customer\<close> and \<open>add_employee\<close> with one step per routine of
      \<^verbatim>\<open>src/utils.c\<close>, run by a schedule of threads.
    \<^item> \<open>Lifecycle\<close>: \<open>main\<close>, \<open>server_init\<close>, \<open>server_start\<close>, \<open>server_stop\<close> and the signal handler of
      \<^verbatim>\<open>src/server.c\<close> around the bank, and \<open>main\<close> of \<^verbatim>\<open>src/client.c\<close> up to the connection.

  \<^bold>\<open>What is shown.\<close> \<open>Money\<close> abstracts the database to holdings and a list of movements and
  proves that deposits, withdrawals and transfers refine one-step operations on it. \<open>Moves\<close>
  lists the fourteen things one request can do to the five tables; \<open>RouteMoves\<close>, \<open>UserMoves\<close>
  and \<open>Router\<close> show that every request does one of them when no creation, lock or write fails
  (\<open>io_ok\<close>), whatever the uninitialised memory holds. \<open>Invariants\<close> proves the invariant of the
  database once per move: sequential identifiers, one account per customer, an audit log that
  replays to the balances, loans paid exactly when approved (\<open>books_inv\<close>); and unique contacts, for
  requests that leave a byte to spare after the contact data they store (\<open>roomy_request\<close>). \<open>History\<close> proves what no request can undo, \<open>Safety\<close> that no
  balance falls below zero. \<open>Sessions\<close> states the contract of the session table as a locale
  and \<open>Service\<close> lifts all of it to runs of the server: \<open>quiet_step\<close> is an event without failures,
  \<open>roomy_step\<close> one whose request also leaves that room, \<open>any_step\<close> one in any environment; all of
  them serve one request at a time. \<open>Faults\<close> follows the operations
  through failing writes, \<open>Access\<close> treats login, passwords, deactivation and the decision on
  loans. \<open>Replies\<close> bounds the replies and computes what the views show. The properties of this
  theory collect the results; those of \<open>Requests\<close> are about single requests, those of
  \<open>Dialogue\<close> about the client and its conversation with the server, those of \<open>Visit\<close> and
  \<open>Connection\<close> about whole visits and connections, those of \<open>Concurrency\<close> about interleaved
  writers and registrations, those of \<open>Daemon\<close> about the process; \<open>Fixtures\<close> holds the concrete
  inputs of the witnesses.

  \<^bold>\<open>Bounds.\<close> User identifiers are \<open>1001 +\<close> the number of users in 32 bits: the properties of
  runs assume that their number stays below \<open>2 ^ 31\<close>, which a run of \<open>n\<close> steps from \<open>k\<close> users
  does when \<open>1001 + k + n < 2 ^ 31\<close>. Whole amounts of money are exact up to \<open>2 ^ 53\<close>. Typed
  amounts are followed exactly below \<open>2 ^ 33\<close>. The prompts and menus of the client are partial
  functions whose value \<open>None\<close> is a loop that never ends; every other definition is total, and
  no fuel is used.

  \<^bold>\<open>Not modelled.\<close> Requests of different threads are interleaved whole in \<open>server_step\<close>; \<open>Locks\<close>
  interleaves the system calls of one writer of one file each, and \<open>Registration\<close> the routines of
  the two registrations. An error of \<open>lock_file\<close> on a writable descriptor, which the code ignores,
  has no step. A file that exists can always be opened and read; only \<open>Locks\<close> lets an \<open>open\<close>
  fail. A write stores its whole record or nothing. \<^verbatim>\<open>strcmp\<close> on an array without a NUL reads to
  the end of the array, not beyond it. \<open>SIGINT\<close> is handled by the main thread, and an \<open>accept\<close> that
  waits has no step. What the socket calls answer is a parameter; the client gets a reply in one piece,
  and a payload without NUL, which the client never sends, is read to its end only. What the
  server prints on its terminal, what \<^verbatim>\<open>perror\<close> prints, and the use of the mutex after
  \<open>server_stop\<close> destroyed it (undefined) are left out. A request that overflows a buffer
  (\<open>fault\<close>) is not followed further; \<open>serve\<close> treats it as a lost connection. The build script,
  the compiled programs and the sample files are no code of the model.
\<close>

section \<open>Money\<close>

text \<open>
  C1: Without I/O failures \<open>transfer_funds\<close>, two separately locked updates and two log
  entries with a roll-back path, implements an atomic transfer: either sender and
  recipient both change and both movements are logged, or nothing changes at all.
\<close>

theorem transfer_is_atomic:
  assumes "io_ok e" "transfer_funds e f t x s = (ok, s')"
  shows "(ok, abs_bank s') = transfer_spec f t x (abs_bank s)"
  using assms by (rule transfer_funds_spec)

theorem transfer_is_atomic_witness:
  "\<exists>s'. transfer_funds demo_env 1001 1002 (dbl 60) demo_st = (True, s') \<and>
     (True, abs_bank s') = transfer_spec 1001 1002 (dbl 60) (abs_bank demo_st)"
proof -
  obtain ok s' where t: "transfer_funds demo_env 1001 1002 (dbl 60) demo_st = (ok, s')" by fastforce
  have "fst (transfer_spec 1001 1002 (dbl 60) (abs_bank demo_st))"
    by (simp add: transfer_spec_def outcome_def debit_def credit_def record_moves_def abs_bank_def
        view_of_def dlt_dbl dzero_dbl dle_dbl)
  with t transfer_is_atomic [OF demo_env_ok(1) t] show ?thesis by (metis fst_conv)
qed

text \<open>
  C2: When no creation, lock or write fails and the requests are served one at a time, the audit
  log accounts for every cent after every run of the server: replaying the logged movements of an account from zero gives its balance,
  bit for bit, in the order of the floating-point operations.
\<close>

theorem balances_replay_log:
  assumes "(quiet_step ^^ n) b b'" "books_inv (bank_tables b)"
    "1001 + length (t_users (bank_tables b)) + n < 2 ^ 31" "a \<in> set (accounts (srv_store (server b')))"
  shows "balance a = replay (a_user_id a) (map movement_of (txns (srv_store (server b'))))"
  using quiet_run [OF assms(1-3)] assms(4) by (simp add: books_inv_def ledger_inv_def bank_tables_def)

theorem balances_replay_log_witness:
  "dbl 250 = replay 1005 (map movement_of (txns (srv_store (server after_deposit))))"
  using balances_replay_log [OF demo_run installed_hyps, of "(new_account 1005)\<lparr>balance := dbl 250\<rparr>"]
  by (simp add: after_deposit_accounts new_account_def)

text \<open>
  C3: When no creation, lock or write fails and the requests are served one at a time, each
  approved loan has been credited exactly once after every run of the server, to its owner and
  with its amount, and no loan was credited that is not approved.
\<close>

theorem loans_paid_once:
  assumes "(quiet_step ^^ n) b b'" "books_inv (bank_tables b)"
    "1001 + length (t_users (bank_tables b)) + n < 2 ^ 31"
  shows "approved_loans (loans (srv_store (server b'))) = paid_loans (txns (srv_store (server b')))"
  using quiet_run [OF assms] by (simp add: books_inv_def paid_inv_def bank_tables_def)

theorem loans_paid_once_witness:
  "approved_loans (loans (srv_store (server after_deposit))) =
   paid_loans (txns (srv_store (server after_deposit)))"
  by (rule loans_paid_once [OF demo_run installed_hyps])

text \<open>
  C4: When no creation, lock or write fails and the requests are served one at a time, no run of
  the server makes a balance negative: starting from balances and loan
  amounts that are not negative, no account is ever below zero (a balance can only become
  a NaN).
\<close>

theorem no_overdraft:
  assumes "(quiet_step ^^ n) b b'" "books_inv (bank_tables b)"
    "1001 + length (t_users (bank_tables b)) + n < 2 ^ 31" "funds_inv (bank_tables b)"
    "a \<in> set (accounts (srv_store (server b')))"
  shows "\<not> dlt (balance a) dzero"
proof -
  have "funds_inv (bank_tables b')"
    by (rule run_moves [where P = funds_inv, OF assms(1-3) move_funds assms(4)])
  with assms(5) show ?thesis by (simp add: funds_inv_def bank_tables_def not_below_zero_def)
qed

theorem no_overdraft_witness: "\<not> dlt (dbl 250) dzero"
proof -
  have "funds_inv (bank_tables installed_server)"
    by (simp add: funds_inv_def installed_facts new_account_def not_below_zero_def)
  from no_overdraft [OF demo_run installed_hyps this, of "(new_account 1005)\<lparr>balance := dbl 250\<rparr>"]
  show ?thesis by (simp add: after_deposit_accounts)
qed

text \<open>
  Without I/O failures \<open>deposit_money\<close> implements the one-step deposit: it refuses a
  non-positive amount and a missing or inactive account without any effect, and otherwise
  adds the amount to that account alone and logs exactly one movement.
\<close>

theorem deposit_is_atomic:
  assumes "io_ok e" "deposit_money e k x s = (ok, s')"
  shows "(ok, abs_bank s') = deposit_spec k x (abs_bank s)"
  using assms by (rule deposit_money_spec)

theorem deposit_is_atomic_witness:
  "\<exists>s'. deposit_money demo_env 1002 (dbl 60) demo_st = (True, s') \<and>
     (True, abs_bank s') = deposit_spec 1002 (dbl 60) (abs_bank demo_st)"
proof -
  obtain ok s' where t: "deposit_money demo_env 1002 (dbl 60) demo_st = (ok, s')" by fastforce
  have "fst (deposit_spec 1002 (dbl 60) (abs_bank demo_st))"
    by (simp add: deposit_spec_def outcome_def credit_def abs_bank_def view_of_def dzero_dbl dle_dbl)
  with t deposit_is_atomic [OF demo_env_ok(1) t] show ?thesis by (metis fst_conv)
qed

text \<open>
  Without I/O failures \<open>withdraw_money\<close> implements the one-step withdrawal: it takes
  the amount from an active account that covers it and logs one movement, and refuses
  everything else without any effect.
\<close>

theorem withdraw_is_atomic:
  assumes "io_ok e" "withdraw_money e k x s = (ok, s')"
  shows "(ok, abs_bank s') = withdraw_spec k x (abs_bank s)"
  using assms by (rule withdraw_money_spec)

theorem withdraw_is_atomic_witness:
  "\<exists>s'. withdraw_money demo_env 1002 (dbl 60) demo_st = (False, s') \<and> abs_bank s' = abs_bank demo_st"
proof -
  obtain ok s' where t: "withdraw_money demo_env 1002 (dbl 60) demo_st = (ok, s')" by fastforce
  have "withdraw_spec 1002 (dbl 60) (abs_bank demo_st) = (False, abs_bank demo_st)"
    by (simp add: withdraw_spec_def outcome_def debit_def abs_bank_def view_of_def dzero_dbl dle_dbl
        dlt_dbl)
  with t withdraw_is_atomic [OF demo_env_ok(1) t] show ?thesis by (metis prod.inject)
qed

text \<open>
  C5: Without I/O failures \<open>deposit_money\<close> and \<open>withdraw_money\<close> implement one-step operations:
  a deposit adds the amount to an active account and logs one movement, a withdrawal takes it
  from an active account that covers it and logs one movement, and whatever is refused has no
  effect at all.
\<close>

theorem cash_is_atomic:
  assumes "io_ok e"
  shows "(deposit_money e k x s = (ok, s') \<longrightarrow> (ok, abs_bank s') = deposit_spec k x (abs_bank s)) \<and>
    (withdraw_money e k x s = (ok, s') \<longrightarrow> (ok, abs_bank s') = withdraw_spec k x (abs_bank s))"
  using deposit_is_atomic [OF assms] withdraw_is_atomic [OF assms] by blast

theorem cash_is_atomic_witness:
  "\<exists>ok s'. deposit_money demo_env 1002 (dbl 60) demo_st = (ok, s') \<and>
     (ok, abs_bank s') = deposit_spec 1002 (dbl 60) (abs_bank demo_st)"
proof -
  obtain ok s' where t: "deposit_money demo_env 1002 (dbl 60) demo_st = (ok, s')" by fastforce
  with cash_is_atomic [OF demo_env_ok(1)] show ?thesis by blast
qed

section \<open>Records along a run\<close>

text \<open>
  C7: When no creation, lock or write fails and the requests are served one at a time, after
  every run of the server the identifiers of users, transactions and loans are the sequence numbers of their records, no user identifier is used twice, and the
  accounts belong one to one to the users with the role of customer.
\<close>

theorem identifiers_along_runs:
  assumes "(quiet_step ^^ n) b b'" "books_inv (bank_tables b)"
    "1001 + length (t_users (bank_tables b)) + n < 2 ^ 31"
  defines "d \<equiv> srv_store (server b')"
  shows "map u_user_id (users d) = map (\<lambda>i. of_nat (1001 + i)) [0..<length (users d)] \<and>
    distinct (map u_user_id (users d)) \<and>
    map txn_id (txns d) = map (\<lambda>i. of_nat (1 + i)) [0..<length (txns d)] \<and>
    map loan_id (loans d) = map (\<lambda>i. of_nat (1 + i)) [0..<length (loans d)] \<and>
    distinct (map a_user_id (accounts d)) \<and>
    a_user_id ` set (accounts d) = u_user_id ` {u \<in> set (users d). u_role u = ROLE_CUSTOMER}"
proof -
  have inv: "books_inv (tables_of d)" and len: "1001 + length (users d) < 2 ^ 31"
    using quiet_run [OF assms(1-3)] assms(3) by (simp_all add: d_def bank_tables_def)
  then have n: "numbered u_user_id 1001 (users d)" "accounts_inv (tables_of d)" "ids_inv (tables_of d)"
    by (simp_all add: books_inv_def ids_inv_def)
  have "distinct (map u_user_id (users d))" using numbered_distinct [OF n(1)] len by simp
  with n show ?thesis by (simp add: ids_inv_def numbered_def accounts_inv_def)
qed

theorem identifiers_along_runs_witness:
  "distinct (map u_user_id (users (srv_store (server after_deposit))))"
  using identifiers_along_runs [OF demo_run installed_hyps] by blast

text \<open>
  C8: No two users ever share a user name, an e-mail address or a phone number, when no creation,
  lock or write fails, the requests are served one at a time, and each leaves a byte to spare
  after the contact data it stores: the user name and the e-mail of \<open>ADD_CUSTOMER\<close> and the e-mail of
  \<open>MODIFY_CUSTOMER\<close> have at most 62 characters, their phone numbers at most 14, and no \<open>MODIFY_USER\<close>
  request comes with just six values (the menu of the client sends seven, which are refused).
  What the uninitialised memory holds does not matter then.
\<close>

theorem contacts_unique:
  assumes "(roomy_step ^^ n) b b'" "books_inv (bank_tables b)" "contacts_inv (bank_tables b)"
    "1001 + length (t_users (bank_tables b)) + n < 2 ^ 31"
    "i < length (users (srv_store (server b')))" "j < length (users (srv_store (server b')))" "i \<noteq> j"
  defines "u \<equiv> users (srv_store (server b')) ! i" and "v \<equiv> users (srv_store (server b')) ! j"
  shows "cstr (username u) \<noteq> cstr (username v) \<and> cstr (email u) \<noteq> cstr (email v) \<and>
    cstr (phone u) \<noteq> cstr (phone v)"
  using roomy_run [OF assms(1-4)] assms(5-7)
  by (simp add: contacts_inv_def no_clash_def bank_tables_def u_def v_def)

text \<open>A new installation to which an employee has added a customer.\<close>

theorem contacts_unique_witness:
  "cstr (username (users (srv_store (server after_enroll)) ! 4)) \<noteq>
   cstr (username (users (srv_store (server after_enroll)) ! 6))"
proof -
  have "contacts_inv (bank_tables installed_server)" using installed_facts(1) by (simp add: bank_inv_iff)
  from contacts_unique [OF enroll_run installed_hyps(1) this installed_hyps(2), of 4 6] after_enroll_users
  show ?thesis by simp
qed

text \<open>
  C9: When no creation, lock or write fails and the requests are served one at a time, what a run
  of the server has recorded stays: the audit log only grows at its
  end, every loan keeps its owner and amount and moves only forward through pending,
  assigned and approved or rejected, and users keep their identifier and user name.
\<close>

theorem records_are_permanent:
  assumes "(quiet_step ^^ n) b b'" "books_inv (bank_tables b)"
    "1001 + length (t_users (bank_tables b)) + n < 2 ^ 31"
  defines "d \<equiv> srv_store (server b)" and "d' \<equiv> srv_store (server b')"
  shows "(\<exists>new. txns d' = txns d @ new) \<and>
    (\<forall>i<length (loans d). i < length (loans d') \<and> loan_evolves (loans d ! i) (loans d' ! i)) \<and>
    (\<forall>i<length (users d). i < length (users d') \<and> user_evolves (users d ! i) (users d' ! i))"
  using quiet_run [OF assms(1-3)]
  by (auto simp: history_def grows_def prefix_def bank_tables_def d_def d'_def)

theorem records_are_permanent_witness:
  "user_evolves (users installed ! 0) (users (srv_store (server after_deposit)) ! 0)"
  using records_are_permanent [OF demo_run installed_hyps] installed_facts(2)
  by (metis installed_disk(1) zero_less_numeral)

text \<open>
  C10: On an empty directory and without I/O failures \<open>bootstrap.c\<close> creates all six users,
  with the identifiers, roles and user names its banner lists, opens an empty active account
  for each of the two customers and for nobody else, and leaves a database that satisfies the
  invariant of the server.
\<close>

theorem bootstrap_installs:
  assumes "io_ok e" "disk s = empty_store" "bootstrap_main e True s = (rc, out, s')"
  shows "rc = 0 \<and> success_count out = 6 \<and> bank_inv (tables_of (disk s')) \<and>
    map (\<lambda>u. (u_user_id u, u_role u, cstr (username u))) (users (disk s')) =
      [(1001, ROLE_ADMIN, ''siddhesh''), (1002, ROLE_MANAGER, ''manasi''),
       (1003, ROLE_EMPLOYEE, ''prakash''), (1004, ROLE_EMPLOYEE, ''smita''),
       (1005, ROLE_CUSTOMER, ''priya''), (1006, ROLE_CUSTOMER, ''rohan'')] \<and>
    accounts (disk s') = [new_account 1005, new_account 1006]"
proof -
  note b = bootstrap_store [OF assms]
  have "map (\<lambda>u. (u_user_id u, u_role u, cstr (username u))) (users (disk s')) =
      map (\<lambda>c. (c_id c, c_role c, c_name c)) (map card_of (users (disk s')))"
    by (simp add: card_of_def)
  also have "\<dots> = map (\<lambda>c. (c_id c, c_role c, c_name c)) (boot_cards e boot_ops [])"
    using b by simp
  finally show ?thesis using b by (simp add: boot_ops_def staff_role_def)
qed

theorem bootstrap_installs_witness:
  "success_count (fst (snd (bootstrap_main demo_env True boot_st))) = 6"
proof -
  obtain rc out s' where b: "bootstrap_main demo_env True boot_st = (rc, out, s')"
    by (metis surj_pair)
  from bootstrap_installs [OF demo_env_ok(1) _ b] b show ?thesis by (simp add: boot_st_def)
qed

section \<open>Sessions and logins\<close>

text \<open>Connection 3 of the demo server logs in as the users of the list, one after the other.\<close>

definition demo_bank :: "uid list \<Rightarrow> uid \<Rightarrow> bank" where
  "demo_bank ks k = \<lparr>server = demo_server (slot_table ks), conns = [3 \<mapsto> k]\<rparr>"

lemma demo_bank_login:
  assumes "pl = ''ann pw'' \<and> k = 1001 \<or> pl = ''bob pw'' \<and> k = 1002"
    "0 \<notin> set ks" "length ks < MAX_CLIENTS" "k \<notin> set ks" "length pl < 1024" "clean pl"
  shows "any_step (demo_bank ks c) (demo_bank (ks @ [k]) k)"
    and "\<exists>r. handle_request demo_env ''LOGIN'' pl c (server (demo_bank ks c)) =
      Inr (r, k, server (demo_bank (ks @ [k]) k))"
proof -
  note t = slot_table_step [OF assms(2,3)]
  have "k \<notin> set (slot_table ks)" using assms(1,4) by (auto simp: slot_table_def)
  from demo_login_step [OF assms(1) this t(1), of c] obtain r where
    r: "handle_request demo_env ''LOGIN'' pl c (demo_server (slot_table ks)) =
      Inr (r, k, demo_server (slot_table (ks @ [k])))" unfolding t(2) by blast
  then show "\<exists>r. handle_request demo_env ''LOGIN'' pl c (server (demo_bank ks c)) =
      Inr (r, k, server (demo_bank (ks @ [k]) k))" by (simp add: demo_bank_def)
  let ?req = "\<lparr>req_op = init_array 32 ''LOGIN'', req_payload = init_array 1024 pl\<rparr>"
  have q: "cstr (req_op ?req) = ''LOGIN''" "cstr (req_payload ?req) = pl"
    using assms(5,6) by (simp_all add: cstr_init_array)
  have "server_step demo_env (demo_bank ks c)
      ((demo_bank ks c)\<lparr>server := demo_server (slot_table (ks @ [k])), conns := (conns (demo_bank ks c))(3 \<mapsto> k)\<rparr>)"
  proof (rule server_step.request [where req = ?req])
    show "conns (demo_bank ks c) 3 = Some c" by (simp add: demo_bank_def)
    show "handle_request demo_env (cstr (req_op ?req)) (cstr (req_payload ?req)) c (server (demo_bank ks c))
      = Inr (r, k, demo_server (slot_table (ks @ [k])))"
      unfolding q using r by (simp add: demo_bank_def)
  qed
  moreover have "(demo_bank ks c)\<lparr>server := demo_server (slot_table (ks @ [k])),
      conns := (conns (demo_bank ks c))(3 \<mapsto> k)\<rparr> = demo_bank (ks @ [k]) k"
    by (simp add: demo_bank_def)
  ultimately show "any_step (demo_bank ks c) (demo_bank (ks @ [k]) k)"
    unfolding any_step_def by metis
qed

lemma demo_bank_start: "any_step (server_init demo_store) (demo_bank [] 0)"
proof -
  have "server_step demo_env (server_init demo_store)
      ((server_init demo_store)\<lparr>conns := (conns (server_init demo_store))(3 \<mapsto> 0)\<rparr>)"
    by (rule server_step.accept) (simp add: server_init_def)
  moreover have "(server_init demo_store)\<lparr>conns := (conns (server_init demo_store))(3 \<mapsto> 0)\<rparr> =
      demo_bank [] 0"
    by (simp add: server_init_def demo_bank_def demo_server_def slot_table_def)
  ultimately show ?thesis unfolding any_step_def by metis
qed

lemma demo_bank_ann: "any_step\<^sup>*\<^sup>* (server_init demo_store) (demo_bank [1001] 1001)"
  using demo_bank_start demo_bank_login(1) [of "''ann pw''" 1001 "[]" 0]
  by (auto simp: size_defs intro: rtranclp.intros converse_rtranclp_into_rtranclp)

text \<open>
  C11: Logins are exclusive: in every state the server reaches from its start, in any
  environment, the user of a connection occupies a slot of the session table and is the
  user of no other connection.
\<close>

theorem logins_are_exclusive:
  assumes "any_step\<^sup>*\<^sup>* (server_init d) b" "conns b fd = Some k" "k \<noteq> 0"
  shows "k \<in> set (active_sessions (server b)) \<and> (\<forall>fd'. conns b fd' = Some k \<longleftrightarrow> fd' = fd)"
  using run_sessions [OF assms(1) sessions_init] assms(2,3)
  by (auto simp: sessions_inv_def exclusive_def has_session_def)

theorem logins_are_exclusive_witness:
  "1001 \<in> set (active_sessions (server (demo_bank [1001] 1001)))"
  using logins_are_exclusive [OF demo_bank_ann, of 3 1001] by (simp add: demo_bank_def)

text \<open>
  C12: A second \<open>LOGIN\<close> on a connection that is logged in, for another user, orphans the
  first session: whatever the connections do afterwards, the first user stays in the session
  table and every correct login of that user is refused.
\<close>

theorem orphaned_session_locks_out:
  assumes "any_step\<^sup>*\<^sup>* (server_init d) b" "conns b fd = Some c" "c \<noteq> 0"
    "handle_request e ''LOGIN'' pl c (server b) = Inr (r, k, v)" "k \<noteq> c"
    "any_step\<^sup>*\<^sup>* (b\<lparr>server := v, conns := (conns b)(fd \<mapsto> k)\<rparr>) b'"
    "sscanf [Cs MAX_USERNAME_LEN, Cs MAX_PASSWORD_LEN] pl' = Inr as"
    "login_user e' (arg_s e' as 0 ''username'') (arg_s e' as 1 ''password'') (start_st (server b'))
       = Login_ok c role nm"
    "handle_request e' ''LOGIN'' pl' cur (server b') = Inr (r', cur', v')"
  shows "resp_message r' = ''FAILURE User is already logged in elsewhere.'' \<and> cur' = cur \<and> v' = server b'"
proof -
  let ?b = "b\<lparr>server := v, conns := (conns b)(fd \<mapsto> k)\<rparr>"
  have inv: "sessions_inv b" using run_sessions [OF assms(1) sessions_init] .
  have h: "handle_login e pl c (server b) = Inr (r, k, v)"
    using assms(4) by (simp add: handle_request_def)
  from handle_login_result [OF h] assms(5) obtain j ss where
    o: "open_session j c (active_sessions (server b)) = (True, k, ss)"
    "v = (server b)\<lparr>active_sessions := ss\<rparr>" by auto
  with open_session_done [OF o(1)] assms(5) have "j = k" by auto
  with o inv slots.enter_twice [of "active_sessions (server b)" "conns b" fd c k ss] assms(2,3,5)
  have "leaked c ?b" by (simp add: leaked_def sessions_inv_def)
  moreover have "sessions_inv ?b"
    using slots.enter_exclusive [of "active_sessions (server b)" "conns b" fd c j True k ss]
      o inv assms(2) by (simp add: sessions_inv_def)
  ultimately have "has_session (active_sessions (server b')) c"
    using run_leaked [OF assms(6)] by (auto simp: leaked_def orphan_def)
  with handle_login_taken [OF _ assms(7,8)] assms(9) show ?thesis by (simp add: handle_request_def)
qed

theorem orphaned_session_locks_out_witness:
  "\<exists>r. handle_request demo_env ''LOGIN'' ''ann pw'' 0 (server (demo_bank [1001, 1002] 1002)) =
      Inr (r, 0, server (demo_bank [1001, 1002] 1002)) \<and>
    resp_message r = ''FAILURE User is already logged in elsewhere.''"
proof -
  let ?b = "demo_bank [1001] 1001" and ?b' = "demo_bank [1001, 1002] 1002"
  obtain r where r: "handle_request demo_env ''LOGIN'' ''bob pw'' 1001 (server ?b) = Inr (r, 1002, server ?b')"
    using demo_bank_login(2) [of "''bob pw''" 1002 "[1001]" 1001] by (auto simp: size_defs)
  have same: "?b\<lparr>server := server ?b', conns := (conns ?b)(3 \<mapsto> 1002)\<rparr> = ?b'"
    by (simp add: demo_bank_def)
  have "disk (start_st (server ?b')) = demo_store" by (simp add: demo_bank_def demo_server_def)
  from demo_login(1) [OF this] obtain nm where
    nm: "login_user demo_env (arg_s demo_env [As ''ann'', As ''pw''] 0 ''username'')
      (arg_s demo_env [As ''ann'', As ''pw''] 1 ''password'') (start_st (server ?b')) =
      Login_ok 1001 ''customer'' nm" by (auto simp: arg_s_def)
  have c: "conns ?b 3 = Some 1001" by (simp add: demo_bank_def)
  have in_table: "1001 \<in> set (active_sessions (server ?b'))"
    by (simp add: demo_bank_def demo_server_def slot_table_def)
  note claim = orphaned_session_locks_out [OF demo_bank_ann c _ r _ _ scan_logins(1) nm, unfolded same]
  obtain r' cur' v' where h: "handle_request demo_env ''LOGIN'' ''ann pw'' 0 (server ?b') = Inr (r', cur', v')"
    using nm scan_logins(1) in_table
    by (simp add: handle_request_def handle_login_def open_session_def Let_def del: sscanf.simps)
  from claim [OF _ _ _ h] h show ?thesis by simp
qed

text \<open>
  C32: Logging in on a fresh connection and logging out again restores the state of the
  server exactly, session table included, whether the login succeeded or not.
\<close>

theorem logout_undoes_login:
  assumes "handle_request e ''LOGIN'' pl 0 v = Inr (r, k, v1)"
    "handle_request e' ''LOGOUT'' pl' k v1 = Inr (r', k', v2)"
  shows "k' = 0 \<and> v2 = v"
  using assms by (rule login_then_logout)

theorem logout_undoes_login_witness:
  "\<exists>v. handle_request demo_env ''LOGOUT'' [] 1001 v =
     Inr (\<lparr>status_code = 0, resp_message = ''Logged out successfully''\<rparr>, 0, server (demo_bank [] 0))"
proof -
  obtain r where r: "handle_request demo_env ''LOGIN'' ''ann pw'' 0 (server (demo_bank [] 0)) =
      Inr (r, 1001, server (demo_bank [1001] 1001))"
    using demo_bank_login(2) [of "''ann pw''" 1001 "[]" 0] by (auto simp: size_defs)
  obtain v2 where h: "handle_request demo_env ''LOGOUT'' [] 1001 (server (demo_bank [1001] 1001)) =
      Inr (\<lparr>status_code = 0, resp_message = ''Logged out successfully''\<rparr>, 0, v2)"
    by (simp add: handle_request_def)
  from logout_undoes_login [OF r h] h show ?thesis by auto
qed

text \<open>
  C14: With unique contacts, \<open>login_user\<close> accepts a user name and a password exactly when
  a stored user has that name, the password verifies against the stored hash, the user is
  active and has no deactivated account; the identifier and the role it returns are that
  user's.
\<close>

theorem login_correct:
  assumes "contacts_inv (tables_of (disk s))"
  shows "(\<exists>nm. login_user e un p s = Login_ok k role nm) \<longleftrightarrow>
    (\<exists>u\<in>set (users (disk s)). cstr (username u) = un \<and> admits e u p s \<and>
       k = u_user_id u \<and> role = role_str (u_role u))"
proof
  assume "\<exists>nm. login_user e un p s = Login_ok k role nm"
  then obtain nm where "login_user e un p s = Login_ok k role nm" by blast
  from login_user_okD [OF this] show "\<exists>u\<in>set (users (disk s)). cstr (username u) = un \<and>
      admits e u p s \<and> k = u_user_id u \<and> role = role_str (u_role u)" by metis
next
  assume "\<exists>u\<in>set (users (disk s)). cstr (username u) = un \<and> admits e u p s \<and> k = u_user_id u \<and>
    role = role_str (u_role u)"
  with login_user_of [OF assms] show "\<exists>nm. login_user e un p s = Login_ok k role nm" by blast
qed

theorem login_correct_witness:
  "\<not> (\<exists>nm. login_user demo_env ''ann'' ''pw'' demo_st = Login_ok 1002 ''customer'' nm)"
proof -
  have c: "contacts_inv (tables_of (disk demo_st))"
    by (simp add: contacts_inv_def no_clash_def demo_user_def cstr_init_array size_defs less_Suc_eq
        numeral_3_eq_3)
  show ?thesis unfolding login_correct [OF c] by (auto simp: demo_user_def cstr_init_array size_defs)
qed

text \<open>
  C15: After a successful \<open>change_password\<close> of an active user, with a \<open>crypt\<close> that hashes
  the new password to \<open>h\<close>, that user can log in with exactly the passwords that \<open>crypt\<close>
  maps to \<open>h\<close> under the setting \<open>h\<close>: the new one, and no other that hashes differently.
\<close>

theorem new_password_works:
  assumes "change_password e k p s = (True, s')" "contacts_inv (tables_of (disk s))"
    "distinct (map u_user_id (users (disk s)))" "u \<in> set (users (disk s))" "u_user_id u = k"
    "user_wf u" "u_active u = STATUS_ACTIVE" "\<not> account_closed k s"
    "crypt_fn e p ''$6$IIITB$'' = Some h" "clean h" "length h < MAX_PASSWORD_LEN"
  shows "(\<exists>nm. login_user e (cstr (username u)) q s' = Login_ok k (role_str (u_role u)) nm)
    \<longleftrightarrow> crypt_fn e q h = Some h"
  using assms by (rule change_password_login)

theorem new_password_works_witness:
  "\<exists>s'. change_password demo_env 1001 ''new'' demo_st = (True, s') \<and>
     \<not> (\<exists>nm. login_user demo_env ''ann'' ''pw'' s' = Login_ok 1001 ''customer'' nm) \<and>
     (\<exists>nm. login_user demo_env ''ann'' ''new'' s' = Login_ok 1001 ''customer'' nm)"
proof -
  let ?u = "demo_user 1001 ROLE_CUSTOMER ''ann''"
  obtain s' where s: "change_password demo_env 1001 ''new'' demo_st = (True, s')"
    by (simp add: change_password_def atomic_update_user_def atomic_update_def pwrite_def
        change_pass_modifier_def find_user_offset_def find_offset_def scan_offset_def demo_users_db demo_env_def)
  have c: "contacts_inv (tables_of (disk demo_st))"
    by (simp add: contacts_inv_def no_clash_def demo_user_def cstr_init_array size_defs less_Suc_eq
        numeral_3_eq_3)
  have u: "distinct (map u_user_id (users (disk demo_st)))" "?u \<in> set (users (disk demo_st))"
    "u_user_id ?u = 1001" "user_wf ?u" "u_active ?u = STATUS_ACTIVE" "\<not> account_closed 1001 demo_st"
    using user_wf_zero
    by (simp_all add: user_wf_def demo_user_def terminated_init_array size_defs account_closed_def)
  have h: "crypt_fn demo_env ''new'' ''$6$IIITB$'' = Some ''$6$IIITB$new''" "clean ''$6$IIITB$new''"
    "length ''$6$IIITB$new'' < MAX_PASSWORD_LEN"
    by (simp_all add: demo_env_def size_defs)
  note claim = new_password_works [OF s c u h]
  from claim [of "''pw''"] claim [of "''new''"] s show ?thesis
    by (auto simp: demo_env_def)
qed

text \<open>
  C16: Once the manager has deactivated an account, deposits, withdrawals and transfers
  that involve it fail and leave the database as it is, and its owner cannot log in.
\<close>

theorem deactivated_account_is_frozen:
  assumes "set_account_status e k v s = (True, s1)" "v \<noteq> 1"
  shows "\<not> fst (deposit_money e1 k x s1) \<and> disk (snd (deposit_money e1 k x s1)) = disk s1 \<and>
    \<not> fst (withdraw_money e1 k x s1) \<and> disk (snd (withdraw_money e1 k x s1)) = disk s1 \<and>
    \<not> fst (transfer_funds e1 k j x s1) \<and> disk (snd (transfer_funds e1 k j x s1)) = disk s1 \<and>
    \<not> fst (transfer_funds e1 j k x s1) \<and> disk (snd (transfer_funds e1 j k x s1)) = disk s1 \<and>
    login_user e1 un p s1 \<noteq> Login_ok k role nm"
proof -
  note c = account_closed_update [OF assms]
  have "login_user e1 un p s1 \<noteq> Login_ok k role nm"
    using c login_user_okD [of e1 un p s1 k role nm] by (metis admits_def)
  then show ?thesis
    using closed_deposit [OF c surjective_pairing] closed_withdraw [OF c surjective_pairing]
      closed_transfer [OF c _ surjective_pairing] by simp
qed

theorem deactivated_account_is_frozen_witness:
  "\<exists>s1. set_account_status demo_env 1001 0 demo_st = (True, s1) \<and>
     \<not> fst (deposit_money demo_env 1001 (dbl 60) s1)"
proof -
  have "set_status_modifier 0 (holder 1001 500) demo_st =
      (True, (holder 1001 500)\<lparr>a_active := STATUS_INACTIVE\<rparr>, demo_st)"
    by (simp add: set_status_modifier_def)
  from account_update_io_ok [where m = "set_status_modifier 0", OF demo_env_ok(1) demo_read(1) this] obtain s1 where
    s1: "set_account_status demo_env 1001 0 demo_st = (True, s1)"
    by (auto simp: set_account_status_def)
  from deactivated_account_is_frozen [OF s1] s1 show ?thesis by auto
qed

text \<open>
  C17: Only the employee to whom a loan is assigned decides on it, once, and only by
  approving or rejecting: \<open>approve_reject_loan\<close> succeeds on no other loan and for nobody
  else, whatever fails in between.
\<close>

theorem decision_needs_assignment:
  assumes "approve_reject_loan e lid action k s = (True, s')"
  shows "(action = ''approve'' \<or> action = ''reject'') \<and>
    (\<exists>l. read_loan lid s = Some l \<and> l_status l = LOAN_ASSIGNED \<and> assigned_to l = k)"
  using decision_authorised [OF assms] by metis

theorem decision_needs_assignment_witness:
  "\<exists>s'. approve_reject_loan demo_env 1 ''reject'' 1003 demo_st = (True, s') \<and>
     (\<exists>l. read_loan 1 demo_st = Some l \<and> assigned_to l = 1003)"
proof -
  obtain s' where s: "approve_reject_loan demo_env 1 ''reject'' 1003 demo_st = (True, s')"
    by (simp add: approve_reject_loan_def atomic_update_loan_def atomic_update_def pwrite_def
        approve_reject_loan_modifier_def Let_def demo_defs find_loan_offset_def find_offset_def
        scan_offset_def)
  from decision_needs_assignment [OF s] s show ?thesis by auto
qed

section \<open>Amounts\<close>

text \<open>
  C18: Without I/O failures a transfer of a whole amount between whole balances, all below
  \<open>2 ^ 52\<close>, is exact: the balances stay whole and their sum does not change, whether the transfer
  is carried out or refused. (C19 says what a failing write loses.)
\<close>

theorem transfer_conserves_money:
  assumes "io_ok e" "transfer_funds e f t (dbl x) s = (ok, s')" "whole_balances (2 ^ 52) (disk s) vs"
    "\<bar>x\<bar> \<le> 2 ^ 52"
  shows "\<exists>vs'. map balance (accounts (disk s')) = map dbl vs' \<and> sum_list vs' = sum_list vs"
  using assms by (rule transfer_whole)

theorem transfer_conserves_money_witness:
  "\<exists>vs'. map balance (accounts (disk (snd (transfer_funds demo_env 1001 1002 (dbl 60) demo_st)))) =
     map dbl vs' \<and> sum_list vs' = 540"
proof -
  obtain ok s' where t: "transfer_funds demo_env 1001 1002 (dbl 60) demo_st = (ok, s')" by fastforce
  have "whole_balances (2 ^ 52) (disk demo_st) [500, 40]" by (simp add: whole_balances_def)
  from transfer_conserves_money [OF demo_env_ok(1) t this] t show ?thesis by simp
qed

text \<open>
  C19: When the second write of a transfer fails, the roll-back gives the sender back what
  was taken if its own write succeeds; if that write fails as well, the sender has lost the
  amount. In both cases nobody else's account and no other file changes, so that nothing of
  the loss is logged, and the reply is the critical error.
\<close>

theorem failed_transfer_rolls_back:
  assumes "find_account_offset f (disk s) = Some i" "find_account_offset t (disk s) = Some j" "f \<noteq> t"
    "a = accounts (disk s) ! i" "a_active a = STATUS_ACTIVE"
    "a_active (accounts (disk s) ! j) = STATUS_ACTIVE" "\<not> dle x dzero" "\<not> dlt (balance a) x"
    "\<forall>n. lock_ok e n" "wr_ok e (tick s)" "\<not> wr_ok e (Suc (tick s))"
    "transfer_funds e f t x s = (ok, s')"
  shows "\<not> ok \<and> disk s' = (disk s)\<lparr>accounts_db := Some ((accounts (disk s))[i := a\<lparr>balance :=
      rolled_back (wr_ok e (Suc (Suc (tick s)))) (balance a) x\<rparr>])\<rparr> \<and>
    resp_msg s' = ''CRITICAL ERROR: Transfer failed after withdrawal. Contact support.''"
  using assms by (rule transfer_second_write_fails)

theorem failed_transfer_rolls_back_witness:
  "balance (accounts (disk (snd (transfer_funds (failing {1, 2}) 1001 1002 (dbl 60) demo_st))) ! 0) = dbl 440"
proof -
  let ?e = "failing {1, 2}"
  obtain ok s' where t: "transfer_funds ?e 1001 1002 (dbl 60) demo_st = (ok, s')" by fastforce
  have e: "\<forall>n. lock_ok ?e n" "wr_ok ?e (tick demo_st)" "\<not> wr_ok ?e (Suc (tick demo_st))"
    "\<not> wr_ok ?e (Suc (Suc (tick demo_st)))" by (simp_all add: failing_def demo_env_def)
  have "\<not> dle (dbl 60) dzero" "\<not> dlt (dbl 500) (dbl 60)"
    by (simp_all add: dzero_dbl dle_dbl dlt_dbl)
  with failed_transfer_rolls_back [OF _ _ _ refl _ _ _ _ e(1-3) t, of 0 1] e(4) t show ?thesis
    by (simp add: rolled_back_def dsub_dbl)
qed

text \<open>
  C20: The approval of a loan pays first and records the decision afterwards: when the write
  of the loan record fails, the customer keeps the money and the log shows the payment, but
  the loan is still assigned, so the same loan can be approved and paid again.
\<close>

theorem unrecorded_approval_pays:
  assumes "find_loan_offset lid (disk s) = Some n" "l = loans (disk s) ! n"
    "l_status l = LOAN_ASSIGNED" "assigned_to l = k"
    "find_account_offset (l_user_id l) (disk s) = Some j"
    "a_active (accounts (disk s) ! j) = STATUS_ACTIVE"
    "\<forall>n. lock_ok e n" "creat_ok e" "wr_ok e (tick s)" "wr_ok e (Suc (tick s))"
    "\<not> wr_ok e (Suc (Suc (tick s)))" "approve_reject_loan e lid ''approve'' k s = (ok, s')"
  shows "\<not> ok \<and> loans (disk s') = loans (disk s) \<and>
    accounts (disk s') = credited j (l_amount l) (accounts (disk s)) \<and>
    (\<exists>tx. txns (disk s') = txns (disk s) @ [tx] \<and> movement_of tx = Loan_paid (l_user_id l) (l_amount l))"
  using assms by (rule loan_write_fails)

theorem unrecorded_approval_pays_witness:
  "loans (disk (snd (approve_reject_loan (failing {2}) 1 ''approve'' 1003 demo_st))) = [demo_loan] \<and>
   balance (accounts (disk (snd (approve_reject_loan (failing {2}) 1 ''approve'' 1003 demo_st))) ! 0)
     = dbl 1400"
proof -
  let ?e = "failing {2}"
  obtain ok s' where t: "approve_reject_loan ?e 1 ''approve'' 1003 demo_st = (ok, s')" by fastforce
  have e: "\<forall>n. lock_ok ?e n" "creat_ok ?e" "wr_ok ?e (tick demo_st)" "wr_ok ?e (Suc (tick demo_st))"
    "\<not> wr_ok ?e (Suc (Suc (tick demo_st)))" by (simp_all add: failing_def demo_env_def)
  have l: "l_status demo_loan = LOAN_ASSIGNED" "assigned_to demo_loan = 1003"
    "l_user_id demo_loan = 1001" "l_amount demo_loan = dbl 900" by (simp_all add: demo_loan_def)
  from unrecorded_approval_pays [OF _ refl _ _ _ _ e t, of 0 0] l t show ?thesis
    by (simp add: credited_def dadd_dbl)
qed

text \<open>
  A deposit whose log entry cannot be written is still credited and reported as a
  success: the balance then contains money the audit log does not explain.
\<close>

theorem unlogged_deposit_succeeds:
  assumes "find_account_offset k (disk s) = Some i" "a_active (accounts (disk s) ! i) = STATUS_ACTIVE"
    "\<not> dle x dzero" "lock_ok e (tick s)" "wr_ok e (tick s)" "\<not> wr_ok e (Suc (tick s))"
    "deposit_money e k x s = (ok, s')"
  shows "ok \<and> txns (disk s') = txns (disk s) \<and> accounts (disk s') = credited i x (accounts (disk s))"
  using assms by (rule deposit_log_fails)

theorem unlogged_deposit_succeeds_witness:
  "fst (deposit_money (failing {1}) 1002 (dbl 60) demo_st) \<and>
   txns (disk (snd (deposit_money (failing {1}) 1002 (dbl 60) demo_st))) = []"
proof -
  let ?e = "failing {1}"
  obtain ok s' where t: "deposit_money ?e 1002 (dbl 60) demo_st = (ok, s')" by fastforce
  have e: "lock_ok ?e (tick demo_st)" "wr_ok ?e (tick demo_st)" "\<not> wr_ok ?e (Suc (tick demo_st))"
    by (simp_all add: failing_def demo_env_def)
  have "\<not> dle (dbl 60) dzero" by (simp add: dzero_dbl dle_dbl)
  from unlogged_deposit_succeeds [OF _ _ this e t, of 1] t show ?thesis by simp
qed

text \<open>
  C31: \<open>add_new_customer\<close> reports \<open>Customer Added\<close> even when neither the user nor the
  account could be written: with every write failing, a customer with unused contacts is
  "added" and the database is what it was.
\<close>

theorem unsaved_customer_is_reported:
  assumes "users_db (disk s) = Some us" "accounts_db (disk s) = Some as" "\<forall>n. \<not> wr_ok e n"
    "fst (check_uniqueness un (cstr (email usr)) (cstr (phone usr)) 0 s)"
    "add_new_customer e usr acc un p s = (ok, s')"
  shows "ok \<and> disk s' = disk s"
  using assms by (rule add_customer_writes_fail)

theorem unsaved_customer_is_reported_witness:
  "fst (add_new_customer (failing UNIV) (demo_user 0 ROLE_CUSTOMER ''joe'') zero_account ''joe'' ''pw'' demo_st)"
proof -
  let ?u = "demo_user 0 ROLE_CUSTOMER ''joe''"
  obtain ok s' where t: "add_new_customer (failing UNIV) ?u zero_account ''joe'' ''pw'' demo_st = (ok, s')"
    by fastforce
  have e: "\<forall>n. \<not> wr_ok (failing UNIV) n" by (simp add: failing_def)
  have "fst (check_uniqueness ''joe'' (cstr (email ?u)) (cstr (phone ?u)) 0 demo_st)"
    by (simp add: check_uniqueness_def demo_users_db) (simp add: demo_user_def cstr_init_array size_defs)
  from unsaved_customer_is_reported [OF _ _ e this t] t show ?thesis by (simp add: demo_store_def)
qed

text \<open>
  C23: An amount that is no number defeats the balance check for good: after a deposit of NaN
  into an active account, in every state the server reaches without I/O failures, serving one
  request at a time, a withdrawal of any amount that is not negative or zero succeeds, however
  large, as long as the account is not deactivated (and again when it is reactivated).
\<close>

theorem nan_deposit_unlocks_withdrawals:
  assumes "books_inv (bank_tables b)" "1001 + length (t_users (bank_tables b)) + Suc n < 2 ^ 31"
    "io_ok e" "read_account k (start_st (server b)) = Some a" "a_active a = STATUS_ACTIVE"
    "deposit_money e k NaN (start_st (server b)) = (ok, s1)"
    "(quiet_step ^^ n) (b\<lparr>server := (server b)\<lparr>srv_store := disk s1, srv_tick := tick s1\<rparr>\<rparr>) b2"
    "read_account k (start_st (server b2)) = Some a2" "a_active a2 = STATUS_ACTIVE"
    "io_ok e'" "withdraw_money e' k x (start_st (server b2)) = (ok', s3)" "\<not> dle x dzero"
  shows "ok \<and> ok' \<and> balance a2 = NaN \<and> holding (abs_bank s3) k = Some (NaN, True)"
proof -
  let ?b1 = "b\<lparr>server := (server b)\<lparr>srv_store := disk s1, srv_tick := tick s1\<rparr>\<rparr>"
  have t1: "bank_tables ?b1 = tables_of (disk s1)" by (simp add: bank_tables_def)
  have "holding (abs_bank (start_st (server b))) k = Some (balance a, True)"
    using assms(4,5) by (simp add: abs_bank_def view_of_def)
  with deposit_money_spec [OF assms(3,6)] have 1: "ok" "holding (abs_bank s1) k = Some (NaN, True)"
    by (simp_all add: deposit_spec_def credit_def outcome_def record_moves_def)
  from 1(2) obtain a1 where "read_account k s1 = Some a1" "balance a1 = NaN"
    by (auto simp: abs_bank_def view_of_def)
  then have nan: "nan_account k (bank_tables ?b1)" unfolding t1 by (rule read_account_nan)
  have m: "move False (bank_tables b) (bank_tables ?b1)"
    using deposit_money_move [OF assms(3,6)] by (simp add: t1 bank_tables_def)
  have r: "room (bank_tables b)" using assms(2) by (simp add: room_def)
  have b1: "books_inv (bank_tables ?b1)" "1001 + length (t_users (bank_tables ?b1)) + n < 2 ^ 31"
    using move_books_inv [OF m assms(1) r] move_users_length [OF m] assms(2) by simp_all
  have "nan_account k (bank_tables b2)"
    by (rule run_moves [where P = "nan_account k", OF assms(7) b1 move_nan nan])
  moreover have "books_inv (bank_tables b2)" using quiet_run [OF assms(7) b1] by simp
  ultimately have 2: "balance a2 = NaN"
    using nan_account_read [OF _ _ assms(8)] by (simp add: bank_tables_def books_inv_def)
  have "holding (abs_bank (start_st (server b2))) k = Some (NaN, True)"
    using assms(8,9) 2 by (simp add: abs_bank_def view_of_def)
  with withdraw_money_spec [OF assms(10,11)] assms(12) 1(1) 2 show ?thesis
    by (simp add: withdraw_spec_def debit_def outcome_def record_moves_def)
qed

text \<open>With 250 on it the account pays out a million, twice.\<close>

theorem nan_deposit_unlocks_withdrawals_witness:
  "\<exists>s1 s2. deposit_money demo_env 1005 NaN (start_st (server installed_server)) = (True, s1) \<and>
     withdraw_money demo_env 1005 (dbl 1000000) (start_st \<lparr>srv_store = disk s1, srv_tick = tick s1,
       active_sessions = active_sessions (server installed_server)\<rparr>) = (True, s2) \<and>
     holding (abs_bank s2) 1005 = Some (NaN, True)"
proof -
  let ?s = "start_st (server installed_server)"
  have r: "read_account 1005 ?s = Some (new_account 1005)" "a_active (new_account 1005) = STATUS_ACTIVE"
    "\<not> dle NaN dzero"
    using installed_offset by (simp_all add: read_account_at installed_facts(3) new_account_def)
  obtain ok s1 where 1: "deposit_money demo_env 1005 NaN ?s = (ok, s1)" by fastforce
  let ?b1 = "installed_server\<lparr>server := (server installed_server)\<lparr>srv_store := disk s1, srv_tick := tick s1\<rparr>\<rparr>"
  let ?b2 = "?b1\<lparr>conns := (conns ?b1)(7 \<mapsto> 0)\<rparr>"
  have "server_step demo_env ?b1 ?b2"
    by (rule server_step.accept) (simp add: installed_server_def server_init_def)
  then have "quiet_step ?b1 ?b2" by (rule demo_step)
  then have run: "(quiet_step ^^ 1) ?b1 ?b2" by (simp add: eq_OO)
  obtain ok' s2 where 2: "withdraw_money demo_env 1005 (dbl 1000000) (start_st (server ?b2)) = (ok', s2)" by fastforce
  have a: "a_active (accounts (disk ?s) ! 0) = STATUS_ACTIVE"
    by (simp add: installed_facts(3) new_account_def)
  from deposit_log_works [OF installed_offset a r(3) demo_env_ok 1] obtain tx where
    "disk s1 = installed\<lparr>accounts_db := Some (credited 0 NaN (accounts installed)),
       txns_db := Some (txns installed @ [tx])\<rparr>" by auto
  then have r2: "read_account 1005 (start_st (server ?b2)) = Some ((new_account 1005)\<lparr>balance := NaN\<rparr>)"
    by (simp add: read_account_at installed_facts(3) credited_def new_account_def find_account_offset_def
        find_offset_def scan_offset_def)
  have "1001 + length (t_users (bank_tables installed_server)) + Suc 1 < 2 ^ 31" "\<not> dle (dbl 1000000) dzero"
    using installed_hyps(2) by (simp_all add: dzero_dbl dle_dbl)
  from nan_deposit_unlocks_withdrawals [OF installed_hyps(1) this(1) demo_env_ok r(1,2) 1 run r2 _ demo_env_ok 2 this(2)]
  have "ok" "ok'" "holding (abs_bank s2) 1005 = Some (NaN, True)" by (simp_all add: new_account_def)
  with 1 2 show ?thesis by (simp add: installed_server_def server_init_def)
qed

end
